(* ===== verification/Prelude.thy ===== *)
theory Prelude
  imports Complex_Main "HOL-Library.Word" "HOL-Library.AList"
begin

unbundle bit_operations_syntax

text \<open>
  The vocabulary every component theory shares: the Python values that reach the program from
  outside (decoded JSON), Python's truthiness and equality on them, dictionaries in insertion
  order, strings, bytes, errors as values of a sum type, and two interface locales (a lossless
  coding, and a machine whose steps keep an invariant) that the components interpret.

  Python's unbounded \<open>int\<close> is \<open>int\<close>; a finite \<open>float\<close> is the rational number it stands for;
  \<open>bytes\<close> is a list of \<open>8 word\<close>; \<open>str\<close> is \<open>string\<close>, so one character is a code point below 256.
\<close>

section \<open>Collections of hints\<close>

named_theorems dict_simps \<open>lookup and key set of the dictionary operations\<close>
named_theorems coding_simps \<open>a decoder after its encoder\<close>
named_theorems ble_defs \<open>constants of the Bluetooth frame layer\<close>

section \<open>Values\<close>

type_synonym byte = "8 word"
type_synonym bytes = "8 word list"

datatype pyfloat = Fin rat | PosInf | NegInf | NaN

datatype pyval =
    PNone
  | PBool bool
  | PInt int
  | PFloat pyfloat
  | PStr string
  | PBytes bytes
  | PList "pyval list"
  | PDict "(string \<times> pyval) list"

type_synonym pydict = "(string \<times> pyval) list"

text \<open>The exceptions the modelled code raises or catches.\<close>

datatype py_exc =
    Refused string
  | TypeError
  | ValueError
  | OverflowError
  | KeyError
  | AttributeError

section \<open>Errors as values\<close>

definition ebind :: "'e + 'a \<Rightarrow> ('a \<Rightarrow> 'e + 'b) \<Rightarrow> 'e + 'b" where
  "ebind m f = (case m of Inl e \<Rightarrow> Inl e | Inr x \<Rightarrow> f x)"

lemma ebind_simps [simp]: "ebind (Inl e) f = Inl e" "ebind (Inr x) f = f x"
  by (simp_all add: ebind_def)

lemma ebind_Inr_iff: "ebind m f = Inr y \<longleftrightarrow> (\<exists>x. m = Inr x \<and> f x = Inr y)"
  by (cases m) auto

lemma ebind_Inl_iff: "ebind m f = Inl e \<longleftrightarrow> m = Inl e \<or> (\<exists>x. m = Inr x \<and> f x = Inl e)"
  by (cases m) auto

section \<open>Dictionaries in insertion order\<close>

text \<open>
  A dictionary is an association list; \<open>AList.update\<close> overwrites in place or appends, as
  Python's item assignment does, and \<open>AList.delete\<close> is \<open>pop\<close>.
\<close>

abbreviation has_key :: "('k \<times> 'v) list \<Rightarrow> 'k \<Rightarrow> bool" where
  "has_key d k \<equiv> k \<in> set (map fst d)"

abbreviation keys_distinct :: "('k \<times> 'v) list \<Rightarrow> bool" where
  "keys_distinct d \<equiv> distinct (map fst d)"

definition dict_merge :: "('k \<times> 'v) list \<Rightarrow> ('k \<times> 'v) list \<Rightarrow> ('k \<times> 'v) list" where
  "dict_merge d e = fold (\<lambda>(k, v). AList.update k v) e d"

definition dict_setdefault :: "'k \<Rightarrow> 'v \<Rightarrow> ('k \<times> 'v) list \<Rightarrow> ('k \<times> 'v) list" where
  "dict_setdefault k v d = (if has_key d k then d else d @ [(k, v)])"

lemma lookup_update [dict_simps]: "map_of (AList.update k v d) = (map_of d)(k \<mapsto> v)"
  by (rule update_conv')

lemma lookup_delete [dict_simps]: "map_of (AList.delete k d) = (map_of d)(k := None)"
  by (rule delete_conv')

lemma lookup_merge [dict_simps]:
  "keys_distinct e \<Longrightarrow> map_of (dict_merge d e) = map_of d ++ map_of e"
proof (induction e arbitrary: d)
  case Nil
  show ?case by (simp add: dict_merge_def)
next
  case (Cons p e)
  obtain k v where p: "p = (k, v)" by (cases p)
  have "map_of (dict_merge d (p # e)) = map_of (dict_merge (AList.update k v d) e)"
    by (simp add: dict_merge_def p)
  also have "\<dots> = (map_of d)(k \<mapsto> v) ++ map_of e"
    using Cons by (simp add: lookup_update)
  also have "\<dots> = map_of d ++ map_of (p # e)"
    using Cons.prems by (simp add: p map_add_upd_left dom_map_of_conv_image_fst)
  finally show ?case .
qed

lemma lookup_setdefault [dict_simps]:
  "map_of (dict_setdefault k v d) = (if has_key d k then map_of d else (map_of d)(k \<mapsto> v))"
proof (cases "has_key d k")
  case False
  then have "map_of d ++ [k \<mapsto> v] = [k \<mapsto> v] ++ map_of d"
    by (intro map_add_comm) (simp add: dom_map_of_conv_image_fst)
  then show ?thesis using False by (simp add: dict_setdefault_def)
qed (simp add: dict_setdefault_def)

lemma key_lookup: "k \<in> fst ` set d \<longleftrightarrow> (\<exists>v. map_of d k = Some v)"
  by (metis map_of_eq_None_iff not_None_eq)

lemma keys_update [simp]:
  "map fst (AList.update k v d) = (if has_key d k then map fst d else map fst d @ [k])"
  by (simp add: update_keys)

lemma keys_distinct_update [simp]: "keys_distinct d \<Longrightarrow> keys_distinct (AList.update k v d)"
  by simp

lemma keys_distinct_delete [simp]: "keys_distinct d \<Longrightarrow> keys_distinct (AList.delete k d)"
  by (rule distinct_delete)

lemma keys_distinct_merge [simp]: "keys_distinct d \<Longrightarrow> keys_distinct (dict_merge d e)"
  by (induction e arbitrary: d) (auto simp: dict_merge_def simp del: keys_update)


lemma keys_distinct_setdefault [simp]: "keys_distinct d \<Longrightarrow> keys_distinct (dict_setdefault k v d)"
  by (simp add: dict_setdefault_def)

section \<open>Truth and equality of values\<close>

fun truthy :: "pyval \<Rightarrow> bool" where
  "truthy PNone = False"
| "truthy (PBool b) = b"
| "truthy (PInt i) = (i \<noteq> 0)"
| "truthy (PFloat f) = (f \<noteq> Fin 0)"
| "truthy (PStr s) = (s \<noteq> [])"
| "truthy (PBytes b) = (b \<noteq> [])"
| "truthy (PList xs) = (xs \<noteq> [])"
| "truthy (PDict d) = (d \<noteq> [])"

text \<open>
  \<open>==\<close> compares numbers across \<open>bool\<close>, \<open>int\<close> and \<open>float\<close>, compares dictionaries without
  regard to the order of their keys, and is false for NaN.
\<close>

fun num_of :: "pyval \<Rightarrow> pyfloat option" where
  "num_of (PBool b) = Some (Fin (if b then 1 else 0))"
| "num_of (PInt i) = Some (Fin (of_int i))"
| "num_of (PFloat f) = Some f"
| "num_of _ = None"

fun py_eq :: "pyval \<Rightarrow> pyval \<Rightarrow> bool" where
  "py_eq (PList xs) (PList ys) = list_all2 py_eq xs ys"
| "py_eq (PDict d) (PDict e) =
     (length d = length e \<and>
      list_all (\<lambda>kv. case map_of e (fst kv) of None \<Rightarrow> False | Some w \<Rightarrow> py_eq (snd kv) w) d)"
| "py_eq v w =
     (case (num_of v, num_of w) of
        (Some a, Some b) \<Rightarrow> a = b \<and> a \<noteq> NaN
      | (None, None) \<Rightarrow> v = w
      | _ \<Rightarrow> False)"

section \<open>Strings\<close>

definition is_digit :: "char \<Rightarrow> bool" where
  "is_digit c \<longleftrightarrow> c \<in> set ''0123456789''"

definition char_in :: "nat \<Rightarrow> nat \<Rightarrow> char \<Rightarrow> bool" where
  "char_in lo hi c \<longleftrightarrow> lo \<le> of_char c \<and> of_char c \<le> hi"

definition is_space :: "char \<Rightarrow> bool" where
  "is_space c \<longleftrightarrow> char_in 9 13 c \<or> char_in 28 32 c \<or> char_in 133 133 c \<or> char_in 160 160 c"

definition lower_char :: "char \<Rightarrow> char" where
  "lower_char c =
     (if char_in 65 90 c \<or> (char_in 192 222 c \<and> \<not> char_in 215 215 c)
      then char_of (of_char c + 32 :: nat) else c)"

definition upper_char :: "char \<Rightarrow> char" where
  "upper_char c =
     (if char_in 97 122 c \<or> (char_in 224 254 c \<and> \<not> char_in 247 247 c)
      then char_of (of_char c - 32 :: nat) else c)"

text \<open>\<open>str.isalnum\<close> for the code points below 256.\<close>

definition is_alnum :: "char \<Rightarrow> bool" where
  "is_alnum c \<longleftrightarrow> is_digit c \<or> char_in 65 90 c \<or> char_in 97 122 c
     \<or> char_in 170 170 c \<or> char_in 178 179 c \<or> char_in 181 181 c \<or> char_in 185 186 c
     \<or> char_in 188 190 c \<or> (char_in 192 255 c \<and> \<not> char_in 215 215 c \<and> \<not> char_in 247 247 c)"

definition str_lower :: "string \<Rightarrow> string" where
  "str_lower s = map lower_char s"

definition str_upper :: "string \<Rightarrow> string" where
  "str_upper s = map upper_char s"

definition str_lstrip :: "string \<Rightarrow> string" where
  "str_lstrip s = dropWhile is_space s"

definition str_strip :: "string \<Rightarrow> string" where
  "str_strip s = rev (dropWhile is_space (rev (dropWhile is_space s)))"

definition starts_with :: "string \<Rightarrow> string \<Rightarrow> bool" where
  "starts_with s p \<longleftrightarrow> take (length p) s = p"

definition ends_with :: "string \<Rightarrow> string \<Rightarrow> bool" where
  "ends_with s p \<longleftrightarrow> length p \<le> length s \<and> drop (length s - length p) s = p"

text \<open>\<open>str.split(c)\<close> for a one-character separator; never the empty list.\<close>

fun split_on :: "char \<Rightarrow> string \<Rightarrow> string list" where
  "split_on c [] = [[]]"
| "split_on c (x # xs) =
     (if x = c then [] # split_on c xs
      else (case split_on c xs of [] \<Rightarrow> [[x]] | w # ws \<Rightarrow> (x # w) # ws))"

text \<open>The text before and after the first occurrence of a separator, if there is one.\<close>

fun cut_at :: "string \<Rightarrow> string \<Rightarrow> (string \<times> string) option" where
  "cut_at p [] = (if p = [] then Some ([], []) else None)"
| "cut_at p (x # xs) =
     (if starts_with (x # xs) p then Some ([], drop (length p) (x # xs))
      else map_option (\<lambda>(a, b). (x # a, b)) (cut_at p xs))"

fun join_with :: "string \<Rightarrow> string list \<Rightarrow> string" where
  "join_with sep [] = []"
| "join_with sep [w] = w"
| "join_with sep (w # ws) = w @ sep @ join_with sep ws"

lemma starts_with_append [simp]: "starts_with (p @ s) p"
  by (simp add: starts_with_def)

lemma ends_with_append [simp]: "ends_with (s @ p) p"
  by (simp add: ends_with_def)

lemma cut_at_parts: "cut_at p s = Some (a, b) \<Longrightarrow> s = a @ p @ b"
proof (induction s arbitrary: a)
  case (Cons x s)
  show ?case
  proof (cases "starts_with (x # s) p")
    case True
    then have "take (length p) (x # s) = p" by (simp add: starts_with_def)
    then show ?thesis using Cons.prems True by (metis append_Nil append_take_drop_id cut_at.simps(2)
          option.inject prod.inject)
  next
    case False
    then show ?thesis using Cons by auto
  qed
qed (auto split: if_splits)

lemma cut_at_first: "cut_at [c] s = Some (a, b) \<Longrightarrow> c \<notin> set a"
  by (induction s arbitrary: a) (auto simp: starts_with_def split: if_splits)

lemma cut_at_none: "cut_at [c] s = None \<Longrightarrow> c \<notin> set s"
  by (induction s) (auto simp: starts_with_def split: if_splits)

lemma cut_at_char: "c \<notin> set a \<Longrightarrow> cut_at [c] (a @ c # b) = Some (a, b)"
  by (induction a) (auto simp: starts_with_def)

lemma split_on_nonempty [simp]: "split_on c s \<noteq> []"
  by (induction s) (auto split: list.splits)

lemma split_on_single: "c \<notin> set s \<Longrightarrow> split_on c s = [s]"
  by (induction s) auto

lemma split_on_cons: "c \<notin> set w \<Longrightarrow> split_on c (w @ c # s) = w # split_on c s"
  by (induction w) auto

lemma split_on_parts: "w \<in> set (split_on c s) \<Longrightarrow> c \<notin> set w"
  by (induction s arbitrary: w) (auto split: list.splits if_splits)

lemma join_split: "join_with [c] (split_on c s) = s"
proof (induction s)
  case (Cons x s)
  then show ?case
    by (cases "split_on c s"; cases "tl (split_on c s)") (auto split: list.splits)
qed simp

lemma split_join:
  "ws \<noteq> [] \<Longrightarrow> \<forall>w \<in> set ws. c \<notin> set w \<Longrightarrow> split_on c (join_with [c] ws) = ws"
  by (induction "[c]" ws rule: join_with.induct) (auto simp: split_on_single split_on_cons)

section \<open>Shared interfaces\<close>

text \<open>
  A coding: an encoder and a decoder that recovers every encoded value of the coded domain.
  Two codings stack when the inner one's output lies in the outer one's domain.
\<close>

locale coding =
  fixes ok :: "'a \<Rightarrow> bool"
    and enc :: "'a \<Rightarrow> 'b"
    and dec :: "'b \<Rightarrow> 'a option"
  assumes dec_enc: "ok x \<Longrightarrow> dec (enc x) = Some x"
begin

lemma enc_injective: "ok x \<Longrightarrow> ok y \<Longrightarrow> enc x = enc y \<Longrightarrow> x = y"
  using dec_enc by (metis option.inject)

end

locale stacked_coding =
  inner: coding ok1 enc1 dec1 + outer: coding ok2 enc2 dec2
  for ok1 :: "'a \<Rightarrow> bool" and enc1 :: "'a \<Rightarrow> 'b" and dec1
    and ok2 :: "'b \<Rightarrow> bool" and enc2 :: "'b \<Rightarrow> 'c" and dec2 +
  assumes fits: "ok1 x \<Longrightarrow> ok2 (enc1 x)"
begin

lemma stacked_dec_enc: "ok1 x \<Longrightarrow> Option.bind (dec2 (enc2 (enc1 x))) dec1 = Some x"
  by (simp add: inner.dec_enc outer.dec_enc fits)

end

sublocale stacked_coding \<subseteq> stacked: coding ok1 "\<lambda>x. enc2 (enc1 x)" "\<lambda>z. Option.bind (dec2 z) dec1"
  by unfold_locales (rule stacked_dec_enc)

text \<open>
  A machine: one deterministic step per event. Whatever each step keeps, every run keeps; whatever
  each step does not undo, no run undoes.
\<close>

locale machine =
  fixes step :: "'s \<Rightarrow> 'e \<Rightarrow> 's"
    and inv :: "'s \<Rightarrow> bool"
  assumes step_inv: "inv s \<Longrightarrow> inv (step s e)"
begin

lemma run_inv: "inv s \<Longrightarrow> inv (foldl step s es)"
  by (induction es arbitrary: s) (auto intro: step_inv)

end

locale growing_machine = machine step inv
  for step :: "'s \<Rightarrow> 'e \<Rightarrow> 's" and inv :: "'s \<Rightarrow> bool" +
  fixes le :: "'s \<Rightarrow> 's \<Rightarrow> bool"
  assumes le_refl: "inv s \<Longrightarrow> le s s"
    and le_trans: "le s t \<Longrightarrow> le t u \<Longrightarrow> le s u"
    and step_le: "inv s \<Longrightarrow> le s (step s e)"
begin

lemma run_le: "inv s \<Longrightarrow> le s (foldl step s es)"
proof (induction es arbitrary: s)
  case Nil
  then show ?case by (simp add: le_refl)
next
  case (Cons e es)
  then have "le (step s e) (foldl step (step s e) es)" by (simp add: step_inv)
  with Cons.prems show ?case by (auto intro: le_trans step_le)
qed

end

end
