(* ===== verification/Coerce.thy ===== *)
theory Coerce
  imports Prelude
begin

text \<open>
  Scalar coercion (\<open>utils/coerce.py\<close>): \<open>to_int\<close>, \<open>to_float\<close> and \<open>to_bool\<close> turn any decoded
  value into a number or a truth value, or give up. The Python functions take the value to
  return on failure; here the result is an option and None is that default, so a caller writes
  its default where it uses the result.

  The builtins they call are modelled first: decimal text, rounding of a rational number to the
  nearest binary64 float (ties to even, overflow to infinity), truncation, and \<open>int(x)\<close>.
\<close>

section \<open>Decimal text\<close>

definition digit_value :: "char \<Rightarrow> nat" where
  "digit_value c = of_char c - 48"

definition digits_value :: "string \<Rightarrow> nat" where
  "digits_value ds = foldl (\<lambda>a c. 10 * a + digit_value c) 0 ds"

fun nat_text :: "nat \<Rightarrow> string" where
  "nat_text n = (if n < 10 then [char_of (48 + n)] else nat_text (n div 10) @ [char_of (48 + n mod 10)])"

declare nat_text.simps [simp del]

text \<open>\<open>str(n)\<close> for an integer.\<close>

definition int_text :: "int \<Rightarrow> string" where
  "int_text n = (if n < 0 then CHR ''-'' # nat_text (nat (- n)) else nat_text (nat n))"

definition split_sign :: "string \<Rightarrow> int \<times> string" where
  "split_sign t =
     (case t of [] \<Rightarrow> (1, [])
      | c # r \<Rightarrow> if c = CHR ''+'' then (1, r) else if c = CHR ''-'' then (- 1, r) else (1, t))"

definition is_int_text :: "string \<Rightarrow> bool" where
  "is_int_text t \<longleftrightarrow> (let ds = snd (split_sign t) in ds \<noteq> [] \<and> list_all is_digit ds)"

definition pow10 :: "int \<Rightarrow> rat" where
  "pow10 e = (if 0 \<le> e then 10 ^ nat e else 1 / 10 ^ nat (- e))"

text \<open>The decimal number a float literal denotes, None for text outside the grammar.\<close>

definition float_text_value :: "string \<Rightarrow> rat option" where
  "float_text_value t =
     (let (sg, r) = split_sign t;
          ip = takeWhile is_digit r;
          r1 = dropWhile is_digit r;
          (fp, r2) = (case r1 of c # r1' \<Rightarrow>
                        if c = CHR ''.'' then (takeWhile is_digit r1', dropWhile is_digit r1')
                        else ([], r1)
                      | [] \<Rightarrow> ([], r1));
          m = of_int sg * of_nat (digits_value (ip @ fp))
      in if ip = [] \<and> fp = [] then None
         else (case r2 of [] \<Rightarrow> Some (m * pow10 (- int (length fp)))
               | c # r3 \<Rightarrow>
                   if (c = CHR ''e'' \<or> c = CHR ''E'') \<and> is_int_text r3
                   then (let (es, ds) = split_sign r3
                         in Some (m * pow10 (es * int (digits_value ds) - int (length fp))))
                   else None))"

section \<open>Binary floating point\<close>

fun bit_len :: "nat \<Rightarrow> nat" where
  "bit_len n = (if n = 0 then 0 else Suc (bit_len (n div 2)))"

declare bit_len.simps [simp del]

definition pow2 :: "int \<Rightarrow> rat" where
  "pow2 e = (if 0 \<le> e then 2 ^ nat e else 1 / 2 ^ nat (- e))"

definition floor_log2 :: "rat \<Rightarrow> int" where
  "floor_log2 a =
     (let (p, q) = quotient_of a; k = int (bit_len (nat p)) - int (bit_len (nat q))
      in if pow2 k \<le> a then k else k - 1)"

definition round_half_even :: "rat \<Rightarrow> int" where
  "round_half_even q =
     (let f = \<lfloor>q\<rfloor>; d = q - of_int f
      in if d < 1 / 2 \<or> (d = 1 / 2 \<and> even f) then f else f + 1)"

definition round_b64 :: "rat \<Rightarrow> pyfloat" where
  "round_b64 q =
     (if q = 0 then Fin 0
      else let e = max (floor_log2 \<bar>q\<bar> - 52) (- 1074);
               r = of_int (round_half_even (\<bar>q\<bar> / pow2 e)) * pow2 e
           in if 2 ^ 1024 \<le> r then (if q < 0 then NegInf else PosInf)
              else Fin (if q < 0 then - r else r))"

text \<open>\<open>int(x)\<close> of a finite float drops the fraction.\<close>

definition trunc :: "rat \<Rightarrow> int" where
  "trunc q = (if q < 0 then - \<lfloor>- q\<rfloor> else \<lfloor>q\<rfloor>)"

text \<open>The digits one conversion from text accepts (\<open>sys.int_max_str_digits\<close>).\<close>

definition max_str_digits :: nat where
  "max_str_digits = 4300"

section \<open>The coercions\<close>

fun to_int :: "pyval \<Rightarrow> int option" where
  "to_int (PBool b) = Some (if b then 1 else 0)"
| "to_int (PInt n) = Some n"
| "to_int (PFloat f) = (case f of Fin q \<Rightarrow> Some (trunc q) | _ \<Rightarrow> None)"
| "to_int (PStr s) =
     (let t = str_strip s
      in if is_int_text t
         then (let (sg, ds) = split_sign t
               in if max_str_digits < length ds then None else Some (sg * int (digits_value ds)))
         else (case float_text_value t of
                 None \<Rightarrow> None
               | Some q \<Rightarrow> (case round_b64 q of Fin r \<Rightarrow> Some (trunc r) | _ \<Rightarrow> None)))"
| "to_int _ = None"

fun to_float :: "pyval \<Rightarrow> pyfloat option" where
  "to_float (PBool b) = Some (Fin (if b then 1 else 0))"
| "to_float (PInt n) = (case round_b64 (of_int n) of Fin r \<Rightarrow> Some (Fin r) | _ \<Rightarrow> None)"
| "to_float (PFloat f) = (case f of Fin q \<Rightarrow> Some f | _ \<Rightarrow> None)"
| "to_float (PStr s) =
     (case float_text_value (str_strip s) of
        None \<Rightarrow> None
      | Some q \<Rightarrow> (case round_b64 q of Fin r \<Rightarrow> Some (Fin r) | _ \<Rightarrow> None))"
| "to_float _ = None"

definition true_text :: "string list" where
  "true_text = [''1'', ''true'', ''on'', ''yes'']"

definition false_text :: "string list" where
  "false_text = [''0'', ''false'', ''off'', ''no'']"

fun to_bool :: "pyval \<Rightarrow> bool option" where
  "to_bool (PBool b) = Some b"
| "to_bool (PInt n) = (if n = 0 then Some False else if n = 1 then Some True else None)"
| "to_bool (PFloat f) = (if f = Fin 0 then Some False else if f = Fin 1 then Some True else None)"
| "to_bool (PStr s) =
     (let t = str_lower (str_strip s)
      in if t \<in> set true_text then Some True
         else if t \<in> set false_text then Some False else None)"
| "to_bool _ = None"

text \<open>\<open>str\<close>; of a float, bytes or a container it is a parameter.\<close>

fun py_str :: "(pyval \<Rightarrow> string) \<Rightarrow> pyval \<Rightarrow> string" where
  "py_str repr (PStr s) = s"
| "py_str repr (PInt i) = int_text i"
| "py_str repr (PBool b) = (if b then ''True'' else ''False'')"
| "py_str repr PNone = ''None''"
| "py_str repr v = repr v"

section \<open>The builtin \<open>int\<close>\<close>

text \<open>Digits in groups separated by single underscores, as \<open>int(str)\<close> accepts them.\<close>

definition int_literal :: "string \<Rightarrow> py_exc + int" where
  "int_literal s =
     (let (sg, r) = split_sign (str_strip s); gs = split_on (CHR ''_'') r; ds = concat gs
      in if list_all (\<lambda>g. g \<noteq> [] \<and> list_all is_digit g) gs \<and> length ds \<le> max_str_digits
         then Inr (sg * int (digits_value ds)) else Inl ValueError)"

fun py_int :: "pyval \<Rightarrow> py_exc + int" where
  "py_int (PBool b) = Inr (if b then 1 else 0)"
| "py_int (PInt n) = Inr n"
| "py_int (PFloat (Fin q)) = Inr (trunc q)"
| "py_int (PFloat NaN) = Inl ValueError"
| "py_int (PFloat _) = Inl OverflowError"
| "py_int (PStr s) = int_literal s"
| "py_int (PBytes b) = int_literal (map (\<lambda>x. char_of (unat x)) b)"
| "py_int _ = Inl TypeError"

section \<open>Lemmas\<close>

lemma is_digit_range: "is_digit c \<longleftrightarrow> 48 \<le> (of_char c :: nat) \<and> (of_char c :: nat) \<le> 57"
  by (simp add: is_digit_def flip: of_char_eq_iff [where 'a = nat]) arith

lemma of_char_digit: "d < 10 \<Longrightarrow> (of_char (char_of (48 + d)) :: nat) = 48 + d"
  by (simp add: of_char_of)

lemma is_digit_char_of [simp]: "d < 10 \<Longrightarrow> is_digit (char_of (48 + d :: nat))"
  by (simp add: is_digit_range of_char_digit)

lemma digit_value_char_of [simp]: "d < 10 \<Longrightarrow> digit_value (char_of (48 + d :: nat)) = d"
  by (simp add: digit_value_def of_char_digit)

lemma digits_value_snoc: "digits_value (ds @ [c]) = 10 * digits_value ds + digit_value c"
  by (simp add: digits_value_def)

lemma nat_text_digits: "list_all is_digit (nat_text n)"
  by (induction n rule: nat_text.induct) (subst nat_text.simps, auto)

lemma nat_text_nonempty [simp]: "nat_text n \<noteq> []"
  by (subst nat_text.simps) simp

lemma digits_value_nat_text [coding_simps]: "digits_value (nat_text n) = n"
proof (induction n rule: nat_text.induct)
  case (1 n)
  show ?case
  proof (cases "n < 10")
    case True
    then show ?thesis by (subst nat_text.simps) (simp add: digits_value_def)
  next
    case False
    with "1.IH" show ?thesis by (subst nat_text.simps) (simp add: digits_value_snoc)
  qed
qed

lemma digit_not_sign: "is_digit c \<Longrightarrow> c \<noteq> CHR ''+'' \<and> c \<noteq> CHR ''-''"
  by (auto simp: is_digit_def)

lemma split_sign_nat_text [simp]: "split_sign (nat_text n) = (1, nat_text n)"
proof (cases "nat_text n")
  case (Cons c r)
  then have "is_digit c" using nat_text_digits [of n] by simp
  then show ?thesis using Cons by (auto simp: split_sign_def dest: digit_not_sign)
qed simp

lemma split_sign_int_text:
  "split_sign (int_text n) = (if n < 0 then - 1 else 1, nat_text (nat \<bar>n\<bar>))"
  by (simp add: int_text_def) (simp add: split_sign_def)

lemma strip_padded:
  assumes "list_all is_space l" "list_all is_space r"
    and "s \<noteq> []" "\<not> is_space (hd s)" "\<not> is_space (last s)"
  shows "str_strip (l @ s @ r) = s"
proof -
  have "dropWhile is_space (l @ s @ r) = dropWhile is_space (s @ r)"
    using assms(1) by (subst dropWhile_append2) (auto simp: list_all_iff)
  also have "\<dots> = s @ r" using assms(3,4) by (cases s) auto
  finally have "str_strip (l @ s @ r) = rev (dropWhile is_space (rev r @ rev s))"
    by (simp add: str_strip_def)
  also have "dropWhile is_space (rev r @ rev s) = dropWhile is_space (rev s)"
    using assms(2) by (subst dropWhile_append2) (auto simp: list_all_iff)
  also have "\<dots> = rev s" using assms(3,5) by (cases s rule: rev_cases) auto
  finally show ?thesis by simp
qed

lemma strip_unpadded: "s \<noteq> [] \<Longrightarrow> \<not> is_space (hd s) \<Longrightarrow> \<not> is_space (last s) \<Longrightarrow> str_strip s = s"
  using strip_padded [of "[]" "[]" s] by simp

lemma digit_not_space: "is_digit c \<Longrightarrow> \<not> is_space c"
  by (auto simp: is_digit_range is_space_def char_in_def)

lemma int_text_ends: "int_text n \<noteq> []" "\<not> is_space (hd (int_text n))" "\<not> is_space (last (int_text n))"
proof -
  have d: "list_all is_digit (nat_text m)" for m by (rule nat_text_digits)
  have h: "\<not> is_space (hd (nat_text m))" "\<not> is_space (last (nat_text m))" for m
    using d [of m] by (auto simp: list_all_iff intro!: digit_not_space)
  show "int_text n \<noteq> []" by (simp add: int_text_def)
  show "\<not> is_space (hd (int_text n))"
    using h by (simp add: int_text_def) (simp add: is_space_def char_in_def)
  show "\<not> is_space (last (int_text n))" using h by (simp add: int_text_def)
qed

lemma is_int_text_int_text [simp]: "is_int_text (int_text n)"
  by (simp add: is_int_text_def split_sign_int_text nat_text_digits)

lemma trunc_bounds: "\<bar>of_int (trunc q)\<bar> \<le> \<bar>q\<bar> \<and> \<bar>q\<bar> < \<bar>of_int (trunc q)\<bar> + 1"
proof (cases "q < 0")
  case True
  have "0 \<le> \<lfloor>- q\<rfloor>" using True by simp
  then show ?thesis using True by (simp add: trunc_def) linarith
next
  case False
  then have "0 \<le> \<lfloor>q\<rfloor>" by simp
  then show ?thesis using False by (simp add: trunc_def) linarith
qed

lemma trunc_of_int [simp]: "trunc (of_int n) = n"
  by (simp add: trunc_def flip: of_int_minus)


section \<open>The alphabet of a number\<close>

definition number_alphabet :: "char set" where
  "number_alphabet = set ''0123456789+-.eE''"

lemma digit_in_alphabet: "is_digit c \<Longrightarrow> c \<in> number_alphabet"
  by (auto simp: is_digit_def number_alphabet_def)

lemma split_sign_alphabet:
  "split_sign t = (sg, r) \<Longrightarrow> set r \<subseteq> number_alphabet \<Longrightarrow> set t \<subseteq> number_alphabet"
  by (cases t) (auto simp: split_sign_def number_alphabet_def split: if_splits)

lemma int_text_alphabet: "is_int_text t \<Longrightarrow> set t \<subseteq> number_alphabet"
proof -
  assume a: "is_int_text t"
  obtain sg r where sr: "split_sign t = (sg, r)" by (cases "split_sign t")
  have "set r \<subseteq> number_alphabet"
    using a by (auto simp: is_int_text_def sr Let_def list_all_iff intro: digit_in_alphabet)
  with sr show ?thesis by (rule split_sign_alphabet)
qed

lemma takeWhile_alphabet: "set (takeWhile is_digit t) \<subseteq> number_alphabet"
  by (auto dest: set_takeWhileD intro: digit_in_alphabet)

lemma span_alphabet:
  "set (dropWhile is_digit t) \<subseteq> number_alphabet \<Longrightarrow> set t \<subseteq> number_alphabet"
  using takeWhile_alphabet [of t] by (metis Un_least set_append takeWhile_dropWhile_id)

lemma exponent_none:
  "\<not> set r2 \<subseteq> number_alphabet \<Longrightarrow>
   (case r2 of [] \<Rightarrow> x | c # r3 \<Rightarrow>
      if (c = CHR ''e'' \<or> c = CHR ''E'') \<and> is_int_text r3 then f r3 else None) = None"
  by (cases r2) (auto dest!: int_text_alphabet simp: number_alphabet_def)

lemma float_text_alphabet:
  assumes "float_text_value t = Some q"
  shows "set t \<subseteq> number_alphabet"
proof -
  obtain sg r where sr: "split_sign t = (sg, r)" by (cases "split_sign t")
  have "set (dropWhile is_digit r) \<subseteq> number_alphabet"
  proof (cases "dropWhile is_digit r")
    case (Cons c r1)
    show ?thesis
    proof (cases "c = CHR ''.''")
      case True
      have "set (dropWhile is_digit r1) \<subseteq> number_alphabet"
      proof (rule ccontr)
        assume no: "\<not> ?thesis"
        show False
          using assms True
          by (simp add: float_text_value_def sr Cons Let_def exponent_none [OF no] split: if_splits)
      qed
      then have "set r1 \<subseteq> number_alphabet" by (rule span_alphabet)
      then show ?thesis using True Cons by (simp add: number_alphabet_def)
    next
      case False
      then show ?thesis
        using assms exponent_none [of "c # r1"]
        by (auto simp add: float_text_value_def sr Cons Let_def split: if_splits)
    qed
  next
    case Nil
    show ?thesis unfolding Nil by simp
  qed
  then have "set r \<subseteq> number_alphabet" by (rule span_alphabet)
  with sr show ?thesis by (rule split_sign_alphabet)
qed

lemma lower_char_fix: "lower_char c = d \<Longrightarrow> (of_char d :: nat) < 97 \<Longrightarrow> c = d"
  by (auto simp: lower_char_def char_in_def of_char_of split: if_splits)

lemma lower_text_1: "str_lower t = [d] \<Longrightarrow> (of_char d :: nat) < 97 \<Longrightarrow> t = [d]"
  by (auto simp: str_lower_def map_eq_Cons_conv dest: lower_char_fix [OF refl])

lemma lower_alphabet: "c \<in> number_alphabet \<Longrightarrow> lower_char c \<in> set ''0123456789+-.e''"
proof -
  have "list_all (\<lambda>c. lower_char c \<in> set ''0123456789+-.e'') ''0123456789+-.eE''" by code_simp
  then show "c \<in> number_alphabet \<Longrightarrow> lower_char c \<in> set ''0123456789+-.e''"
    unfolding number_alphabet_def list_all_iff by (rule bspec)
qed

lemma word_not_number:
  assumes "str_lower t = w" "d \<in> set w" "d \<notin> set ''0123456789+-.e''"
  shows "\<not> set t \<subseteq> number_alphabet"
proof
  assume a: "set t \<subseteq> number_alphabet"
  obtain c where "c \<in> set t" "d = lower_char c" using assms(1,2) by (auto simp: str_lower_def)
  then show False using a assms(3) lower_alphabet [of c] by blast
qed

lemma to_int_alphabet: "to_int (PStr s) = Some n \<Longrightarrow> set (str_strip s) \<subseteq> number_alphabet"
  by (cases "is_int_text (str_strip s)")
    (auto simp: Let_def simp del: subset_code(1) split: option.splits
      dest: int_text_alphabet float_text_alphabet)

lemma to_float_alphabet: "to_float (PStr s) = Some f \<Longrightarrow> set (str_strip s) \<subseteq> number_alphabet"
  by (auto simp del: subset_code(1) split: option.splits dest: float_text_alphabet)

section \<open>Properties\<close>

text \<open>
  The text of any integer of at most 4300 digits, with any whitespace around it, is coerced
  back to that integer: \<open>to_int\<close> inverts \<open>str\<close>.
\<close>

theorem to_int_text_roundtrip:
  assumes "list_all is_space l" "list_all is_space r"
    and "length (nat_text (nat \<bar>n\<bar>)) \<le> max_str_digits"
  shows "to_int (PStr (l @ int_text n @ r)) = Some n"
proof -
  have "str_strip (l @ int_text n @ r) = int_text n"
    using assms(1,2) int_text_ends by (rule strip_padded)
  then show ?thesis
    using assms(3) by (auto simp: Let_def split_sign_int_text coding_simps)
qed

theorem to_int_text_roundtrip_witness: "to_int (PStr (''  '' @ int_text (- 42) @ [CHR 0x0A])) = Some (- 42)"
  by (rule to_int_text_roundtrip)
    (simp_all add: is_space_def char_in_def max_str_digits_def nat_text.simps)

text \<open>
  Text that either coercion accepts is written with digits, signs, a point and an exponent
  letter only; underscore separators and the words for infinity and NaN are refused, so no device
  string reaches a number by the laxer grammar of the builtins.
\<close>

theorem coerced_text_alphabet:
  assumes "to_int (PStr s) \<noteq> None \<or> to_float (PStr s) \<noteq> None"
  shows "set (str_strip s) \<subseteq> number_alphabet"
  using assms to_int_alphabet [of s] to_float_alphabet [of s] by blast

theorem coerced_text_alphabet_witness: "set (str_strip '' -42 '') \<subseteq> number_alphabet"
proof (rule coerced_text_alphabet)
  have "to_int (PStr '' -42 '') = Some (- 42)" by code_simp
  then show "to_int (PStr '' -42 '') \<noteq> None \<or> to_float (PStr '' -42 '') \<noteq> None" by simp
qed

text \<open>
  The two readings of one value never disagree: a value that is both a truth value and an
  integer is 1 when true and 0 when false, whatever its type and whatever its spelling.
\<close>

theorem to_bool_to_int_agree:
  assumes b: "to_bool v = Some b" and n: "to_int v = Some n"
  shows "n = (if b then 1 else 0)"
proof (cases v)
  case (PStr s)
  define t where "t = str_strip s"
  have alpha: "set t \<subseteq> number_alphabet"
    using n to_int_alphabet [of s n] unfolding PStr t_def by blast
  have l: "str_lower t \<in> set (if b then true_text else false_text)"
    using b PStr by (auto simp: t_def Let_def split: if_splits)
  have no: "str_lower t \<noteq> w" if "d \<in> set w" "d \<notin> set ''0123456789+-.e''" for w d
    using word_not_number [of t w d] that alpha by blast
  have "str_lower t = (if b then ''1'' else ''0'')"
    using l no [of "CHR ''t''" "''true''"] no [of "CHR ''n''" "''on''"] no [of "CHR ''y''" "''yes''"]
      no [of "CHR ''f''" "''false''"] no [of "CHR ''f''" "''off''"] no [of "CHR ''n''" "''no''"]
    by (auto simp: true_text_def false_text_def split: if_splits)
  then have "t = (if b then ''1'' else ''0'')" by (cases b) (simp_all add: lower_text_1)
  then show ?thesis
    using n PStr by (auto simp: t_def [symmetric] Let_def is_int_text_def split_sign_def
        is_digit_def max_str_digits_def digits_value_def digit_value_def split: if_splits)
qed (use b n in \<open>auto simp: trunc_def split: if_splits pyfloat.splits\<close>)

theorem to_bool_to_int_agree_witness: "(1::int) = (if True then 1 else 0)"
  by (rule to_bool_to_int_agree [of "PStr '' 1 ''"]) (code_simp, code_simp)

section \<open>Integers that a float holds exactly\<close>

lemma bit_len_bound: "n < 2 ^ m \<Longrightarrow> bit_len n \<le> m"
proof (induction m arbitrary: n)
  case 0
  then show ?case by (simp add: bit_len.simps)
next
  case (Suc m)
  have "n div 2 < 2 ^ m" using Suc.prems by auto
  then show ?case using Suc.IH [of "n div 2"] by (subst bit_len.simps) auto
qed

lemma floor_log2_int: "0 < n \<Longrightarrow> n < 2 ^ 53 \<Longrightarrow> floor_log2 (of_int n) \<le> 52"
proof -
  assume n: "0 < n" "n < 2 ^ 53"
  have "nat n < 2 ^ 53" using n by (simp add: nat_less_iff)
  then have "bit_len (nat n) \<le> 53" by (rule bit_len_bound)
  moreover have "bit_len (nat 1) = 1" by (simp add: bit_len.simps)
  ultimately show ?thesis by (simp add: floor_log2_def Let_def)
qed

lemma round_half_even_int: "round_half_even (of_int n) = n"
  by (simp add: round_half_even_def)

lemma round_b64_int:
  assumes n: "0 \<le> n" "n < 2 ^ 53"
  shows "round_b64 (of_int n) = Fin (of_int n)"
proof (cases "n = 0")
  case True
  then show ?thesis by (simp add: round_b64_def)
next
  case False
  define e where "e = max (floor_log2 (of_int n) - 52) (- 1074)"
  have e: "e \<le> 0" using floor_log2_int [of n] False n by (simp add: e_def)
  have "of_int n / pow2 e = (of_int (n * 2 ^ nat (- e)) :: rat)"
    using e by (cases "e = 0") (simp_all add: pow2_def)
  then have r: "of_int (round_half_even (of_int n / pow2 e)) * pow2 e = (of_int n :: rat)"
    using e by (cases "e = 0") (simp_all only: round_half_even_int, simp_all add: pow2_def)
  have "n < 2 ^ 1024" using n power_increasing [of 53 1024 "2::int"] by simp
  then have small: "\<not> (2 ^ 1024 :: rat) \<le> of_int n"
    by (metis not_le of_int_less_iff of_int_numeral of_int_power)
  have "round_b64 (of_int n) = (let r = of_int (round_half_even (of_int n / pow2 e)) * pow2 e
      in if 2 ^ 1024 \<le> r then PosInf else Fin r)"
    using False n(1) unfolding round_b64_def Let_def e_def by simp
  then show ?thesis unfolding r Let_def using small by (simp only: if_False)
qed

lemma round_b64_numeral: "(numeral k :: int) < 2 ^ 53 \<Longrightarrow> round_b64 (numeral k) = Fin (numeral k)"
  using round_b64_int [of "numeral k"] by simp

end
