(* ===== verification/Dicts.thy ===== *)
theory Dicts
  imports Prelude
begin

text \<open>
  Lookups into the untyped nested dictionaries devices send (\<open>utils/dicts.py\<close>): \<open>dig\<close> descends
  one key per level, \<open>dig_path\<close> takes the keys as a dotted path, \<open>first_of\<close> tries several keys
  of one level. All three tell an absent key from a key whose value is null.
\<close>

text \<open>\<open>c.get(key)\<close>, \<open>c.get(key, default)\<close> and \<open>a or b\<close>.\<close>

definition get :: "pydict \<Rightarrow> string \<Rightarrow> pyval" where
  "get c k = (case map_of c k of Some v \<Rightarrow> v | None \<Rightarrow> PNone)"

definition get_or :: "pydict \<Rightarrow> string \<Rightarrow> pyval \<Rightarrow> pyval" where
  "get_or c k d = (case map_of c k of Some v \<Rightarrow> v | None \<Rightarrow> d)"

definition or_else :: "pyval \<Rightarrow> pyval \<Rightarrow> pyval" where
  "or_else a b = (if truthy a then a else b)"

fun dig :: "pyval \<Rightarrow> string list \<Rightarrow> pyval \<Rightarrow> pyval" where
  "dig data [] dflt = data"
| "dig (PDict m) (k # ks) dflt =
     (case map_of m k of Some v \<Rightarrow> dig v ks dflt | None \<Rightarrow> dflt)"
| "dig _ (k # ks) dflt = dflt"

definition dig_path :: "pyval \<Rightarrow> string \<Rightarrow> pyval \<Rightarrow> pyval" where
  "dig_path data path dflt =
     (if path = [] then dflt else dig data (split_on (CHR ''.'') path) dflt)"

fun first_in :: "pydict \<Rightarrow> string list \<Rightarrow> pyval \<Rightarrow> pyval" where
  "first_in m [] dflt = dflt"
| "first_in m (k # ks) dflt =
     (case map_of m k of
        Some v \<Rightarrow> if v \<noteq> PNone \<and> \<not> py_eq v (PStr []) then v else first_in m ks dflt
      | None \<Rightarrow> first_in m ks dflt)"

fun first_of :: "pyval \<Rightarrow> string list \<Rightarrow> pyval \<Rightarrow> pyval" where
  "first_of (PDict m) ks dflt = first_in m ks dflt"
| "first_of _ ks dflt = dflt"

section \<open>What a path reaches\<close>

text \<open>The value at the end of a path, as a relation that knows nothing of defaults.\<close>

inductive reaches :: "pyval \<Rightarrow> string list \<Rightarrow> pyval \<Rightarrow> bool" where
  here: "reaches v [] v"
| down: "map_of m k = Some v \<Longrightarrow> reaches v ks w \<Longrightarrow> reaches (PDict m) (k # ks) w"

inductive_simps reaches_Nil [simp]: "reaches v [] w"
inductive_simps reaches_Cons: "reaches v (k # ks) w"

lemma dig_reaches: "reaches v ks w \<Longrightarrow> dig v ks d = w"
  by (induction rule: reaches.induct) simp_all

lemma dig_misses: "\<nexists>w. reaches v ks w \<Longrightarrow> dig v ks d = d"
  by (induction v ks d rule: dig.induct) (auto simp: reaches_Cons split: option.splits)

lemma first_in_content:
  "first_in m ks d = v \<Longrightarrow> v \<noteq> d \<Longrightarrow> v \<noteq> PNone \<and> v \<noteq> PStr []"
  by (induction ks) (auto split: option.splits if_splits)

section \<open>Properties\<close>

text \<open>
  A nested lookup returns the value its path reaches, an explicit null included, and the
  default exactly when the path reaches nothing.
\<close>

theorem dig_spec:
  "dig v ks d = w \<longleftrightarrow> reaches v ks w \<or> ((\<nexists>u. reaches v ks u) \<and> w = d)"
  using dig_reaches [of v ks _ d] dig_misses [of v ks d] by metis

text \<open>
  Looking a dotted path up is looking its keys up one by one, for every non-empty list of keys
  that contain no dot (other than the single empty key, whose path is the empty string).
\<close>

theorem dig_path_eq_dig:
  assumes "ks \<noteq> []" "ks \<noteq> [[]]" "\<forall>k \<in> set ks. CHR ''.'' \<notin> set k"
  shows "dig_path v (join_with ''.'' ks) d = dig v ks d"
proof -
  have "join_with ''.'' ks \<noteq> []"
    using assms(1,2) by (cases ks rule: join_with.cases [of "(''.'', ks)" for ks]; cases ks; cases "tl ks") auto
  then show ?thesis using assms by (simp add: dig_path_def split_join)
qed

theorem dig_path_eq_dig_witness:
  "dig_path (PDict [(''state'', PDict [(''boxState'', PNone)])])
     (join_with ''.'' [''state'', ''boxState'']) (PInt 7) = PNone"
  by (subst dig_path_eq_dig) simp_all

end
