(* ===== verification/Py_Codec.thy ===== *)
theory Py_Codec
  imports Prelude
begin

text \<open>
  The three text codings of binary data the frame layer goes through, as the Python standard
  library defines them: base64 (\<open>base64.b64encode\<close>, and \<open>base64.b64decode\<close> with its tolerant
  scanner), percent-encoding (\<open>urllib.parse.quote\<close> and \<open>unquote\<close>) and \<open>bytes.fromhex\<close>.
  The first two are interpreted as codings, and stacked.
\<close>

section \<open>Base64\<close>

definition b64_alphabet :: string where
  "b64_alphabet = ''ABCDEFGHIJKLMNOPQRSTUVWXYZabcdefghijklmnopqrstuvwxyz0123456789+/''"

definition b64_char :: "nat \<Rightarrow> char" where
  "b64_char n = b64_alphabet ! n"

definition b64_index :: "char \<Rightarrow> nat option" where
  "b64_index c = map_of (zip b64_alphabet [0..<64]) c"

fun b64_encode :: "bytes \<Rightarrow> string" where
  "b64_encode [] = []"
| "b64_encode [x] =
     [b64_char (unat x div 4), b64_char (unat x mod 4 * 16), CHR ''='', CHR ''='']"
| "b64_encode [x, y] =
     [b64_char (unat x div 4), b64_char (unat x mod 4 * 16 + unat y div 16),
      b64_char (unat y mod 16 * 4), CHR ''='']"
| "b64_encode (x # y # z # r) =
     b64_char (unat x div 4) # b64_char (unat x mod 4 * 16 + unat y div 16)
       # b64_char (unat y mod 16 * 4 + unat z div 64) # b64_char (unat z mod 64) # b64_encode r"

text \<open>
  The decoder's scanner: characters outside the alphabet are skipped, a padding sign counts from
  the third place of a quad on and ends the scan when the quad is full; the input must end at a
  quad boundary. The arguments are the place in the quad, the padding seen and the bits left over.
\<close>

fun b64_scan :: "nat \<Rightarrow> nat \<Rightarrow> nat \<Rightarrow> string \<Rightarrow> bytes option" where
  "b64_scan q p l [] = (if q = 0 then Some [] else None)"
| "b64_scan q p l (c # cs) =
     (if c = CHR ''='' then
        (if 2 \<le> q then (if 4 \<le> q + (p + 1) then Some [] else b64_scan q (p + 1) l cs)
         else b64_scan q p l cs)
      else (case b64_index c of
              None \<Rightarrow> b64_scan q p l cs
            | Some t \<Rightarrow>
                if q = 0 then b64_scan 1 0 t cs
                else if q = 1 then
                  map_option (Cons (word_of_nat (l * 4 + t div 16))) (b64_scan 2 0 (t mod 16) cs)
                else if q = 2 then
                  map_option (Cons (word_of_nat (l * 16 + t div 4))) (b64_scan 3 0 (t mod 4) cs)
                else map_option (Cons (word_of_nat (l * 64 + t))) (b64_scan 0 0 0 cs)))"

definition is_ascii :: "char \<Rightarrow> bool" where
  "is_ascii c \<longleftrightarrow> (of_char c :: nat) < 128"

definition b64_decode :: "string \<Rightarrow> bytes option" where
  "b64_decode s = (if list_all is_ascii s then b64_scan 0 0 0 s else None)"

lemma b64_alphabet_facts:
  "list_all (\<lambda>n. b64_index (b64_char n) = Some n \<and> b64_char n \<noteq> CHR ''=''
     \<and> is_ascii (b64_char n) \<and> \<not> is_space (b64_char n)) [0..<64]"
  by code_simp

lemma b64_char_facts:
  assumes "n < 64"
  shows "b64_index (b64_char n) = Some n" "b64_char n \<noteq> CHR ''=''"
    "is_ascii (b64_char n)" "\<not> is_space (b64_char n)"
  using b64_alphabet_facts assms by (auto simp: list_all_iff)

lemma byte_lt [simp]: "unat (x :: 8 word) < 256"
  by (rule order_less_le_trans [OF unsigned_less]) simp

lemma div_lt [simp]: "unat (x :: 8 word) div 4 < 64" "unat x div 16 < 16" "unat x div 64 < 4"
  by (simp_all add: less_mult_imp_div_less)

lemma mixed_lt:
  assumes "b < 16" "c < 4"
  shows "(a::nat) mod 4 * 16 + b < 64" "a mod 16 * 4 + c < 64" "a mod 4 * 16 < 64" "a mod 16 * 4 < 64"
proof -
  have "a mod 4 < 4" "a mod 16 < 16" by simp_all
  with assms show "a mod 4 * 16 + b < 64" "a mod 16 * 4 + c < 64" "a mod 4 * 16 < 64" "a mod 16 * 4 < 64"
    by linarith+
qed

lemma sextets_lt [simp]:
  "unat (x :: 8 word) mod 4 * 16 + unat (y :: 8 word) div 16 < 64" "unat x mod 4 * 16 < 64"
  "unat y mod 16 * 4 < 64" "unat y mod 16 * 4 + unat (z :: 8 word) div 64 < 64" "unat z mod 64 < 64"
  by (rule mixed_lt [of "unat y div 16" 0] mixed_lt [of 0 "unat z div 64"]; simp)+ simp

lemma regroup:
  "unat (x :: 8 word) div 16 div 16 = 0" "unat x div 16 mod 16 = unat x div 16"
  "unat x div 64 div 4 = 0" "unat x div 64 mod 4 = unat x div 64"
  by simp_all

lemma b64_scan_encode: "b64_scan 0 p l (b64_encode bs) = Some bs"
proof (induction bs arbitrary: p l rule: b64_encode.induct)
  case (2 x)
  show ?case by (simp add: b64_char_facts del: of_nat_add of_nat_mult)
next
  case (3 x y)
  show ?case by (simp add: b64_char_facts regroup del: of_nat_add of_nat_mult)
next
  case (4 x y z r)
  then show ?case by (simp add: b64_char_facts regroup del: of_nat_add of_nat_mult)
qed simp

lemma b64_encode_chars: "c \<in> set (b64_encode bs) \<Longrightarrow> is_ascii c \<and> \<not> is_space c"
  by (induction bs rule: b64_encode.induct)
    (auto simp: b64_char_facts, auto simp: is_ascii_def is_space_def char_in_def)

interpretation b64: coding "\<lambda>_. True" b64_encode b64_decode
  by unfold_locales (simp add: b64_decode_def b64_scan_encode list_all_iff b64_encode_chars)

section \<open>Percent-encoding\<close>

definition hex_value :: "char \<Rightarrow> nat option" where
  "hex_value c =
     (let n = of_char c :: nat
      in if 48 \<le> n \<and> n \<le> 57 then Some (n - 48)
         else if 65 \<le> n \<and> n \<le> 70 then Some (n - 55)
         else if 97 \<le> n \<and> n \<le> 102 then Some (n - 87) else None)"

definition hex_char :: "nat \<Rightarrow> char" where
  "hex_char n = ''0123456789ABCDEF'' ! n"

definition quote_safe :: "char \<Rightarrow> bool" where
  "quote_safe c \<longleftrightarrow> char_in 48 57 c \<or> char_in 65 90 c \<or> char_in 97 122 c \<or> c \<in> set ''_.-~/''"

definition percent :: "nat \<Rightarrow> string" where
  "percent n = [CHR ''%'', hex_char (n div 16), hex_char (n mod 16)]"

text \<open>A character above 127 is escaped as the two bytes of its UTF-8 form.\<close>

definition quote_char :: "char \<Rightarrow> string" where
  "quote_char c =
     (let n = of_char c :: nat
      in if quote_safe c then [c]
         else if n < 128 then percent n
         else percent (192 + n div 64) @ percent (128 + n mod 64))"

definition url_quote :: "string \<Rightarrow> string" where
  "url_quote s = concat (map quote_char s)"

text \<open>
  Unquoting leaves a percent sign that starts no escape alone. An escape above 7F would start a
  UTF-8 sequence; its result cannot be base64 or hexadecimal text and is None here.
\<close>

fun url_unquote :: "string \<Rightarrow> string option" where
  "url_unquote (c # a # b # r) =
     (if c = CHR ''%'' then
        (case (hex_value a, hex_value b) of
           (Some x, Some y) \<Rightarrow>
             (if 16 * x + y < 128
              then map_option (Cons (char_of (16 * x + y))) (url_unquote r) else None)
         | _ \<Rightarrow> map_option (Cons c) (url_unquote (a # b # r)))
      else map_option (Cons c) (url_unquote (a # b # r)))"
| "url_unquote s = Some s"

lemma hex_char_facts: "n < 16 \<Longrightarrow> hex_value (hex_char n) = Some n"
proof -
  have "list_all (\<lambda>n. hex_value (hex_char n) = Some n) [0..<16]" by code_simp
  then show "n < 16 \<Longrightarrow> hex_value (hex_char n) = Some n" by (auto simp: list_all_iff)
qed

lemma unquote_plain: "c \<noteq> CHR ''%'' \<Longrightarrow> url_unquote (c # s) = map_option (Cons c) (url_unquote s)"
  by (cases s; cases "tl s") auto

lemma unquote_percent:
  "n < 128 \<Longrightarrow> url_unquote (percent n @ s) = map_option (Cons (char_of n)) (url_unquote s)"
  by (simp add: percent_def hex_char_facts mult.commute)

lemma unquote_quote: "\<forall>c \<in> set s. is_ascii c \<Longrightarrow> url_unquote (url_quote s) = Some s"
proof (induction s)
  case (Cons c s)
  have "quote_safe (CHR ''%'') = False" by code_simp
  then have "quote_safe c \<Longrightarrow> c \<noteq> CHR ''%''" by auto
  then show ?case
    using Cons by (auto simp: url_quote_def quote_char_def Let_def is_ascii_def
        unquote_plain unquote_percent)
qed (simp add: url_quote_def)

interpretation percent_coding: coding "\<lambda>s. \<forall>c \<in> set s. is_ascii c" url_quote url_unquote
  by unfold_locales (rule unquote_quote)

interpretation wire: stacked_coding "\<lambda>_. True" b64_encode b64_decode
  "\<lambda>s. \<forall>c \<in> set s. is_ascii c" url_quote url_unquote
  by unfold_locales (simp add: b64_encode_chars)

section \<open>Hexadecimal text\<close>

text \<open>\<open>bytes.fromhex\<close>: pairs of digits, with ASCII whitespace allowed between the pairs.\<close>

fun from_hex :: "string \<Rightarrow> bytes option" where
  "from_hex [] = Some []"
| "from_hex (c # r) =
     (if char_in 9 13 c \<or> char_in 32 32 c then from_hex r
      else (case r of
              d # r' \<Rightarrow>
                (case (hex_value c, hex_value d) of
                   (Some x, Some y) \<Rightarrow> map_option (Cons (word_of_nat (16 * x + y))) (from_hex r')
                 | _ \<Rightarrow> None)
            | [] \<Rightarrow> None))"

end
