(* ===== verification/Framing.thy ===== *)
theory Framing
  imports Py_Codec Coerce
begin

text \<open>
  The Bluetooth frame layer (\<open>devices/ble/framing.py\<close>): decoding one relayed blob into bytes,
  splitting a frame into command and payload, walking the frames of a \<open>ble_response\<close>, and
  building an outbound frame. Also the big-endian integers the payload layouts use.
\<close>

section \<open>Constants\<close>

definition ble_frame_header :: bytes where
  "ble_frame_header = [0xFA, 0xFC, 0xFD]"

definition ble_frame_trailer :: byte where
  "ble_frame_trailer = 0xFB"

definition ble_frame_header_len :: nat where
  "ble_frame_header_len = 8"

definition ble_type_request :: byte where
  "ble_type_request = 1"

definition cmd_get_state :: int where "cmd_get_state = 210"

definition cmd_get_config :: int where "cmd_get_config = 211"

definition cmd_set_mode :: int where "cmd_set_mode = 220"

definition cmd_set_config :: int where "cmd_set_config = 221"

definition cmd_reset_filter :: int where "cmd_reset_filter = 222"

definition cmd_device_status :: int where "cmd_device_status = 230"

definition ble_sendable :: "int list" where
  "ble_sendable = [cmd_set_mode, cmd_set_config, cmd_reset_filter]"

definition fountain_modes :: "int list" where
  "fountain_modes = [1, 2]"

lemmas cmd_defs [ble_defs] =
  cmd_get_state_def cmd_get_config_def cmd_set_mode_def cmd_set_config_def cmd_reset_filter_def
  cmd_device_status_def ble_sendable_def

section \<open>Inbound\<close>

text \<open>
  \<open>_ble_decode_data\<close>: bytes as they are; text as percent-encoded base64, or failing that as
  hexadecimal; anything else is no frame.
\<close>

fun ble_decode_data :: "pyval \<Rightarrow> bytes option" where
  "ble_decode_data (PBytes b) = Some b"
| "ble_decode_data (PStr s) =
     (case url_unquote s of
        None \<Rightarrow> None
      | Some u \<Rightarrow>
          (let t = str_strip u
           in case b64_decode t of Some b \<Rightarrow> Some b | None \<Rightarrow> from_hex t))"
| "ble_decode_data _ = None"

text \<open>\<open>_ble_unframe\<close>: the command and the DATA bytes, no command for a blob that has no header.\<close>

definition ble_unframe :: "bytes \<Rightarrow> int option \<times> bytes" where
  "ble_unframe raw =
     (if ble_frame_header_len + 1 \<le> length raw \<and> take 3 raw = ble_frame_header
      then (Some (uint (raw ! 3)), butlast (drop ble_frame_header_len raw))
      else (None, raw))"

definition ble_frame_of_item :: "pyval \<Rightarrow> (pyval \<times> bytes) option" where
  "ble_frame_of_item item =
     (case item of
        PDict d \<Rightarrow>
          (case map_of d ''data'' of
             None \<Rightarrow> None
           | Some blob \<Rightarrow>
               (case ble_decode_data blob of
                  None \<Rightarrow> None
                | Some raw \<Rightarrow>
                    (case ble_unframe raw of
                       (Some c, data) \<Rightarrow> Some (PInt c, data)
                     | (None, data) \<Rightarrow>
                         Some (case map_of d ''cmd'' of Some c \<Rightarrow> c | None \<Rightarrow> PNone, data))))
      | _ \<Rightarrow> None)"

definition ble_loose_items :: "pydict \<Rightarrow> pyval list" where
  "ble_loose_items m =
     List.map_filter
       (\<lambda>alt. case map_of m alt of
                None \<Rightarrow> None
              | Some v \<Rightarrow>
                  if v = PNone then None else Some (PDict [(''cmd'', PNone), (''data'', v)]))
       [''data'', ''value'', ''frame'']"

text \<open>\<open>_iter_ble_frames\<close>: every decodable frame of a response, in order.\<close>

fun iter_ble_frames :: "pyval \<Rightarrow> (pyval \<times> bytes) list" where
  "iter_ble_frames (PDict m) =
     (let items = (case map_of m ''payload'' of Some (PList xs) \<Rightarrow> xs | _ \<Rightarrow> [])
      in List.map_filter ble_frame_of_item (items @ ble_loose_items m))"
| "iter_ble_frames _ = []"

section \<open>Outbound\<close>

text \<open>The bytes of one frame, the 16-bit length little-endian, and its encoded form.\<close>

definition ble_frame_bytes :: "int \<Rightarrow> int \<Rightarrow> bytes \<Rightarrow> bytes" where
  "ble_frame_bytes cmd seq payload =
     ble_frame_header @ [word_of_int cmd, ble_type_request, word_of_int seq,
       word_of_nat (length payload), word_of_nat (length payload div 256)]
     @ payload @ [ble_frame_trailer]"

definition build_ble_frame :: "int \<Rightarrow> int \<Rightarrow> bytes \<Rightarrow> string" where
  "build_ble_frame cmd seq payload = url_quote (b64_encode (ble_frame_bytes cmd seq payload))"

definition ble_command_frame :: "int \<Rightarrow> int \<Rightarrow> bytes \<Rightarrow> string option" where
  "ble_command_frame cmd seq payload =
     (if cmd \<notin> set ble_sendable then None else Some (build_ble_frame cmd seq payload))"

section \<open>Big-endian integers and payload fields\<close>

text \<open>\<open>int.from_bytes(b, "big")\<close> and \<open>n.to_bytes(2, "big")\<close>.\<close>

definition be_int :: "bytes \<Rightarrow> int" where
  "be_int b = foldl (\<lambda>a x. 256 * a + uint x) 0 b"

definition to_bytes2 :: "int \<Rightarrow> py_exc + bytes" where
  "to_bytes2 n =
     (if 0 \<le> n \<and> n < 65536 then Inr [word_of_int (n div 256), word_of_int n] else Inl OverflowError)"

definition byte_slice :: "nat \<Rightarrow> nat \<Rightarrow> 'a list \<Rightarrow> 'a list" where
  "byte_slice i j xs = take (j - i) (drop i xs)"

text \<open>One byte \<open>int(v) & 0xFF\<close> and one short \<open>int(v).to_bytes(2, "big")\<close> of a payload.\<close>

definition field_byte :: "pyval \<Rightarrow> py_exc + bytes" where
  "field_byte v = ebind (py_int v) (\<lambda>n. Inr [word_of_int n])"

definition field_short :: "pyval \<Rightarrow> py_exc + bytes" where
  "field_short v = ebind (py_int v) to_bytes2"

text \<open>The fields of a payload in order; the first one that raises decides the outcome.\<close>

fun fields_concat :: "(py_exc + bytes) list \<Rightarrow> py_exc + bytes" where
  "fields_concat [] = Inr []"
| "fields_concat (f # fs) = ebind f (\<lambda>b. ebind (fields_concat fs) (\<lambda>bs. Inr (b @ bs)))"

section \<open>Lemmas\<close>

lemma wire_strip: "str_strip (b64_encode bs) = b64_encode bs"
proof (cases "b64_encode bs = []")
  case False
  then show ?thesis
    using b64_encode_chars [of "hd (b64_encode bs)" bs] b64_encode_chars [of "last (b64_encode bs)" bs]
    by (intro strip_unpadded) auto
qed (simp add: str_strip_def)

lemma ble_decode_wire: "ble_decode_data (PStr (url_quote (b64_encode bs))) = Some bs"
proof -
  have "url_unquote (url_quote (b64_encode bs)) = Some (b64_encode bs)"
    by (rule percent_coding.dec_enc) (simp add: b64_encode_chars)
  then show ?thesis by (simp add: wire_strip b64.dec_enc)
qed

lemma ble_unframe_bytes:
  "ble_unframe (ble_frame_bytes cmd seq payload) = (Some (cmd mod 256), payload)"
  by (simp add: ble_unframe_def ble_frame_bytes_def ble_frame_header_def ble_frame_header_len_def
      uint_word_of_int)

lemma be_int2: "be_int [a, b] = 256 * uint a + uint b"
  by (simp add: be_int_def)

lemma uint_byte: "uint (x :: 8 word) < 256" "0 \<le> uint (x :: 8 word)"
  using uint_lt2p [of x] by simp_all

lemma to_bytes2_be_int [coding_simps]: "to_bytes2 (be_int [a, b]) = Inr [a, b]"
proof -
  have "(256 * uint a + uint b) div 256 = uint a"
    using uint_byte [of b] by simp
  moreover have "word_of_int (256 * uint a + uint b) = (b :: 8 word)"
    using uint_byte [of b] by (simp add: word_uint_eq_iff uint_word_of_int del: of_int_add of_int_mult)
  moreover have "256 * uint a + uint b < 65536" "0 \<le> 256 * uint a + uint b"
    using uint_byte [of a] uint_byte [of b] by linarith+
  ultimately show ?thesis by (simp add: to_bytes2_def be_int2)
qed

lemma be_int_to_bytes2 [coding_simps]: "to_bytes2 n = Inr b \<Longrightarrow> length b = 2 \<and> be_int b = n"
  by (auto simp: to_bytes2_def be_int2 uint_word_of_int split: if_splits)

lemma fields_concat_Inr:
  "fields_concat (f # fs) = Inr b \<longleftrightarrow> (\<exists>x y. f = Inr x \<and> fields_concat fs = Inr y \<and> b = x @ y)"
  by (auto simp: ebind_Inr_iff)

section \<open>Properties\<close>

text \<open>
  C16: what the accessory frame layer sends, it reads back: decoding and unframing an outbound
  frame yields the command (modulo one byte) and exactly the payload, for every command, sequence
  number and payload; and the frame announces the payload's length in its two length bytes.
\<close>

theorem ble_frame_roundtrip:
  "map_option ble_unframe (ble_decode_data (PStr (build_ble_frame cmd seq payload)))
     = Some (Some (cmd mod 256), payload)
   \<and> (\<forall>raw. ble_decode_data (PStr (build_ble_frame cmd seq payload)) = Some raw \<longrightarrow>
        uint (raw ! 6) + 256 * uint (raw ! 7) = int (length payload) mod 65536)"
proof -
  have len: "uint (word_of_nat n :: 8 word) + 256 * uint (word_of_nat (n div 256) :: 8 word)
      = int n mod 65536" for n
  proof -
    have "(65536::int) = 256 * 256" by simp
    then have "int n mod 65536 = 256 * (int n div 256 mod 256) + int n mod 256"
      by (simp only: zmod_zmult2_eq)
    then show ?thesis by (simp add: uint_nat [symmetric] unsigned_of_nat take_bit_eq_mod zdiv_int zmod_int)
  qed
  show ?thesis
    by (simp add: build_ble_frame_def ble_decode_wire ble_unframe_bytes del: ble_decode_data.simps)
      (simp add: ble_frame_bytes_def ble_frame_header_def len)
qed

theorem ble_frame_roundtrip_witness:
  "uint (ble_frame_bytes 221 7 (replicate 300 0) ! 6) + 256 * uint (ble_frame_bytes 221 7 (replicate 300 0) ! 7) = 300"
  using ble_frame_roundtrip [of 221 7 "replicate 300 0"] ble_decode_wire [of "ble_frame_bytes 221 7 (replicate 300 0)"]
  by (simp add: build_ble_frame_def del: ble_decode_data.simps)

end
