(* ===== verification/Ble_Device.thy ===== *)
theory Ble_Device
  imports Coerce Dicts
begin

text \<open>
  What a Bluetooth accessory is (\<open>devices/ble/registry.py\<close>, class \<open>BLEDevice\<close>): its identity,
  its pairing and its last reading, with the canonical form of a MAC address, the scan-type table
  and the entry a parent is told to scan for.

  \<open>last_seen\<close> is an epoch; \<open>ble_state\<close>, \<open>ble_config\<close> and \<open>ble_settings\<close> are the dictionaries of
  the source, whose sections hold whatever the frames carried.
\<close>

record ble_device =
  ble_type :: string
  ble_petkit_id :: int
  ble_serial_number :: string
  ble_mac :: string
  ble_secret :: string
  ble_link_with :: int
  ble_interval :: int
  ble_scan_type :: int
  ble_last_seen :: rat
  ble_state :: "(string \<times> pydict) list"
  ble_config :: pydict
  ble_settings :: pydict

definition ble_type_map :: "(string \<times> int) list" where
  "ble_type_map = [(''w5'', 14), (''w4'', 14), (''ctw3'', 24), (''ctw2'', 24), (''k3'', 0)]"

definition ble_type_confirmed :: "string list" where
  "ble_type_confirmed = [''w5'', ''ctw3'']"

definition cloud_ble_types :: "(int \<times> string) list" where
  "cloud_ble_types = [(14, ''w5''), (24, ''ctw3'')]"

definition hex_upper :: "char \<Rightarrow> bool" where
  "hex_upper c \<longleftrightarrow> c \<in> set ''0123456789ABCDEF''"

text \<open>\<open>normalize_mac\<close>: twelve upper-case hexadecimal digits, or the empty string.\<close>

definition normalize_mac :: "string \<Rightarrow> string" where
  "normalize_mac m =
     (let cleaned = str_upper (filter is_alnum m)
      in if length cleaned \<noteq> 12 \<or> \<not> list_all hex_upper cleaned then [] else cleaned)"

text \<open>\<open>__post_init__\<close>: a MAC that parses is stored in canonical form, another one as typed.\<close>

definition ble_post_init :: "ble_device \<Rightarrow> ble_device" where
  "ble_post_init d =
     (let canonical = normalize_mac (ble_mac d)
      in if canonical \<noteq> [] then d\<lparr>ble_mac := canonical\<rparr> else d)"

definition wire_mac :: "ble_device \<Rightarrow> string" where
  "wire_mac d = str_lower (ble_mac d)"

definition ble_type_int :: "ble_device \<Rightarrow> int" where
  "ble_type_int d =
     (if ble_scan_type d \<noteq> 0 then ble_scan_type d
      else (case map_of ble_type_map (ble_type d) of Some n \<Rightarrow> n | None \<Rightarrow> 0))"

definition scan_type_is_guessed :: "ble_device \<Rightarrow> bool" where
  "scan_type_is_guessed d \<longleftrightarrow>
     ble_scan_type d = 0 \<and> ble_type d \<notin> set ble_type_confirmed \<and> ble_type d \<noteq> ''k3''"

definition to_ble_list_entry :: "ble_device \<Rightarrow> pydict" where
  "to_ble_list_entry d =
     [(''id'', PInt (ble_petkit_id d)), (''secret'', PStr (ble_secret d)),
      (''type'', PInt (ble_type_int d)), (''mac'', PStr (wire_mac d)),
      (''interval'', PInt (ble_interval d))]"

section \<open>Lemmas\<close>

lemma hex_upper_facts: "hex_upper c \<Longrightarrow> is_alnum c \<and> upper_char c = c \<and> upper_char (lower_char c) = c \<and> is_alnum (lower_char c)"
proof -
  have "list_all (\<lambda>c. is_alnum c \<and> upper_char c = c \<and> upper_char (lower_char c) = c \<and> is_alnum (lower_char c))
     ''0123456789ABCDEF''" by code_simp
  then show "hex_upper c \<Longrightarrow> is_alnum c \<and> upper_char c = c \<and> upper_char (lower_char c) = c \<and> is_alnum (lower_char c)"
    unfolding hex_upper_def list_all_iff by (rule bspec)
qed

definition canonical_mac :: "string \<Rightarrow> bool" where
  "canonical_mac m \<longleftrightarrow> length m = 12 \<and> list_all hex_upper m"

lemma normalize_mac_canonical: "normalize_mac m \<noteq> [] \<Longrightarrow> canonical_mac (normalize_mac m)"
  by (auto simp: normalize_mac_def canonical_mac_def Let_def split: if_splits)

lemma canonical_filter: "list_all hex_upper m \<Longrightarrow> filter is_alnum m = m"
  by (induction m) (auto simp: hex_upper_facts)

lemma canonical_lower_filter: "list_all hex_upper m \<Longrightarrow> filter is_alnum (str_lower m) = str_lower m"
  by (induction m) (auto simp: hex_upper_facts str_lower_def)

lemma canonical_upper: "list_all hex_upper m \<Longrightarrow> str_upper m = m \<and> str_upper (str_lower m) = m"
  by (induction m) (auto simp: hex_upper_facts str_upper_def str_lower_def)

lemma normalize_canonical: "canonical_mac m \<Longrightarrow> normalize_mac m = m"
  by (simp add: normalize_mac_def canonical_mac_def canonical_filter canonical_upper)

lemma normalize_wire: "canonical_mac m \<Longrightarrow> normalize_mac (str_lower m) = m"
  by (simp add: normalize_mac_def canonical_mac_def canonical_lower_filter canonical_upper)

lemma normalize_empty [simp]: "normalize_mac [] = []"
  by (simp add: normalize_mac_def str_upper_def)

lemma normalize_mac_cases:
  obtains "normalize_mac m = []" | "canonical_mac (normalize_mac m)"
  using normalize_mac_canonical by blast

lemma normalize_idem: "normalize_mac (normalize_mac m) = normalize_mac m"
  by (cases rule: normalize_mac_cases [of m]) (simp_all add: normalize_canonical)

text \<open>Separators do not matter: a MAC is the same with any non-alphanumeric characters added.\<close>

lemma normalize_separators: "filter is_alnum m = filter is_alnum m' \<Longrightarrow> normalize_mac m = normalize_mac m'"
  by (simp add: normalize_mac_def)

interpretation mac_wire: coding canonical_mac str_lower
  "\<lambda>w. if normalize_mac w = [] then None else Some (normalize_mac w)"
  by unfold_locales (auto simp: normalize_wire, auto simp: canonical_mac_def)

section \<open>Properties\<close>

text \<open>
  The MAC a stored accessory puts on the wire comes back to the stored one: when a MAC parses,
  construction stores its canonical form, normalising again changes nothing, and normalising the
  lower-case wire form gives the stored form, so a relayed frame always finds its accessory.
\<close>

theorem stored_mac_roundtrip:
  assumes "normalize_mac (ble_mac d) \<noteq> []"
  shows "canonical_mac (ble_mac (ble_post_init d))
    \<and> normalize_mac (ble_mac (ble_post_init d)) = ble_mac (ble_post_init d)
    \<and> normalize_mac (wire_mac (ble_post_init d)) = ble_mac (ble_post_init d)"
  using normalize_mac_canonical [OF assms] assms
  by (simp add: ble_post_init_def wire_mac_def normalize_idem normalize_wire)

definition sample_ble :: ble_device where
  "sample_ble = \<lparr>ble_type = ''ctw3'', ble_petkit_id = 77, ble_serial_number = '''',
     ble_mac = ''aa:bb-CC:dd:ee:01'', ble_secret = ''s'', ble_link_with = 5, ble_interval = 240,
     ble_scan_type = 0, ble_last_seen = 0, ble_state = [], ble_config = [], ble_settings = []\<rparr>"

theorem stored_mac_roundtrip_witness:
  "normalize_mac (wire_mac (ble_post_init sample_ble)) = ble_mac (ble_post_init sample_ble)
   \<and> ble_mac (ble_post_init sample_ble) = ''AABBCCDDEE01''"
proof -
  have "normalize_mac (ble_mac sample_ble) \<noteq> []" by code_simp
  from stored_mac_roundtrip [OF this]
  have "normalize_mac (wire_mac (ble_post_init sample_ble)) = ble_mac (ble_post_init sample_ble)"
    by blast
  moreover have "ble_mac (ble_post_init sample_ble) = ''AABBCCDDEE01''" by code_simp
  ultimately show ?thesis by blast
qed

end
