(* ===== verification/Ctw3.thy ===== *)
theory Ctw3
  imports Framing Ble_Device
begin

text \<open>
  The DATA block of the EverSweet Max Cordless (\<open>devices/ble/ctw3.py\<close>) in both directions: the
  status and settings decoders, the response parser, the two payload builders and the command one
  entity write becomes. A decoded block is a pair of dictionaries, states and consumables.
\<close>

section \<open>Layout tables\<close>

definition ctw3_min_status_len :: nat where "ctw3_min_status_len = 26"

definition ctw3_byte_fields :: "(string \<times> nat) list" where
  "ctw3_byte_fields =
     [(''powerStatus'', 0), (''suspendStatus'', 1), (''mode'', 2), (''electricStatus'', 3),
      (''noDisturbingSwitch'', 4), (''breakdownWarning'', 5), (''lackWarning'', 6),
      (''lowBattery'', 7), (''filterWarning'', 8), (''filterPercent'', 13), (''runStatus'', 14),
      (''detectStatus'', 19), (''batteryPercent'', 24), (''moduleStatus'', 25)]"

definition ctw3_int_fields :: "(string \<times> nat \<times> nat) list" where
  "ctw3_int_fields =
     [(''waterPumpRunTime'', 9, 4), (''todayPumpRunTime'', 15, 4),
      (''supplyVoltage'', 20, 2), (''batteryVoltage'', 22, 2)]"

definition ctw3_config_offset :: nat where "ctw3_config_offset = 30"

definition ctw3_config_len :: nat where "ctw3_config_len = 12"

text \<open>One field each: the byte at an offset, and a big-endian number of a given width.\<close>

definition byte_at :: "bytes \<Rightarrow> nat \<Rightarrow> pyval" where
  "byte_at d i = PInt (uint (d ! i))"

definition int_at :: "bytes \<Rightarrow> nat \<Rightarrow> nat \<Rightarrow> pyval" where
  "int_at d i w = PInt (be_int (byte_slice i (i + w) d))"

section \<open>Decoding\<close>

definition decode_ctw3_config :: "bytes \<Rightarrow> pydict" where
  "decode_ctw3_config tail =
     (if length tail < ctw3_config_len then []
      else [(''smartWorkingTime'', byte_at tail 0), (''smartSleepTime'', byte_at tail 1),
            (''energyInterval'', int_at tail 2 2), (''sleepTime'', int_at tail 4 2),
            (''lightSwitch'', byte_at tail 6), (''brightness'', byte_at tail 7),
            (''noDisturbingSwitch'', byte_at tail 8), (''childLock'', byte_at tail 9),
            (''smartInductiveSwitch'', byte_at tail 10),
            (''batteryInductiveSwitch'', byte_at tail 11)])"

text \<open>A mode that is no mode of a fountain is dropped, so the caller's merge keeps the last one.\<close>

definition latch_mode :: "pydict \<Rightarrow> pydict" where
  "latch_mode states =
     (case map_of states ''mode'' of
        Some (PInt m) \<Rightarrow> if m \<in> set fountain_modes then states else AList.delete ''mode'' states
      | _ \<Rightarrow> AList.delete ''mode'' states)"

definition decode_ctw3_status :: "bytes \<Rightarrow> pydict \<times> pydict" where
  "decode_ctw3_status data =
     (if length data < ctw3_min_status_len then ([], [])
      else
        (let states0 = map (\<lambda>(name, off). (name, byte_at data off)) ctw3_byte_fields
               @ map (\<lambda>(name, off, w). (name, int_at data off w)) ctw3_int_fields;
             states1 = latch_mode states0;
             consumables = [(''filterPercent'', byte_at data 13)];
             states2 = AList.delete ''filterPercent'' states1;
             states3 = (if ctw3_config_offset + ctw3_config_len \<le> length data
                        then dict_merge states2 (decode_ctw3_config
                          (byte_slice ctw3_config_offset (ctw3_config_offset + ctw3_config_len) data))
                        else states2)
         in (states3, consumables)))"

text \<open>Only the sections that hold something are reported.\<close>

definition report_sections :: "pydict \<times> pydict \<Rightarrow> (string \<times> pydict) list" where
  "report_sections r =
     filter (\<lambda>kv. snd kv \<noteq> []) [(''states'', fst r), (''consumables'', snd r)]"

definition is_cmd :: "pyval \<Rightarrow> int \<Rightarrow> bool" where
  "is_cmd c n \<longleftrightarrow> py_eq c (PInt n)"

definition ctw3_apply_frame :: "pyval \<times> bytes \<Rightarrow> pydict \<times> pydict \<Rightarrow> pydict \<times> pydict" where
  "ctw3_apply_frame f r =
     (case f of (cmd, data) \<Rightarrow>
        if data = [] then r
        else if is_cmd cmd cmd_device_status \<or> is_cmd cmd cmd_get_state
          then (let dec = decode_ctw3_status data
                in (dict_merge (fst r) (fst dec), dict_merge (snd r) (snd dec)))
        else if is_cmd cmd cmd_get_config
          then (dict_merge (fst r) (decode_ctw3_config data), snd r)
        else r)"

definition parse_ctw3_ble_response :: "pyval \<Rightarrow> (string \<times> pydict) list" where
  "parse_ctw3_ble_response content =
     report_sections (fold ctw3_apply_frame (iter_ble_frames content) ([], []))"

section \<open>Building\<close>

text \<open>\<open>v & 0xFF\<close>, which only integers support.\<close>

fun and_ff :: "pyval \<Rightarrow> py_exc + bytes" where
  "and_ff (PInt n) = Inr [word_of_int n]"
| "and_ff (PBool b) = Inr [if b then 1 else 0]"
| "and_ff _ = Inl TypeError"

definition ctw3_mode_payload :: "pyval \<Rightarrow> pyval \<Rightarrow> pyval \<Rightarrow> py_exc + bytes" where
  "ctw3_mode_payload pw suspend mode =
     (let suspend' = (if truthy pw then suspend else PInt 0)
      in fields_concat [and_ff pw, and_ff suspend', and_ff mode])"

definition ctw3_needed :: "string list" where
  "ctw3_needed = [''smartWorkingTime'', ''smartSleepTime'', ''energyInterval'', ''sleepTime'',
     ''lightSwitch'', ''brightness'', ''noDisturbingSwitch'']"

definition state_get :: "pydict \<Rightarrow> string \<Rightarrow> pyval \<Rightarrow> pyval" where
  "state_get d k dflt = (case map_of d k of Some v \<Rightarrow> v | None \<Rightarrow> dflt)"

definition ctw3_config_payload :: "pydict \<Rightarrow> py_exc + bytes option" where
  "ctw3_config_payload st =
     (if \<not> list_all (has_key st) ctw3_needed then Inr None
      else (let g = (\<lambda>k. state_get st k (PInt 0))
            in ebind (fields_concat
                 [field_byte (g ''smartWorkingTime''), field_byte (g ''smartSleepTime''),
                  field_short (g ''energyInterval''), field_short (g ''sleepTime''),
                  field_byte (g ''lightSwitch''), field_byte (g ''brightness''),
                  field_byte (g ''noDisturbingSwitch''), field_byte (g ''childLock''),
                  field_byte (g ''smartInductiveSwitch''),
                  field_byte (g ''batteryInductiveSwitch'')]) (\<lambda>b. Inr (Some b))))"

definition ctw3_mode_fields :: "(string \<times> string) list" where
  "ctw3_mode_fields =
     [(''ctw3_power'', ''powerStatus''), (''ctw3_working'', ''suspendStatus''), (''ctw3_mode'', ''mode'')]"

definition ctw3_config_fields :: "(string \<times> string) list" where
  "ctw3_config_fields =
     [(''ctw3_light'', ''lightSwitch''), (''ctw3_brightness'', ''brightness''),
      (''ctw3_dnd'', ''noDisturbingSwitch''), (''ctw3_child_lock'', ''childLock''),
      (''ctw3_energy_interval'', ''energyInterval''), (''ctw3_sleep_time'', ''sleepTime''),
      (''ctw3_smart_work'', ''smartWorkingTime''), (''ctw3_smart_sleep'', ''smartSleepTime'')]"

definition ctw3_writable :: "string list" where
  "ctw3_writable = map fst ctw3_mode_fields @ map fst ctw3_config_fields @ [''ctw3_reset_filter'']"

definition states_of :: "ble_device \<Rightarrow> pydict" where
  "states_of d = (case map_of (ble_state d) ''states'' of Some s \<Rightarrow> s | None \<Rightarrow> [])"

definition ctw3_command_for :: "ble_device \<Rightarrow> string \<Rightarrow> int \<Rightarrow> py_exc + int \<times> bytes" where
  "ctw3_command_for d key value =
     (let states = states_of d
      in case map_of ctw3_mode_fields key of
           Some f \<Rightarrow>
             (let s1 = AList.update f (PInt value) states;
                  s2 = (if key = ''ctw3_mode''
                        then AList.update ''suspendStatus'' (PInt 1)
                               (AList.update ''powerStatus'' (PInt 1) s1) else s1)
              in if \<not> list_all (has_key s2) [''powerStatus'', ''suspendStatus'', ''mode'']
                 then Inl (Refused ''no reading yet'')
                 else ebind (ctw3_mode_payload (state_get s2 ''powerStatus'' PNone)
                        (state_get s2 ''suspendStatus'' PNone) (state_get s2 ''mode'' PNone))
                        (\<lambda>p. Inr (cmd_set_mode, p)))
         | None \<Rightarrow>
             (case map_of ctw3_config_fields key of
                None \<Rightarrow> Inl KeyError
              | Some f \<Rightarrow>
                  ebind (ctw3_config_payload (AList.update f (PInt value) states))
                    (\<lambda>p. case p of None \<Rightarrow> Inl (Refused ''no full status reported yet'')
                                | Some b \<Rightarrow> Inr (cmd_set_config, b))))"


section \<open>Lemmas\<close>

lemma merge_value: "map_of (dict_merge d e) k = Some v \<Longrightarrow> map_of d k = Some v \<or> (k, v) \<in> set e"
proof (induction e arbitrary: d)
  case (Cons p e)
  obtain k' v' where p: "p = (k', v')" by (cases p)
  have "map_of (AList.update k' v' d) k = Some v \<or> (k, v) \<in> set e"
    using Cons.IH [of "AList.update k' v' d"] Cons.prems by (simp add: dict_merge_def p)
  then show ?case by (auto simp: p lookup_update split: if_splits)
qed (simp add: dict_merge_def)

lemma field_byte_at [simp]: "field_byte (byte_at t i) = Inr [t ! i]"
  by (simp add: field_byte_def byte_at_def)

lemma byte_slice_two: "Suc i < length t \<Longrightarrow> byte_slice i (i + 2) t = [t ! i, t ! Suc i]"
proof -
  assume i: "Suc i < length t"
  then have "drop i t = t ! i # t ! Suc i # drop (Suc (Suc i)) t" by (simp add: Cons_nth_drop_Suc)
  then show ?thesis by (simp add: byte_slice_def)
qed

lemma field_short_at [simp]:
  "Suc i < length t \<Longrightarrow> field_short (int_at t i 2) = Inr [t ! i, t ! Suc i]"
  by (simp only: field_short_def int_at_def byte_slice_two py_int.simps ebind_simps to_bytes2_be_int)

lemma byte_of_range: "0 \<le> v \<Longrightarrow> v < 256 \<Longrightarrow> uint (word_of_int v :: byte) = v"
  by (simp add: uint_word_of_int)

lemma short_of_range: "0 \<le> v \<Longrightarrow> v < 256 \<Longrightarrow> field_short (PInt v) = Inr [0, word_of_int v]"
  by (simp add: field_short_def to_bytes2_def)

lemma byte_value [simp]: "field_byte (PInt v) = Inr [word_of_int v]"
  by (simp add: field_byte_def)

lemma twelve_bytes:
  assumes "length t = 12"
  obtains a b c d e f g h i j k l where "t = [a, b, c, d, e, f, g, h, i, j, k, l]"
  using assms by (auto simp: numeral_eq_Suc length_Suc_conv)

definition mode_ok :: "pydict \<Rightarrow> bool" where
  "mode_ok s \<longleftrightarrow> (\<forall>v. (''mode'', v) \<in> set s \<longrightarrow> v = PInt 1 \<or> v = PInt 2)"

lemma mode_ok_Nil [simp]: "mode_ok []"
  by (simp add: mode_ok_def)

lemma set_update: "(k, v) \<in> set (AList.update k' v' d) \<Longrightarrow> (k, v) \<in> set d \<or> (k = k' \<and> v = v')"
  by (induction d) (auto split: if_splits)

lemma mode_ok_merge: "mode_ok d \<Longrightarrow> mode_ok e \<Longrightarrow> mode_ok (dict_merge d e)"
proof (induction e arbitrary: d)
  case (Cons p e)
  have "mode_ok (AList.update (fst p) (snd p) d)"
    using Cons.prems unfolding mode_ok_def by (metis list.set_intros(1) prod.collapse set_update)
  moreover have "mode_ok e" using Cons.prems(2) by (simp add: mode_ok_def)
  ultimately show ?case using Cons.IH by (simp add: dict_merge_def case_prod_unfold)
qed (simp add: dict_merge_def)

lemma mode_ok_delete: "mode_ok d \<Longrightarrow> mode_ok (AList.delete k d)"
  by (auto simp: mode_ok_def AList.delete_eq)

lemma mode_ok_deleted: "mode_ok (AList.delete ''mode'' d)"
  by (auto simp: mode_ok_def AList.delete_eq)

lemma mode_ok_latch:
  assumes "keys_distinct d"
  shows "mode_ok (latch_mode d)"
proof (cases "latch_mode d = d")
  case True
  have "map_of d ''mode'' = Some v" if "(''mode'', v) \<in> set d" for v
    using assms that by simp
  then show ?thesis
    using True mode_ok_deleted [of d]
    by (auto simp: latch_mode_def mode_ok_def fountain_modes_def split: option.splits pyval.splits if_splits)
next
  case False
  then have "latch_mode d = AList.delete ''mode'' d"
    by (auto simp: latch_mode_def split: option.splits pyval.splits if_splits)
  then show ?thesis by (simp add: mode_ok_deleted)
qed

lemma mode_ok_config: "mode_ok (decode_ctw3_config t)"
  by (simp add: decode_ctw3_config_def mode_ok_def)

lemma ctw3_fields_distinct:
  "keys_distinct (map (\<lambda>(name, off). (name, byte_at data off)) ctw3_byte_fields
     @ map (\<lambda>(name, off, w). (name, int_at data off w)) ctw3_int_fields)"
  by (simp add: ctw3_byte_fields_def ctw3_int_fields_def)

lemma mode_ok_status: "mode_ok (fst (decode_ctw3_status data))"
proof -
  have "mode_ok (latch_mode (map (\<lambda>(name, off). (name, byte_at data off)) ctw3_byte_fields
     @ map (\<lambda>(name, off, w). (name, int_at data off w)) ctw3_int_fields))"
    by (rule mode_ok_latch) (rule ctw3_fields_distinct)
  then show ?thesis
    by (simp add: decode_ctw3_status_def Let_def mode_ok_delete mode_ok_merge mode_ok_config)
qed

lemma mode_ok_frames: "mode_ok (fst r) \<Longrightarrow> mode_ok (fst (fold ctw3_apply_frame fs r))"
proof (induction fs arbitrary: r)
  case (Cons f fs)
  have "mode_ok (fst (ctw3_apply_frame f r))"
    using Cons.prems
    by (simp add: ctw3_apply_frame_def Let_def mode_ok_merge mode_ok_status mode_ok_config
        split: prod.splits)
  then show ?case using Cons.IH by simp
qed simp

lemma config_restates:
  assumes "length t = ctw3_config_len"
  shows "ctw3_config_payload (decode_ctw3_config t) = Inr (Some t)"
proof -
  obtain a b c d e f g h i j k l where "t = [a, b, c, d, e, f, g, h, i, j, k, l]"
    using twelve_bytes [of t] assms by (metis ctw3_config_len_def)
  then show ?thesis
    by (simp add: ctw3_config_payload_def decode_ctw3_config_def ctw3_config_len_def
        ctw3_needed_def state_get_def)
qed

definition ctw3_config_names :: "string list" where
  "ctw3_config_names = ctw3_needed @ [''childLock'', ''smartInductiveSwitch'', ''batteryInductiveSwitch'']"

lemma config_payload_cong:
  assumes "\<forall>k \<in> set ctw3_config_names. map_of s k = map_of s' k"
  shows "ctw3_config_payload s = ctw3_config_payload s'"
proof -
  have "state_get s k x = state_get s' k x" "has_key s k \<longleftrightarrow> has_key s' k"
    if "k \<in> set ctw3_config_names" for k x
    using assms that by (simp_all add: state_get_def key_lookup)
  then show ?thesis by (simp add: ctw3_config_payload_def ctw3_config_names_def ctw3_needed_def)
qed

lemma config_names: "length t = ctw3_config_len \<Longrightarrow> map fst (decode_ctw3_config t)
    = [''smartWorkingTime'', ''smartSleepTime'', ''energyInterval'', ''sleepTime'', ''lightSwitch'',
       ''brightness'', ''noDisturbingSwitch'', ''childLock'', ''smartInductiveSwitch'',
       ''batteryInductiveSwitch'']"
  by (simp add: decode_ctw3_config_def)

lemma config_update:
  assumes "length t = ctw3_config_len" "map_of ctw3_config_fields key = Some f" "0 \<le> v" "v < 256"
  shows "\<exists>t'. length t' = ctw3_config_len
    \<and> decode_ctw3_config t' = AList.update f (PInt v) (decode_ctw3_config t)"
proof -
  obtain a b c d e f' g h i j k l where t: "t = [a, b, c, d, e, f', g, h, i, j, k, l]"
    using twelve_bytes [of t] assms(1) by (metis ctw3_config_len_def)
  define w :: byte where "w = word_of_int v"
  have u: "uint w = v" using assms(3,4) by (simp add: w_def byte_of_range)
  note ev = decode_ctw3_config_def ctw3_config_len_def t byte_at_def int_at_def byte_slice_def be_int_def u
  have "f \<in> {''lightSwitch'', ''brightness'', ''noDisturbingSwitch'', ''childLock'',
      ''energyInterval'', ''sleepTime'', ''smartWorkingTime'', ''smartSleepTime''}"
    using assms(2) by (auto simp: ctw3_config_fields_def split: if_splits)
  then show ?thesis
  proof (elim insertE emptyE)
    assume "f = ''lightSwitch''"
    then show ?thesis by (intro exI [of _ "t[6 := w]"]) (simp add: ev)
  next
    assume "f = ''brightness''"
    then show ?thesis by (intro exI [of _ "t[7 := w]"]) (simp add: ev)
  next
    assume "f = ''noDisturbingSwitch''"
    then show ?thesis by (intro exI [of _ "t[8 := w]"]) (simp add: ev)
  next
    assume "f = ''childLock''"
    then show ?thesis by (intro exI [of _ "t[9 := w]"]) (simp add: ev)
  next
    assume "f = ''energyInterval''"
    then show ?thesis by (intro exI [of _ "t[2 := 0, 3 := w]"]) (simp add: ev)
  next
    assume "f = ''sleepTime''"
    then show ?thesis by (intro exI [of _ "t[4 := 0, 5 := w]"]) (simp add: ev)
  next
    assume "f = ''smartWorkingTime''"
    then show ?thesis by (intro exI [of _ "t[0 := w]"]) (simp add: ev)
  next
    assume "f = ''smartSleepTime''"
    then show ?thesis by (intro exI [of _ "t[1 := w]"]) (simp add: ev)
  qed
qed

lemma config_not_mode: "map_of ctw3_config_fields key = Some f \<Longrightarrow> map_of ctw3_mode_fields key = None"
  by (auto simp: ctw3_config_fields_def ctw3_mode_fields_def split: if_splits)

section \<open>Properties\<close>

text \<open>
  C17: rebuilding the settings block from what was decoded out of it gives the same twelve bytes,
  so a write that changes nothing restates exactly what the fountain reported.
\<close>

theorem ctw3_config_roundtrip:
  assumes "length t = ctw3_config_len"
  shows "ctw3_config_payload (decode_ctw3_config t) = Inr (Some t)"
  using assms by (rule config_restates)

theorem ctw3_config_roundtrip_witness:
  "ctw3_config_payload (decode_ctw3_config [3, 3, 0, 0x78, 4, 0xb0, 1, 3, 0, 0, 1, 0])
     = Inr (Some [3, 3, 0, 0x78, 4, 0xb0, 1, 3, 0, 0, 1, 0])"
  by (rule ctw3_config_roundtrip) (simp add: ctw3_config_len_def)

text \<open>
  C29: writing one setting changes that setting and no other. From an accessory whose state holds a
  reported settings block, every settings entity accepts every value below 256 and sends a command
  221 whose block decodes to the old settings with exactly that field replaced.
\<close>

theorem ctw3_write_changes_one_setting:
  assumes t: "length t = ctw3_config_len"
    and held: "\<forall>k \<in> set ctw3_config_names. map_of (states_of d) k = map_of (decode_ctw3_config t) k"
    and key: "map_of ctw3_config_fields key = Some f"
    and range: "0 \<le> v" "v < 256"
  shows "\<exists>b. ctw3_command_for d key v = Inr (cmd_set_config, b)
    \<and> map_of (decode_ctw3_config b) = (map_of (decode_ctw3_config t))(f \<mapsto> PInt v)"
proof -
  obtain t' where t': "length t' = ctw3_config_len"
      "decode_ctw3_config t' = AList.update f (PInt v) (decode_ctw3_config t)"
    using config_update [OF t key range] by blast
  have "ctw3_config_payload (AList.update f (PInt v) (states_of d))
      = ctw3_config_payload (decode_ctw3_config t')"
    using held by (intro config_payload_cong) (simp add: t'(2) lookup_update)
  also have "\<dots> = Inr (Some t')" using t'(1) by (rule config_restates)
  finally have "ctw3_command_for d key v = Inr (cmd_set_config, t')"
    using key by (simp add: ctw3_command_for_def config_not_mode)
  then show ?thesis using t'(2) by (auto simp: lookup_update)
qed

definition sample_ctw3 :: ble_device where
  "sample_ctw3 = sample_ble\<lparr>ble_state :=
     [(''states'', decode_ctw3_config [3, 3, 0, 0x78, 4, 0xb0, 1, 3, 0, 0, 1, 0])]\<rparr>"

theorem ctw3_write_changes_one_setting_witness:
  "\<exists>b. ctw3_command_for sample_ctw3 ''ctw3_brightness'' 2 = Inr (cmd_set_config, b)
    \<and> map_of (decode_ctw3_config b) =
       (map_of (decode_ctw3_config [3, 3, 0, 0x78, 4, 0xb0, 1, 3, 0, 0, 1, 0]))(''brightness'' \<mapsto> PInt 2)"
  by (rule ctw3_write_changes_one_setting)
    (simp_all add: ctw3_config_len_def states_of_def sample_ctw3_def ctw3_config_fields_def)

text \<open>
  No response, whatever its frames hold, makes the decoder report a mode other than the two a
  fountain has; a mode outside them is dropped, so the state keeps the last real one.
\<close>

theorem ctw3_mode_latched:
  "(''states'', s) \<in> set (parse_ctw3_ble_response content) \<Longrightarrow> (''mode'', m) \<in> set s \<Longrightarrow>
     m = PInt 1 \<or> m = PInt 2"
  using mode_ok_frames [of "([], [])" "iter_ble_frames content"]
  by (auto simp: parse_ctw3_ble_response_def report_sections_def mode_ok_def split: if_splits)

definition sample_status :: bytes where
  "sample_status = [1, 1, 2] @ replicate 23 0"

theorem ctw3_mode_latched_witness: "PInt 2 = PInt 1 \<or> PInt 2 = PInt 2"
proof (rule ctw3_mode_latched)
  define s where "s = fst (decode_ctw3_status sample_status)"
  let ?c = "PDict [(''payload'', PList [PDict [(''cmd'', PInt 210), (''data'', PBytes sample_status)]])]"
  have "(''states'', s) \<in> set (parse_ctw3_ble_response ?c) \<and> (''mode'', PInt 2) \<in> set s"
    unfolding s_def by code_simp
  then show "(''states'', s) \<in> set (parse_ctw3_ble_response ?c)" "(''mode'', PInt 2) \<in> set s"
    by blast+
qed

end
