(* ===== verification/W5.thy ===== *)
theory W5
  imports Ctw3
begin

text \<open>
  The DATA block of the W5, W4 and CTW2 fountains (\<open>devices/ble/w5.py\<close>): status and settings
  decoders, the response parser, which also takes named fields from the payload, the two payload
  builders and the command one entity write becomes.
\<close>

section \<open>Layout tables\<close>

definition w5_status_state_offsets :: "(string \<times> nat) list" where
  "w5_status_state_offsets =
     [(''powerStatus'', 0), (''mode'', 1), (''dndState'', 2), (''warningBreakdown'', 3),
      (''warningWaterMissing'', 4), (''warningFilter'', 5), (''runningStatus'', 11)]"

definition w5_status_filter_offset :: nat where "w5_status_filter_offset = 10"

definition w5_min_status_len :: nat where "w5_min_status_len = 12"

definition w5_config_byte_fields :: "(string \<times> nat) list" where
  "w5_config_byte_fields =
     [(''smartWorkingTime'', 0), (''smartSleepTime'', 1), (''lampRingSwitch'', 2),
      (''lampRingBrightness'', 3), (''noDisturbingSwitch'', 8)]"

definition w5_config_int_fields :: "(string \<times> nat \<times> nat) list" where
  "w5_config_int_fields =
     [(''lampRingLightUpTime'', 4, 2), (''lampRingGoOutTime'', 6, 2),
      (''noDisturbingStartTime'', 9, 2), (''noDisturbingEndTime'', 11, 2)]"

definition w5_config_len :: nat where "w5_config_len = 13"

definition w5_config_lock_offset :: nat where "w5_config_lock_offset = 13"

section \<open>Decoding\<close>

definition decode_w5_status :: "bytes \<Rightarrow> pydict \<times> pydict" where
  "decode_w5_status data =
     (if length data < w5_min_status_len then ([], [])
      else
        (let states0 = map (\<lambda>(name, off). (name, byte_at data off)) w5_status_state_offsets;
             states1 = AList.update ''pumpRuntime'' (int_at data 6 4) (latch_mode states0);
             consumables = [(''filterPercentage'', byte_at data w5_status_filter_offset)];
             states2 = (if 16 \<le> length data
                        then AList.update ''todayPumpRunTime'' (int_at data 12 4) states1 else states1);
             states3 = (if 17 \<le> length data
                        then AList.update ''smartWorkingTime'' (byte_at data 16) states2 else states2);
             states4 = (if 18 \<le> length data
                        then AList.update ''smartSleepTime'' (byte_at data 17) states3 else states3)
         in (states4, consumables)))"

definition decode_w5_config :: "bytes \<Rightarrow> pydict" where
  "decode_w5_config data =
     (if length data < w5_config_len then []
      else
        map (\<lambda>(name, off). (name, byte_at data off)) w5_config_byte_fields
        @ map (\<lambda>(name, off, w). (name, int_at data off w)) w5_config_int_fields
        @ (if w5_config_lock_offset < length data
           then [(''isLock'', byte_at data w5_config_lock_offset)] else []))"

definition w5_apply_frame :: "pyval \<times> bytes \<Rightarrow> pydict \<times> pydict \<Rightarrow> pydict \<times> pydict" where
  "w5_apply_frame f r =
     (case f of (cmd, data) \<Rightarrow>
        if data = [] then r
        else if is_cmd cmd cmd_device_status \<or> is_cmd cmd cmd_get_state
          then (let dec = decode_w5_status data
                in (dict_merge (fst r) (fst dec), dict_merge (snd r) (snd dec)))
        else if is_cmd cmd cmd_get_config
          then (dict_merge (fst r) (decode_w5_config data), snd r)
        else r)"

text \<open>The fields a payload names itself: two sections as they are, and loose keys at the top.\<close>

definition section_of :: "pydict \<Rightarrow> string \<Rightarrow> pydict" where
  "section_of m k = (case map_of m k of Some (PDict d) \<Rightarrow> d | _ \<Rightarrow> [])"

definition copy_key :: "pydict \<Rightarrow> string \<Rightarrow> pydict \<Rightarrow> pydict" where
  "copy_key m k d = (case map_of m k of Some v \<Rightarrow> AList.update k v d | None \<Rightarrow> d)"

fun w5_named_fields :: "pyval \<Rightarrow> pydict \<times> pydict" where
  "w5_named_fields (PDict m) =
     (fold (copy_key m)
        [''powerStatus'', ''runningStatus'', ''warningWaterMissing'', ''warningFilter'', ''mode'']
        (dict_merge [] (section_of m ''states'')),
      copy_key m ''filterPercentage'' (dict_merge [] (section_of m ''consumables'')))"
| "w5_named_fields _ = ([], [])"

definition parse_w5_ble_response :: "pyval \<Rightarrow> (string \<times> pydict) list" where
  "parse_w5_ble_response content =
     report_sections (fold w5_apply_frame (iter_ble_frames content) (w5_named_fields content))"

section \<open>Building\<close>

definition w5_mode_payload :: "pyval \<Rightarrow> py_exc + bytes" where
  "w5_mode_payload mode = ebind (and_ff mode) (\<lambda>b. Inr (b @ [0]))"

definition w5_config_payload :: "pydict \<Rightarrow> py_exc + bytes option" where
  "w5_config_payload st =
     (if \<not> list_all (has_key st) (map fst w5_config_byte_fields)
         \<or> \<not> list_all (has_key st) (map fst w5_config_int_fields) then Inr None
      else (let g = (\<lambda>k. state_get st k (PInt 0))
            in ebind (fields_concat
                 [field_byte (g ''smartWorkingTime''), field_byte (g ''smartSleepTime''),
                  field_byte (g ''lampRingSwitch''), field_byte (g ''lampRingBrightness''),
                  field_short (g ''lampRingLightUpTime''), field_short (g ''lampRingGoOutTime''),
                  field_byte (g ''noDisturbingSwitch''), field_short (g ''noDisturbingStartTime''),
                  field_short (g ''noDisturbingEndTime''), field_byte (g ''isLock'')])
                 (\<lambda>b. Inr (Some b))))"

definition w5_config_entity_fields :: "(string \<times> string) list" where
  "w5_config_entity_fields =
     [(''w5_light'', ''lampRingSwitch''), (''w5_brightness'', ''lampRingBrightness''),
      (''w5_dnd'', ''noDisturbingSwitch''), (''w5_child_lock'', ''isLock''),
      (''w5_smart_work'', ''smartWorkingTime''), (''w5_smart_sleep'', ''smartSleepTime'')]"

definition w5_writable :: "string list" where
  "w5_writable = map fst w5_config_entity_fields @ [''w5_power'', ''w5_mode'', ''w5_reset_filter'']"

definition w5_command_for :: "ble_device \<Rightarrow> string \<Rightarrow> int \<Rightarrow> py_exc + int \<times> bytes" where
  "w5_command_for d key value =
     (let states = states_of d
      in if key = ''w5_power'' \<or> key = ''w5_mode'' then
           (let last = state_get states ''mode'' PNone;
                mode = (if key = ''w5_mode'' then PInt value
                        else if value \<noteq> 0 then (if truthy last then last else PInt 1)
                        else PInt 0)
            in ebind (w5_mode_payload mode) (\<lambda>p. Inr (cmd_set_mode, p)))
         else
           (case map_of w5_config_entity_fields key of
              None \<Rightarrow> Inl KeyError
            | Some f \<Rightarrow>
                ebind (w5_config_payload (AList.update f (PInt value) states))
                  (\<lambda>p. case p of None \<Rightarrow> Inl (Refused ''no settings block reported yet'')
                              | Some b \<Rightarrow> Inr (cmd_set_config, b))))"

section \<open>Lemmas\<close>

lemma fourteen_bytes:
  assumes "length t = 14"
  obtains a b c d e f g h i j k l m n where "t = [a, b, c, d, e, f, g, h, i, j, k, l, m, n]"
  using assms by (auto simp: numeral_eq_Suc length_Suc_conv)

lemma w5_config_restates:
  assumes "length t = 14"
  shows "w5_config_payload (decode_w5_config t) = Inr (Some t)"
proof -
  obtain a b c d e f g h i j k l m n where "t = [a, b, c, d, e, f, g, h, i, j, k, l, m, n]"
    using fourteen_bytes [OF assms] .
  then show ?thesis
    by (simp add: w5_config_payload_def decode_w5_config_def w5_config_len_def
        w5_config_byte_fields_def w5_config_int_fields_def w5_config_lock_offset_def state_get_def)
qed

lemma mode_ok_update: "mode_ok d \<Longrightarrow> k \<noteq> ''mode'' \<Longrightarrow> mode_ok (AList.update k v d)"
  unfolding mode_ok_def using set_update by fastforce

lemma mode_ok_w5_status: "mode_ok (fst (decode_w5_status data))"
proof -
  have "mode_ok (latch_mode (map (\<lambda>(name, off). (name, byte_at data off)) w5_status_state_offsets))"
    by (rule mode_ok_latch) (simp add: w5_status_state_offsets_def)
  then show ?thesis
    by (simp add: decode_w5_status_def Let_def mode_ok_update)
qed

lemma mode_ok_w5_config: "mode_ok (decode_w5_config t)"
  by (auto simp: decode_w5_config_def mode_ok_def w5_config_byte_fields_def w5_config_int_fields_def)

lemma mode_ok_w5_frames: "mode_ok (fst r) \<Longrightarrow> mode_ok (fst (fold w5_apply_frame fs r))"
proof (induction fs arbitrary: r)
  case (Cons f fs)
  have "mode_ok (fst (w5_apply_frame f r))"
    using Cons.prems
    by (simp add: w5_apply_frame_def Let_def mode_ok_merge mode_ok_w5_status mode_ok_w5_config
        split: prod.splits)
  then show ?case using Cons.IH by simp
qed simp

section \<open>Properties\<close>

text \<open>
  Rebuilding a W5 settings block of fourteen bytes from what was decoded out of it gives the
  same fourteen bytes; from a block of thirteen, which has no child lock, it gives that block with
  a zero lock byte.
\<close>

theorem w5_config_roundtrip:
  assumes "length t = 13"
  shows "w5_config_payload (decode_w5_config (t @ [x])) = Inr (Some (t @ [x]))
    \<and> w5_config_payload (decode_w5_config t) = Inr (Some (t @ [0]))"
proof -
  obtain a b c d e f g h i j k l m where t: "t = [a, b, c, d, e, f, g, h, i, j, k, l, m]"
    using fourteen_bytes [of "t @ [x]"] assms by (auto simp: numeral_eq_Suc length_Suc_conv)
  have "w5_config_payload (decode_w5_config t) = Inr (Some (t @ [0]))"
    by (simp add: w5_config_payload_def decode_w5_config_def w5_config_len_def t
        w5_config_byte_fields_def w5_config_int_fields_def w5_config_lock_offset_def state_get_def)
  then show ?thesis using assms by (simp add: w5_config_restates)
qed

theorem w5_config_roundtrip_witness:
  "w5_config_payload (decode_w5_config (replicate 13 5)) = Inr (Some (replicate 13 5 @ [0]))"
  using w5_config_roundtrip [of "replicate 13 5" 0] by simp

text \<open>
  Switching a W5 on never sends the byte that switches it off: from any states whose mode is
  absent or real, and those are the only ones binary frames leave, a power write with a value other
  than zero sends command 220 with mode 1 or 2, and a power write of zero sends mode 0.
\<close>

theorem w5_power_on_runs:
  assumes "mode_ok (states_of d)"
  shows "w5_command_for d ''w5_power'' v =
      Inr (cmd_set_mode, [if v = 0 then 0
                          else if map_of (states_of d) ''mode'' = Some (PInt 2) then 2 else 1, 0])
    \<and> mode_ok (fst (fold w5_apply_frame fs (states_of d, c)))"
proof -
  have "map_of (states_of d) ''mode'' = None \<or> map_of (states_of d) ''mode'' = Some (PInt 1)
      \<or> map_of (states_of d) ''mode'' = Some (PInt 2)"
    using assms by (cases "map_of (states_of d) ''mode''") (auto simp: mode_ok_def dest: map_of_SomeD)
  then show ?thesis
    using assms mode_ok_w5_frames [of "(states_of d, c)" fs]
    by (auto simp: w5_command_for_def w5_mode_payload_def state_get_def)
qed

theorem w5_power_on_runs_witness:
  "w5_command_for (sample_ble\<lparr>ble_state := [(''states'', [(''mode'', PInt 2)])]\<rparr>) ''w5_power'' 1
     = Inr (cmd_set_mode, [2, 0])"
  using w5_power_on_runs [of "sample_ble\<lparr>ble_state := [(''states'', [(''mode'', PInt 2)])]\<rparr>" 1 "[]" "[]"]
  by (simp add: mode_ok_def states_of_def)

text \<open>
  The latch covers binary frames only. A payload that names its fields itself is copied
  unchecked, so a reported mode 0 enters the states as it is.
\<close>

theorem w5_named_mode_not_latched:
  "parse_w5_ble_response (PDict [(''mode'', PInt 0)]) = [(''states'', [(''mode'', PInt 0)])]"
  by code_simp

end
