(* ===== verification/Ble_Command.thy ===== *)
theory Ble_Command
  imports W5
begin

text \<open>
  Where the two fountain families meet (\<open>devices/ble/__init__.py\<close>): which command an entity write
  becomes, and which parser an accessory's frames go through.
\<close>

definition w5_protocol :: "string list" where
  "w5_protocol = [''w5'', ''w4'', ''ctw2'']"

definition reset_filter_keys :: "string list" where
  "reset_filter_keys = [''ctw3_reset_filter'', ''w5_reset_filter'']"

definition reset_filter_payload :: bytes where
  "reset_filter_payload = []"

definition ble_command_for :: "ble_device \<Rightarrow> string \<Rightarrow> int \<Rightarrow> py_exc + int \<times> bytes" where
  "ble_command_for d key value =
     (if key \<in> set reset_filter_keys then Inr (cmd_reset_filter, reset_filter_payload)
      else if ble_type d = ''ctw3'' \<and> key \<in> set ctw3_writable then ctw3_command_for d key value
      else if ble_type d \<in> set w5_protocol \<and> key \<in> set w5_writable then w5_command_for d key value
      else Inl (Refused (key @ '' is not a writable '' @ str_upper (ble_type d) @ '' field'')))"

definition parser_for :: "string \<Rightarrow> (pyval \<Rightarrow> (string \<times> pydict) list) option" where
  "parser_for t =
     (if t \<in> set w5_protocol then Some parse_w5_ble_response
      else if t = ''ctw3'' then Some parse_ctw3_ble_response else None)"

section \<open>Lemmas\<close>

lemma ctw3_command_cmd:
  "ctw3_command_for d key v = Inr (c, p) \<Longrightarrow> c = cmd_set_mode \<or> c = cmd_set_config"
  by (auto simp: ctw3_command_for_def Let_def ebind_Inr_iff split: option.splits if_splits)

lemma w5_command_cmd:
  "w5_command_for d key v = Inr (c, p) \<Longrightarrow> c = cmd_set_mode \<or> c = cmd_set_config"
  by (auto simp: w5_command_for_def Let_def ebind_Inr_iff split: option.splits if_splits)

lemma ctw3_no_key_error:
  "key \<in> set ctw3_writable \<Longrightarrow> key \<notin> set reset_filter_keys \<Longrightarrow>
     map_of ctw3_mode_fields key \<noteq> None \<or> map_of ctw3_config_fields key \<noteq> None"
  by (auto simp: ctw3_writable_def reset_filter_keys_def map_of_eq_None_iff)

lemma w5_no_key_error:
  "key \<in> set w5_writable \<Longrightarrow> key \<notin> set reset_filter_keys \<Longrightarrow>
     key = ''w5_power'' \<or> key = ''w5_mode'' \<or> map_of w5_config_entity_fields key \<noteq> None"
  by (auto simp: w5_writable_def reset_filter_keys_def map_of_eq_None_iff)

text \<open>States that hold integers only, as every binary frame leaves them.\<close>

definition int_states :: "pydict \<Rightarrow> bool" where
  "int_states s \<longleftrightarrow> (\<forall>k v. (k, v) \<in> set s \<longrightarrow> (\<exists>n. v = PInt n))"

lemma int_states_get: "int_states s \<Longrightarrow> \<exists>n. state_get s k (PInt m) = PInt n"
  by (auto simp: int_states_def state_get_def split: option.splits dest: map_of_SomeD)

lemma int_states_update: "int_states s \<Longrightarrow> int_states (AList.update k (PInt n) s)"
  unfolding int_states_def using set_update by fastforce

lemma fields_concat_no_key_error:
  "\<forall>f \<in> set fs. f \<noteq> Inl KeyError \<Longrightarrow> fields_concat fs \<noteq> Inl KeyError"
proof (induction fs)
  case (Cons f fs)
  then show ?case by (cases f; cases "fields_concat fs") auto
qed simp

lemma int_literal_no_key_error: "int_literal s \<noteq> Inl KeyError"
  by (simp add: int_literal_def Let_def split: prod.splits)

lemma py_int_no_key_error: "py_int v \<noteq> Inl KeyError"
  by (cases v rule: py_int.cases) (simp_all add: int_literal_no_key_error)

lemma field_no_key_error: "field_byte v \<noteq> Inl KeyError" "field_short v \<noteq> Inl KeyError"
  using py_int_no_key_error [of v]
  by (cases "py_int v"; simp add: field_byte_def field_short_def to_bytes2_def)+

lemma and_ff_no_key_error: "and_ff v \<noteq> Inl KeyError"
  by (cases v rule: and_ff.cases) simp_all

lemma config_payload_no_key_error:
  "ctw3_config_payload s \<noteq> Inl KeyError" "w5_config_payload s \<noteq> Inl KeyError"
proof -
  have "ebind m (\<lambda>b. Inr (Some b)) \<noteq> Inl KeyError" if "m \<noteq> Inl KeyError" for m :: "py_exc + bytes"
    using that by (cases m) auto
  then show "ctw3_config_payload s \<noteq> Inl KeyError" "w5_config_payload s \<noteq> Inl KeyError"
    unfolding ctw3_config_payload_def w5_config_payload_def Let_def
    by (simp_all add: field_no_key_error fields_concat_no_key_error del: fields_concat.simps)
qed

lemma command_no_key_error:
  assumes "key \<notin> set reset_filter_keys"
  shows "key \<in> set ctw3_writable \<Longrightarrow> ctw3_command_for d key v \<noteq> Inl KeyError"
    and "key \<in> set w5_writable \<Longrightarrow> w5_command_for d key v \<noteq> Inl KeyError"
proof -
  have m: "ctw3_mode_payload a b c \<noteq> Inl KeyError" for a b c
    unfolding ctw3_mode_payload_def Let_def
    by (rule fields_concat_no_key_error) (auto simp: and_ff_no_key_error)
  have w: "w5_mode_payload a \<noteq> Inl KeyError" for a
    using and_ff_no_key_error [of a] by (cases "and_ff a") (auto simp: w5_mode_payload_def)
  note no = m w config_payload_no_key_error ebind_Inl_iff
  show "ctw3_command_for d key v \<noteq> Inl KeyError" if "key \<in> set ctw3_writable"
    using ctw3_no_key_error [OF that assms]
    by (auto simp: ctw3_command_for_def Let_def no split: option.splits)
  show "w5_command_for d key v \<noteq> Inl KeyError" if "key \<in> set w5_writable"
    using w5_no_key_error [OF that assms]
    by (auto simp: w5_command_for_def Let_def no split: option.splits)
qed

section \<open>Properties\<close>

text \<open>
  C30: every command an entity write becomes is one the frame layer sends, so a write that was
  accepted is never dropped for want of an opcode; and no key, writable or not, on any accessory
  raises a key error.
\<close>

theorem accepted_write_is_sendable:
  "ble_command_for d key v \<noteq> Inl KeyError
   \<and> (\<forall>c p. ble_command_for d key v = Inr (c, p) \<longrightarrow>
        c \<in> set ble_sendable \<and> ble_command_frame c seq p = Some (build_ble_frame c seq p))"
  using ctw3_command_cmd [of d key v] w5_command_cmd [of d key v] command_no_key_error [of key d v]
  by (auto simp: ble_command_for_def ble_command_frame_def cmd_defs split: if_splits)

theorem accepted_write_is_sendable_witness:
  "ble_command_frame 221 3 [3, 3, 0, 0x78, 4, 0xb0, 1, 2, 0, 0, 1, 0]
     = Some (build_ble_frame 221 3 [3, 3, 0, 0x78, 4, 0xb0, 1, 2, 0, 0, 1, 0])"
proof -
  have "ble_command_for sample_ctw3 ''ctw3_brightness'' 2 = Inr (221, [3, 3, 0, 0x78, 4, 0xb0, 1, 2, 0, 0, 1, 0])"
    by code_simp
  then show ?thesis using accepted_write_is_sendable [of sample_ctw3 "''ctw3_brightness''" 2 3] by blast
qed

text \<open>A K3 spray, which speaks neither fountain protocol, is sent a filter reset all the same.\<close>

lemma k3_accepts_filter_reset:
  "parser_for ''k3'' = None
   \<and> ble_command_for (sample_ble\<lparr>ble_type := ''k3''\<rparr>) ''w5_reset_filter'' 1 = Inr (222, [])"
  by code_simp

end
