(* ===== verification/Device.thy ===== *)
theory Device
  imports Coerce
begin

text \<open>
  One registered device (\<open>devices/base.py\<close>): its identity, credentials and live state, the codename
  tables that say what it is (\<open>utils/const.py\<close>), the settings block it starts life with
  (\<open>devices/defaults.py\<close>), its command queue and its persisted form.

  Two facts of the environment are arguments of the definitions that read them: the time zone
  database, and the values drawn from the system's random source when a device is created.
\<close>

section \<open>Codename tables\<close>

definition device_types_litter :: "string list" where
  "device_types_litter = [''t3'', ''t4'', ''t5'', ''t6'', ''t7'']"

definition device_types_feeder :: "string list" where
  "device_types_feeder = [''feeder'', ''feedermini'', ''d3'', ''d4'', ''d4s'', ''d4h'', ''d4sh'']"

definition device_types_water_fountain :: "string list" where
  "device_types_water_fountain = [''w4'', ''w5'', ''ctw2'', ''ctw3'', ''w7h'']"

definition device_types_purifier :: "string list" where
  "device_types_purifier = [''k2'', ''k3'']"

definition device_types_ble_only :: "string list" where
  "device_types_ble_only = [''w4'', ''w5'', ''ctw2'', ''ctw3'', ''k2'', ''k3'']"

definition device_types_camera :: "string list" where
  "device_types_camera = [''t5'', ''t6'', ''t7'', ''d4h'', ''d4sh'', ''w7h'']"

definition device_types_next_gen :: "string list" where
  "device_types_next_gen = [''t5'', ''t6'', ''t7'', ''d4h'', ''d4sh'', ''w7h'']"

definition device_types_ai :: "string list" where
  "device_types_ai = [''t5'', ''t6'', ''t7'', ''w7h'']"

definition device_names :: "(string \<times> string) list" where
  "device_names =
     [(''feeder'', ''Feeder''), (''feedermini'', ''Feeder Mini''),
      (''d3'', ''Feeder D3''), (''d4'', ''Fresh Element Solo''),
      (''d4s'', ''Feeder D4s''), (''d4h'', ''YumShare Solo''),
      (''d4sh'', ''YumShare Dual-Hopper''), (''t3'', ''Pura X''),
      (''t4'', ''Pura Max''), (''t5'', ''Purobot Max Pro 2''),
      (''t6'', ''Purobot Ultra''), (''t7'', ''Purobot Crystal Duo''),
      (''w4'', ''EverSweet''), (''w5'', ''EverSweet 3 Pro''),
      (''ctw2'', ''EverSweet Solo 2''), (''ctw3'', ''EverSweet Max Cordless''),
      (''w7h'', ''EverSweet Ultra AI''), (''k2'', ''Pura Air''),
      (''k3'', ''Pura Air K3'')]"

definition device_display_name :: "string \<Rightarrow> string" where
  "device_display_name code =
     (if code = [] then []
      else (case map_of device_names (str_lower code) of Some n \<Rightarrow> n | None \<Rightarrow> ''Unknown''))"

section \<open>The record\<close>

record device =
  device_type :: string
  petkit_id :: int
  serial_number :: string
  mac :: string
  firmware :: string
  wire_type :: string
  mqtt_product_key :: string
  mqtt_device_name :: string
  mqtt_device_secret :: string
  api_secret :: string
  dev_state :: pydict
  dev_config :: pydict
  command_queue :: "pyval list"
  last_heartbeat :: rat
  last_mqtt :: rat
  mqtt_subscriptions :: "string list"
  created_at :: rat
  online :: bool
  mqtt_connected :: bool
  mqtt_connected_at :: rat

text \<open>What creation draws from outside: the product key, the device secret and the clock.\<close>

record minted =
  minted_key :: string
  minted_secret :: string
  minted_time :: rat

definition derived_name :: "string \<Rightarrow> string \<Rightarrow> int \<Rightarrow> string" where
  "derived_name dtype sn pid =
     ''d_'' @ dtype @ ''_'' @ (if sn \<noteq> [] then sn else int_text pid)"

text \<open>\<open>__post_init__\<close>.\<close>

definition device_post_init :: "device \<Rightarrow> device" where
  "device_post_init d =
     (if mqtt_device_name d = []
      then d\<lparr>mqtt_device_name := derived_name (device_type d) (serial_number d) (petkit_id d)\<rparr>
      else d)"

definition new_device :: "minted \<Rightarrow> string \<Rightarrow> int \<Rightarrow> string \<Rightarrow> string \<Rightarrow> string \<Rightarrow> string \<Rightarrow> device" where
  "new_device m dtype pid sn hw fw wt =
     device_post_init
       \<lparr>device_type = dtype, petkit_id = pid, serial_number = sn, mac = hw, firmware = fw,
        wire_type = wt, mqtt_product_key = minted_key m, mqtt_device_name = [],
        mqtt_device_secret = minted_secret m, api_secret = [], dev_state = [], dev_config = [],
        command_queue = [], last_heartbeat = 0, last_mqtt = 0, mqtt_subscriptions = [],
        created_at = minted_time m, online = False, mqtt_connected = False,
        mqtt_connected_at = 0\<rparr>"

section \<open>What a device is\<close>

definition is_camera :: "device \<Rightarrow> bool" where
  "is_camera d \<longleftrightarrow> device_type d \<in> set device_types_camera"

definition is_next_gen :: "device \<Rightarrow> bool" where
  "is_next_gen d \<longleftrightarrow> device_type d \<in> set device_types_next_gen"

definition is_litter :: "device \<Rightarrow> bool" where
  "is_litter d \<longleftrightarrow> device_type d \<in> set device_types_litter"

definition is_feeder :: "device \<Rightarrow> bool" where
  "is_feeder d \<longleftrightarrow> device_type d \<in> set device_types_feeder"

definition is_water_fountain :: "device \<Rightarrow> bool" where
  "is_water_fountain d \<longleftrightarrow> device_type d \<in> set device_types_water_fountain"

definition is_purifier :: "device \<Rightarrow> bool" where
  "is_purifier d \<longleftrightarrow> device_type d \<in> set device_types_purifier"

definition is_ble_only :: "device \<Rightarrow> bool" where
  "is_ble_only d \<longleftrightarrow> device_type d \<in> set device_types_ble_only"

definition config_get :: "device \<Rightarrow> string \<Rightarrow> pyval" where
  "config_get d k = (case map_of (dev_config d) k of Some v \<Rightarrow> v | None \<Rightarrow> PNone)"

definition supports_ai :: "device \<Rightarrow> bool" where
  "supports_ai d \<longleftrightarrow>
     device_type d \<in> set device_types_ai \<or> to_bool (config_get d ''ai_observed'') = Some True"

definition capability_types :: "string list" where
  "capability_types = [''fullVideo'', ''eventImage'', ''highLight'', ''dynamicVideo'']"

text \<open>The enabled upload types; a stored value that is no dictionary has no \<open>get\<close> and raises.\<close>

definition enabled_capabilities :: "device \<Rightarrow> py_exc + string set" where
  "enabled_capabilities d =
     (if \<not> is_camera d then Inr {}
      else (case config_get d ''capabilities'' of
              PNone \<Rightarrow> Inr (set capability_types)
            | PDict stored \<Rightarrow>
                Inr (set (filter (\<lambda>ct. case map_of stored ct of Some v \<Rightarrow> truthy v | None \<Rightarrow> True)
                       capability_types))
            | _ \<Rightarrow> Inl TypeError))"

definition signing_secret :: "device \<Rightarrow> string" where
  "signing_secret d = (if api_secret d \<noteq> [] then api_secret d else mqtt_device_secret d)"

text \<open>
  The zone database gives the current offset of a zone name, None for an unknown one
  (\<open>utils/timeutil.py\<close>, \<open>offset_hours_for_locale\<close>).
\<close>

definition offset_hours_for_locale :: "(string \<Rightarrow> rat option) \<Rightarrow> pyval \<Rightarrow> rat option" where
  "offset_hours_for_locale zones locale =
     (case locale of
        PStr s \<Rightarrow> if CHR ''/'' \<in> set s then zones s else None
      | _ \<Rightarrow> None)"

definition timezone_offset :: "(string \<Rightarrow> rat option) \<Rightarrow> rat \<Rightarrow> device \<Rightarrow> pyfloat" where
  "timezone_offset zones local_offset d =
     (case to_float (config_get d ''timezone'') of
        Some f \<Rightarrow> f
      | None \<Rightarrow>
          (case offset_hours_for_locale zones (config_get d ''locale'') of
             Some q \<Rightarrow> Fin q
           | None \<Rightarrow>
               (case to_float (config_get d ''reported_timezone'') of
                  Some f \<Rightarrow> f
                | None \<Rightarrow> Fin local_offset)))"

definition aliyun_mqtt_host :: "device \<Rightarrow> string" where
  "aliyun_mqtt_host d = mqtt_product_key d @ ''.iot-as-mqtt.eu-central-1.aliyuncs.com''"

definition resolve_mqtt_host :: "device \<Rightarrow> string \<Rightarrow> string" where
  "resolve_mqtt_host d real_host = (if real_host \<noteq> [] then real_host else aliyun_mqtt_host d)"

text \<open>\<open>pop_commands\<close>: the whole queue, oldest first, and the device with an empty one.\<close>

definition pop_commands :: "device \<Rightarrow> pyval list \<times> device" where
  "pop_commands d = (command_queue d, d\<lparr>command_queue := []\<rparr>)"

section \<open>The bucket address in two pieces\<close>

definition split_bucket_authority :: "string \<Rightarrow> (string \<times> string) option" where
  "split_bucket_authority endpoint =
     (if endpoint = [] then None
      else
        (let rest = (case cut_at ''//'' endpoint of Some (_, b) \<Rightarrow> b | None \<Rightarrow> endpoint);
             authority = (case cut_at ''/'' rest of Some (a, _) \<Rightarrow> a | None \<Rightarrow> rest)
         in if authority = [] \<or> CHR ''@'' \<in> set authority \<or> CHR ''['' \<in> set authority then None
            else (case cut_at ''.'' authority of
                    None \<Rightarrow> None
                  | Some (head, tail) \<Rightarrow>
                      if head = [] \<or> tail = [] then None else Some (head, tail))))"

section \<open>Default settings\<close>

definition litter_settings :: pydict where
  "litter_settings =
     [(''manualLock'', PInt 0), (''clickOkEnable'', PInt 1), (''avoidRepeat'', PInt 1),
      (''underweight'', PInt 1), (''kitten'', PInt 0), (''bury'', PInt 0),
      (''autoWork'', PInt 1), (''fixedTimeClear'', PInt 0), (''autoIntervalMin'', PInt 0),
      (''stillTime'', PInt 30), (''stopTime'', PInt 600), (''unit'', PInt 0),
      (''language'', PStr ''en_US''), (''deepClean'', PInt 0), (''disturbMode'', PInt 0),
      (''lightest'', PInt 1680), (''downpos'', PInt 0), (''sandSaving'', PInt 0),
      (''lightMode'', PInt 0), (''lightConfig'', PInt 1), (''lightMultiRange'', PList [])]"

definition litter_camera_settings :: pydict where
  "litter_camera_settings =
     [(''camera'', PInt 1), (''microphone'', PInt 1), (''night'', PInt 1),
      (''timeDisplay'', PInt 1), (''tumbling'', PInt 0), (''cameraLight'', PInt 1),
      (''highlight'', PInt 1), (''autoProduct'', PInt 0), (''upload'', PInt 1),
      (''preLive'', PInt 1), (''liveEncrypt'', PInt 1), (''toiletDetection'', PInt 1),
      (''petDetection'', PInt 1), (''petNotify'', PInt 1), (''petNotifyInterval'', PInt 60),
      (''lightAssist'', PInt 1), (''toiletLight'', PInt 0), (''toneMode'', PInt 0),
      (''toneMultiRange'', PList [PList [PInt 1320, PInt 360]]), (''toneConfig'', PInt 2),
      (''systemSoundEnable'', PInt 1), (''volume'', PInt 1), (''deepSpray'', PInt 0),
      (''fixedTimeSpray'', PInt 1), (''autoSpray'', PInt 1), (''autoIntervalSpray'', PInt 0),
      (''sandFullWeight'', PList [PInt 3500, PInt 5800, PInt 3000, PInt 3500, PInt 3500]),
      (''sandSetUseConfig'', PList [PList [PInt 2, PInt 2, PInt 4], PList [PInt 2, PInt 2, PInt 4], PList [PInt 2, PInt 2, PInt 4], PList [PInt 2, PInt 2, PInt 4]]),
      (''deodorantNotify'', PInt 1), (''sprayNotify'', PInt 1), (''phDetection'', PInt 0),
      (''voice'', PInt 1), (''logSwitch'', PInt 1)]"

definition feeder_settings :: pydict where
  "feeder_settings =
     [(''manualLock'', PInt 0), (''lightMode'', PInt 0), (''foodWarn'', PInt 0),
      (''foodWarnRange'', PList [PInt 480, PInt 1200]), (''surplusControl'', PInt 0),
      (''surplusStandard'', PInt 2), (''numLimit'', PInt 5)]"

definition feeder_camera_settings :: pydict where
  "feeder_camera_settings =
     [(''camera'', PInt 1), (''microphone'', PInt 1), (''night'', PInt 1),
      (''timeDisplay'', PInt 1), (''moveDetection'', PInt 1), (''moveSensitivity'', PInt 1),
      (''petDetection'', PInt 1), (''petSensitivity'', PInt 3), (''eatDetection'', PInt 1),
      (''eatSensitivity'', PInt 3), (''soundEnable'', PInt 0), (''systemSoundEnable'', PInt 1),
      (''volume'', PInt 7), (''smartFrame'', PInt 1), (''toneMode'', PInt 0),
      (''disturbMode'', PInt 0), (''feedSound'', PInt 0), (''selectedSound'', PInt (- 1)),
      (''detectInterval'', PInt 0), (''logSwitch'', PInt 1), (''feedPicture'', PInt 1),
      (''eatVideo'', PInt 1), (''upload'', PInt 1)]"

definition fountain_settings :: pydict where
  "fountain_settings =
     [(''manualLock'', PInt 0), (''lightMode'', PInt 0), (''disturbMode'', PInt 0),
      (''addWaterSwitch'', PInt 0), (''petDetection'', PInt 0), (''heaterSwitch'', PInt 0),
      (''fountainMode'', PInt 0), (''fountainTime'', PInt 12), (''sleepTime'', PInt 12)]"

definition purifier_settings :: pydict where
  "purifier_settings =
     [(''lightMode'', PInt 0), (''manualLock'', PInt 0), (''sound'', PInt 0)]"

definition default_settings :: "device \<Rightarrow> pydict" where
  "default_settings d =
     (if is_litter d then
        (if is_camera d then dict_merge litter_settings litter_camera_settings else litter_settings)
      else if is_feeder d then
        (if is_camera d then dict_merge feeder_settings feeder_camera_settings else feeder_settings)
      else if is_water_fountain d then fountain_settings
      else if is_purifier d then purifier_settings
      else [])"

text \<open>\<open>_merge_default_settings\<close>: fill the gaps of the settings block, overwrite nothing.\<close>

definition fill_gaps :: "pydict \<Rightarrow> pydict \<Rightarrow> pydict" where
  "fill_gaps settings defaults = fold (\<lambda>(k, v). dict_setdefault k v) defaults settings"

definition merge_default_settings :: "device \<Rightarrow> device" where
  "merge_default_settings d =
     (let config = dict_setdefault ''settings'' (PDict []) (dev_config d)
      in case map_of config ''settings'' of
           Some (PDict settings) \<Rightarrow>
             d\<lparr>dev_config :=
                 AList.update ''settings'' (PDict (fill_gaps settings (default_settings d))) config\<rparr>
         | _ \<Rightarrow> d\<lparr>dev_config := config\<rparr>)"

section \<open>The persisted form\<close>

definition device_to_dict :: "device \<Rightarrow> pydict" where
  "device_to_dict d =
     [(''device_type'', PStr (device_type d)), (''petkit_id'', PInt (petkit_id d)),
      (''serial_number'', PStr (serial_number d)), (''mac'', PStr (mac d)),
      (''firmware'', PStr (firmware d)), (''wire_type'', PStr (wire_type d)),
      (''mqtt_product_key'', PStr (mqtt_product_key d)),
      (''mqtt_device_name'', PStr (mqtt_device_name d)),
      (''mqtt_device_secret'', PStr (mqtt_device_secret d)), (''api_secret'', PStr (api_secret d)),
      (''config'', PDict (dev_config d)), (''created_at'', PFloat (Fin (created_at d)))]"

text \<open>
  \<open>from_dict\<close>. The two required keys raise when absent; every other one falls back. The record is
  typed, so a value of another type than the one \<open>to_dict\<close> writes, which Python would store as it
  is, is a type error here.
\<close>

definition read_str :: "pydict \<Rightarrow> string \<Rightarrow> string \<Rightarrow> py_exc + string" where
  "read_str m k dflt =
     (case map_of m k of None \<Rightarrow> Inr dflt | Some (PStr s) \<Rightarrow> Inr s | _ \<Rightarrow> Inl TypeError)"

definition device_from_dict :: "minted \<Rightarrow> pydict \<Rightarrow> py_exc + device" where
  "device_from_dict m data =
     (case (map_of data ''device_type'', map_of data ''petkit_id'') of
        (Some (PStr dtype), Some (PInt pid)) \<Rightarrow>
          ebind (read_str data ''serial_number'' []) (\<lambda>sn.
          ebind (read_str data ''mac'' []) (\<lambda>hw.
          ebind (read_str data ''firmware'' []) (\<lambda>fw.
          ebind (read_str data ''wire_type'' []) (\<lambda>wt.
            (let d = new_device m dtype pid sn hw fw wt
             in ebind (read_str data ''mqtt_product_key'' (mqtt_product_key d)) (\<lambda>pk.
                ebind (read_str data ''mqtt_device_name'' (mqtt_device_name d)) (\<lambda>dn.
                ebind (read_str data ''mqtt_device_secret'' (mqtt_device_secret d)) (\<lambda>ds.
                ebind (read_str data ''api_secret'' (api_secret d)) (\<lambda>ap.
                  (case (map_of data ''config'', map_of data ''created_at'') of
                     (Some (PDict c), Some (PFloat (Fin t))) \<Rightarrow>
                       Inr (d\<lparr>mqtt_product_key := pk, mqtt_device_name := dn,
                              mqtt_device_secret := ds, api_secret := ap, dev_config := c,
                              created_at := t\<rparr>)
                   | (None, Some (PFloat (Fin t))) \<Rightarrow>
                       Inr (d\<lparr>mqtt_product_key := pk, mqtt_device_name := dn,
                              mqtt_device_secret := ds, api_secret := ap, created_at := t\<rparr>)
                   | (Some (PDict c), None) \<Rightarrow>
                       Inr (d\<lparr>mqtt_product_key := pk, mqtt_device_name := dn,
                              mqtt_device_secret := ds, api_secret := ap, dev_config := c\<rparr>)
                   | (None, None) \<Rightarrow>
                       Inr (d\<lparr>mqtt_product_key := pk, mqtt_device_name := dn,
                              mqtt_device_secret := ds, api_secret := ap\<rparr>)
                   | _ \<Rightarrow> Inl TypeError))))))))))
      | (Some _, Some _) \<Rightarrow> Inl TypeError
      | _ \<Rightarrow> Inl KeyError)"


section \<open>Lemmas\<close>

lemma fill_gaps_lookup:
  "keys_distinct defaults \<Longrightarrow> map_of (fill_gaps s defaults) k =
     (case map_of s k of Some v \<Rightarrow> Some v | None \<Rightarrow> map_of defaults k)"
proof (induction defaults arbitrary: s)
  case Nil
  then show ?case by (simp add: fill_gaps_def split: option.splits)
next
  case (Cons p defaults)
  obtain a b where p: "p = (a, b)" by (cases p)
  have "map_of (fill_gaps s (p # defaults)) k = map_of (fill_gaps (dict_setdefault a b s) defaults) k"
    by (simp add: fill_gaps_def p)
  also have "\<dots> = (case map_of (dict_setdefault a b s) k of Some v \<Rightarrow> Some v | None \<Rightarrow> map_of defaults k)"
    using Cons by simp
  also have "\<dots> = (case map_of s k of Some v \<Rightarrow> Some v | None \<Rightarrow> map_of (p # defaults) k)"
    by (auto simp: p lookup_setdefault key_lookup split: option.splits)
  finally show ?case .
qed

lemma default_settings_distinct: "keys_distinct (default_settings d)"
proof -
  have "keys_distinct litter_settings \<and> keys_distinct feeder_settings
    \<and> keys_distinct fountain_settings \<and> keys_distinct purifier_settings"
    by code_simp
  then show ?thesis by (simp add: default_settings_def)
qed

lemma setdefault_present: "has_key s k \<Longrightarrow> dict_setdefault k v s = s"
  by (simp add: dict_setdefault_def)

lemma fill_gaps_full: "\<forall>k \<in> set (map fst defaults). has_key s k \<Longrightarrow> fill_gaps s defaults = s"
proof (induction defaults)
  case (Cons p defaults)
  obtain a b where p: "p = (a, b)" by (cases p)
  have "has_key s a" using Cons.prems by (simp add: p)
  then have "fill_gaps s (p # defaults) = fill_gaps s defaults"
    by (simp add: fill_gaps_def p setdefault_present del: set_map)
  also have "\<dots> = s" using Cons by simp
  finally show ?case .
qed (simp add: fill_gaps_def)

lemma update_present: "map_of d k = Some v \<Longrightarrow> AList.update k v d = d"
  by (induction d) (auto split: if_splits)

definition gaps_filled :: "pydict \<Rightarrow> device \<Rightarrow> bool" where
  "gaps_filled s d \<longleftrightarrow>
     (\<exists>s'. map_of (dev_config (merge_default_settings d)) ''settings'' = Some (PDict s')
      \<and> (\<forall>k. map_of s' k =
           (case map_of s k of Some v \<Rightarrow> Some v | None \<Rightarrow> map_of (default_settings d) k)))"

lemma merge_dict_settings:
  "map_of (dict_setdefault ''settings'' (PDict []) (dev_config d)) ''settings'' = Some (PDict s) \<Longrightarrow>
   merge_default_settings d =
     d\<lparr>dev_config := AList.update ''settings'' (PDict (fill_gaps s (default_settings d)))
        (dict_setdefault ''settings'' (PDict []) (dev_config d))\<rparr>"
  by (simp add: merge_default_settings_def)

lemma default_settings_config [simp]: "default_settings (d\<lparr>dev_config := c\<rparr>) = default_settings d"
  by (simp add: default_settings_def is_litter_def is_camera_def is_feeder_def
      is_water_fountain_def is_purifier_def)

lemma merge_twice:
  assumes m: "merge_default_settings d =
     d\<lparr>dev_config := AList.update ''settings'' (PDict (fill_gaps s (default_settings d))) c\<rparr>"
  shows "merge_default_settings (merge_default_settings d) = merge_default_settings d"
proof -
  let ?c = "AList.update ''settings'' (PDict (fill_gaps s (default_settings d))) c"
  have look: "map_of ?c ''settings'' = Some (PDict (fill_gaps s (default_settings d)))"
    by (simp add: lookup_update)
  then have sd: "dict_setdefault ''settings'' (PDict []) ?c = ?c"
    by (intro setdefault_present) (auto simp: key_lookup)
  have "\<forall>k \<in> set (map fst (default_settings d)). has_key (fill_gaps s (default_settings d)) k"
    by (auto simp: key_lookup fill_gaps_lookup default_settings_distinct split: option.splits)
  then have full: "fill_gaps (fill_gaps s (default_settings d)) (default_settings d)
      = fill_gaps s (default_settings d)"
    by (rule fill_gaps_full)
  let ?e = "d\<lparr>dev_config := ?c\<rparr>"
  have "merge_default_settings ?e = ?e\<lparr>dev_config := AList.update ''settings''
      (PDict (fill_gaps (fill_gaps s (default_settings d)) (default_settings ?e))) ?c\<rparr>"
    using merge_dict_settings [of ?e "fill_gaps s (default_settings d)"] by (simp add: sd look)
  also have "\<dots> = ?e" by (simp add: full update_present [OF look])
  finally show ?thesis unfolding m .
qed

definition after_restart :: "device \<Rightarrow> device" where
  "after_restart d =
     d\<lparr>dev_state := [], command_queue := [], last_heartbeat := 0, last_mqtt := 0,
       mqtt_subscriptions := [], online := False, mqtt_connected := False, mqtt_connected_at := 0\<rparr>"

lemma from_to_dict: "device_from_dict m (device_to_dict d) = Inr (after_restart d)"
  by (cases d) (simp add: device_from_dict_def device_to_dict_def read_str_def new_device_def
      device_post_init_def after_restart_def)

interpretation device_file: coding "\<lambda>d. after_restart d = d" device_to_dict
  "\<lambda>m. case device_from_dict \<lparr>minted_key = [], minted_secret = [], minted_time = 0\<rparr> m of
         Inr d \<Rightarrow> Some d | Inl _ \<Rightarrow> None"
  by unfold_locales (simp add: from_to_dict)

section \<open>Properties\<close>

text \<open>
  A device written to the registry file and read back has every identity field, both sets of
  credentials and its configuration, whatever fresh credentials the constructor draws on the way;
  only the live state is reset.
\<close>

theorem device_dict_roundtrip:
  "device_from_dict m (device_to_dict d) = Inr (after_restart d)
   \<and> mqtt_product_key (after_restart d) = mqtt_product_key d
   \<and> mqtt_device_name (after_restart d) = mqtt_device_name d
   \<and> mqtt_device_secret (after_restart d) = mqtt_device_secret d
   \<and> signing_secret (after_restart d) = signing_secret d
   \<and> dev_config (after_restart d) = dev_config d"
  by (simp add: from_to_dict) (simp add: after_restart_def signing_secret_def)

text \<open>
  Merging the defaults never changes a setting the device or its owner has, gives it every
  default it lacks, touches nothing but the settings block, and does nothing the second time. A
  settings entry that is no dictionary is left alone.
\<close>

theorem merge_default_settings_spec:
  "(case map_of (dev_config d) ''settings'' of
      Some (PDict s) \<Rightarrow> gaps_filled s d
    | None \<Rightarrow> gaps_filled [] d
    | _ \<Rightarrow> merge_default_settings d = d)
   \<and> (\<forall>k. k \<noteq> ''settings'' \<longrightarrow>
        map_of (dev_config (merge_default_settings d)) k = map_of (dev_config d) k)
   \<and> merge_default_settings (merge_default_settings d) = merge_default_settings d"
proof (cases "\<exists>s. map_of (dict_setdefault ''settings'' (PDict []) (dev_config d)) ''settings'' = Some (PDict s)")
  case True
  then obtain s where s: "map_of (dict_setdefault ''settings'' (PDict []) (dev_config d)) ''settings'' = Some (PDict s)"
    by blast
  note m = merge_dict_settings [OF s]
  have "map_of (dev_config d) ''settings'' = Some (PDict s)
      \<or> map_of (dev_config d) ''settings'' = None \<and> s = []"
    using s by (auto simp: lookup_setdefault key_lookup split: if_splits)
  moreover have "gaps_filled s d"
    by (simp add: gaps_filled_def m lookup_update fill_gaps_lookup default_settings_distinct)
  moreover have "\<forall>k. k \<noteq> ''settings'' \<longrightarrow>
      map_of (dev_config (merge_default_settings d)) k = map_of (dev_config d) k"
    by (simp add: m lookup_update lookup_setdefault)
  moreover have "merge_default_settings (merge_default_settings d) = merge_default_settings d"
    using m by (rule merge_twice)
  ultimately show ?thesis by auto
next
  case False
  then obtain v where v: "map_of (dev_config d) ''settings'' = Some v" and nd: "\<forall>s. v \<noteq> PDict s"
    by (cases "map_of (dev_config d) ''settings''") (auto simp: lookup_setdefault key_lookup)
  then have sd: "dict_setdefault ''settings'' (PDict []) (dev_config d) = dev_config d"
    by (intro setdefault_present) (auto simp: key_lookup)
  have same: "merge_default_settings d = d"
    using nd by (cases v) (simp_all add: merge_default_settings_def sd v Let_def)
  show ?thesis using nd by (cases v) (simp_all add: same v)
qed

theorem merge_default_settings_spec_witness:
  "map_of (dev_config (merge_default_settings
       (new_device \<lparr>minted_key = ''a1'', minted_secret = ''s'', minted_time = 0\<rparr> ''t5'' 9 [] [] [] []))) ''locale''
     = None"
proof -
  let ?d = "new_device \<lparr>minted_key = ''a1'', minted_secret = ''s'', minted_time = 0\<rparr> ''t5'' 9 [] [] [] []"
  have "\<forall>k. k \<noteq> ''settings'' \<longrightarrow>
      map_of (dev_config (merge_default_settings ?d)) k = map_of (dev_config ?d) k"
    using merge_default_settings_spec [of ?d] by (elim conjE)
  then have "map_of (dev_config (merge_default_settings ?d)) ''locale'' = map_of (dev_config ?d) ''locale''"
    by (drule_tac x = "''locale''" in spec) simp
  then show ?thesis by (simp add: new_device_def device_post_init_def)
qed

text \<open>
  The bucket address is cut so that the device, which joins the two pieces with a dot, rebuilds
  a host that occurs in the address: the pieces are not empty, the first holds no dot (a bucket
  name), and neither holds a slash, so the device's URL has the same authority.
\<close>

theorem split_bucket_authority_rejoins:
  assumes "split_bucket_authority endpoint = Some (bucket, host)"
  shows "bucket \<noteq> [] \<and> host \<noteq> [] \<and> CHR ''.'' \<notin> set bucket
    \<and> CHR ''/'' \<notin> set bucket \<union> set host \<and> CHR ''@'' \<notin> set bucket \<union> set host
    \<and> (\<exists>scheme path. endpoint = scheme @ (bucket @ ''.'' @ host) @ path)"
proof -
  define rest where "rest = (case cut_at ''//'' endpoint of Some (_, b) \<Rightarrow> b | None \<Rightarrow> endpoint)"
  define authority where "authority = (case cut_at ''/'' rest of Some (a, _) \<Rightarrow> a | None \<Rightarrow> rest)"
  have cut: "cut_at ''.'' authority = Some (bucket, host)" and ne: "bucket \<noteq> []" "host \<noteq> []"
    and at: "CHR ''@'' \<notin> set authority"
    using assms by (auto simp: split_bucket_authority_def rest_def authority_def Let_def
        split: if_splits option.splits)
  have parts: "authority = bucket @ ''.'' @ host" using cut by (rule cut_at_parts)
  have "\<exists>scheme. endpoint = scheme @ rest"
    by (cases "cut_at ''//'' endpoint") (auto simp: rest_def dest!: cut_at_parts intro: exI [of _ "[]"])
  moreover have "\<exists>path. rest = authority @ path" and "CHR ''/'' \<notin> set authority"
    by (cases "cut_at ''/'' rest"; auto simp: authority_def dest: cut_at_parts cut_at_first cut_at_none)+
  ultimately show ?thesis
    using ne at cut_at_first [OF cut] unfolding parts by auto
qed

theorem split_bucket_authority_rejoins_witness:
  "\<exists>scheme path. ''https://192.0.2.199:9000'' = scheme @ (''192'' @ ''.'' @ ''0.2.199:9000'') @ path"
proof -
  have "split_bucket_authority ''https://192.0.2.199:9000'' = Some (''192'', ''0.2.199:9000'')"
    by code_simp
  from split_bucket_authority_rejoins [OF this] show ?thesis by blast
qed

end
