(* ===== verification/Json.thy ===== *)
theory Json
  imports Coerce Py_Codec
begin

text \<open>
  What the program uses of Python's \<open>json\<close> module: \<open>json.loads\<close> with its default settings (strict
  strings, \<open>NaN\<close> and \<open>Infinity\<close> accepted, a repeated key keeps its last value) and \<open>json.dumps\<close>
  with its default separators and ASCII output.

  Reading fails in three ways: the text is not JSON (\<open>JSONDecodeError\<close>), an integer has more than
  4300 digits (a plain \<open>ValueError\<close> from \<open>int\<close>, which is not a \<open>JSONDecodeError\<close>), or an escape
  names a character beyond the 256 this model's strings hold. The parser recurses on a fuel
  number; \<open>json_loads\<close> gives it twice the length of the text, and \<open>loads_fuel\<close> shows that this
  is never used up. Nesting is assumed to stay below the interpreter's recursion limit.
\<close>

section \<open>Reading\<close>

datatype json_error = Malformed | Int_digits | Wide_char | Out_of_fuel

definition json_space :: "char \<Rightarrow> bool" where
  "json_space c \<longleftrightarrow> c \<in> {CHR '' '', CHR 0x09, CHR 0x0A, CHR 0x0D}"

definition json_ws :: "string \<Rightarrow> string" where
  "json_ws s = dropWhile json_space s"

definition quote :: char where "quote = CHR 0x22"

definition backslash :: char where "backslash = CHR 0x5C"

text \<open>The characters after a backslash, other than \<open>u\<close>.\<close>

definition short_escapes :: "(char \<times> char) list" where
  "short_escapes =
     [(quote, quote), (backslash, backslash), (CHR ''/'', CHR ''/''), (CHR ''b'', CHR 0x08),
      (CHR ''f'', CHR 0x0C), (CHR ''n'', CHR 0x0A), (CHR ''r'', CHR 0x0D), (CHR ''t'', CHR 0x09)]"

definition four_hex :: "string \<Rightarrow> (nat \<times> string) option" where
  "four_hex s =
     (case s of
        a # b # c # d # r \<Rightarrow>
          (case (hex_value a, hex_value b, hex_value c, hex_value d) of
             (Some x, Some y, Some z, Some w) \<Rightarrow> Some (((x * 16 + y) * 16 + z) * 16 + w, r)
           | _ \<Rightarrow> None)
      | _ \<Rightarrow> None)"

definition add_char :: "char \<Rightarrow> json_error + string \<times> string \<Rightarrow> json_error + string \<times> string" where
  "add_char c m = ebind m (\<lambda>(t, r). Inr (c # t, r))"

text \<open>The text of a string after its opening quote, and what follows the closing one.\<close>

fun json_string :: "nat \<Rightarrow> string \<Rightarrow> json_error + string \<times> string" where
  "json_string 0 s = Inl Out_of_fuel"
| "json_string (Suc n) [] = Inl Malformed"
| "json_string (Suc n) (c # r) =
     (if c = quote then Inr ([], r)
      else if c = backslash then
        (case r of
           [] \<Rightarrow> Inl Malformed
         | e # r' \<Rightarrow>
             if e = CHR ''u'' then
               (case four_hex r' of
                  None \<Rightarrow> Inl Malformed
                | Some (v, r'') \<Rightarrow>
                    if v < 256 then add_char (char_of v) (json_string n r'') else Inl Wide_char)
             else (case map_of short_escapes e of
                     Some c' \<Rightarrow> add_char c' (json_string n r')
                   | None \<Rightarrow> Inl Malformed))
      else if char_in 0 31 c then Inl Malformed
      else add_char c (json_string n r))"

text \<open>
  The longest number at the start of a text: sign, integer digits, fraction, exponent and the
  rest. A zero stands alone.
\<close>

record number_parts =
  np_sign :: string
  np_int :: string
  np_frac :: string
  np_exp :: string
  np_rest :: string

definition scan_int :: "string \<Rightarrow> (string \<times> string) option" where
  "scan_int s =
     (case s of [] \<Rightarrow> None
      | c # r \<Rightarrow> if c = CHR ''0'' then Some ([c], r)
               else if is_digit c then Some (takeWhile is_digit s, dropWhile is_digit s) else None)"

definition scan_frac :: "string \<Rightarrow> string \<times> string" where
  "scan_frac s =
     (case s of [] \<Rightarrow> ([], s)
      | c # r \<Rightarrow> if c = CHR ''.'' \<and> takeWhile is_digit r \<noteq> []
               then (c # takeWhile is_digit r, dropWhile is_digit r) else ([], s))"

definition scan_exp :: "string \<Rightarrow> string \<times> string" where
  "scan_exp s =
     (case s of [] \<Rightarrow> ([], s)
      | c # r \<Rightarrow>
          let (sg, ds) = (case r of [] \<Rightarrow> ([], r)
                          | d # r' \<Rightarrow> if d = CHR ''+'' \<or> d = CHR ''-'' then ([d], r') else ([], r))
          in if (c = CHR ''e'' \<or> c = CHR ''E'') \<and> takeWhile is_digit ds \<noteq> []
             then (c # sg @ takeWhile is_digit ds, dropWhile is_digit ds) else ([], s))"

definition scan_minus :: "string \<Rightarrow> string \<times> string" where
  "scan_minus s =
     (case s of [] \<Rightarrow> ([], s) | c # r \<Rightarrow> if c = CHR ''-'' then ([c], r) else ([], s))"

definition scan_number :: "string \<Rightarrow> number_parts option" where
  "scan_number s =
     (let (sg, r) = scan_minus s
      in case scan_int r of
           None \<Rightarrow> None
         | Some (ip, r1) \<Rightarrow>
             let (fp, r2) = scan_frac r1; (ep, r3) = scan_exp r2
             in Some \<lparr>np_sign = sg, np_int = ip, np_frac = fp, np_exp = ep, np_rest = r3\<rparr>)"

definition number_value :: "number_parts \<Rightarrow> json_error + pyval" where
  "number_value p =
     (if np_frac p = [] \<and> np_exp p = []
      then if max_str_digits < length (np_int p) then Inl Int_digits
           else Inr (PInt ((if np_sign p = [] then 1 else - 1) * int (digits_value (np_int p))))
      else case float_text_value (np_sign p @ np_int p @ np_frac p @ np_exp p) of
             Some q \<Rightarrow> Inr (PFloat (round_b64 q))
           | None \<Rightarrow> Inl Malformed)"

definition json_words :: "(string \<times> pyval) list" where
  "json_words =
     [(''null'', PNone), (''true'', PBool True), (''false'', PBool False), (''NaN'', PFloat NaN),
      (''Infinity'', PFloat PosInf), (''-Infinity'', PFloat NegInf)]"

definition json_scalar :: "string \<Rightarrow> json_error + pyval \<times> string" where
  "json_scalar s =
     (case find (\<lambda>(w, v). starts_with s w) json_words of
        Some (w, v) \<Rightarrow> Inr (v, drop (length w) s)
      | None \<Rightarrow>
          (case scan_number s of
             Some p \<Rightarrow> ebind (number_value p) (\<lambda>v. Inr (v, np_rest p))
           | None \<Rightarrow> Inl Malformed))"

fun json_value :: "nat \<Rightarrow> string \<Rightarrow> json_error + pyval \<times> string"
  and json_elements :: "nat \<Rightarrow> pyval list \<Rightarrow> string \<Rightarrow> json_error + pyval \<times> string"
  and json_members :: "nat \<Rightarrow> pydict \<Rightarrow> string \<Rightarrow> json_error + pyval \<times> string"
where
  "json_value 0 s = Inl Out_of_fuel"
| "json_value (Suc n) s =
     (case s of
        [] \<Rightarrow> Inl Malformed
      | c # r \<Rightarrow>
          if c = quote then ebind (json_string n r) (\<lambda>(t, r'). Inr (PStr t, r'))
          else if c = CHR ''['' then
            (case json_ws r of [] \<Rightarrow> Inl Malformed
             | d # r' \<Rightarrow> if d = CHR '']'' then Inr (PList [], r') else json_elements n [] (d # r'))
          else if c = CHR ''{'' then
            (case json_ws r of [] \<Rightarrow> Inl Malformed
             | d # r' \<Rightarrow> if d = CHR ''}'' then Inr (PDict [], r') else json_members n [] (d # r'))
          else json_scalar s)"
| "json_elements 0 vs s = Inl Out_of_fuel"
| "json_elements (Suc n) vs s =
     ebind (json_value n s) (\<lambda>(v, r).
       case json_ws r of
         [] \<Rightarrow> Inl Malformed
       | c # r' \<Rightarrow>
           if c = CHR '','' then json_elements n (vs @ [v]) (json_ws r')
           else if c = CHR '']'' then Inr (PList (vs @ [v]), r')
           else Inl Malformed)"
| "json_members 0 d s = Inl Out_of_fuel"
| "json_members (Suc n) d s =
     (case s of
        [] \<Rightarrow> Inl Malformed
      | q # r \<Rightarrow>
          if q \<noteq> quote then Inl Malformed
          else ebind (json_string n r) (\<lambda>(k, r1).
            case json_ws r1 of
              [] \<Rightarrow> Inl Malformed
            | c # r2 \<Rightarrow>
                if c \<noteq> CHR '':'' then Inl Malformed
                else ebind (json_value n (json_ws r2)) (\<lambda>(v, r3).
                  case json_ws r3 of
                    [] \<Rightarrow> Inl Malformed
                  | e # r4 \<Rightarrow>
                      if e = CHR '','' then json_members n (AList.update k v d) (json_ws r4)
                      else if e = CHR ''}'' then Inr (PDict (AList.update k v d), r4)
                      else Inl Malformed)))"

definition json_loads :: "string \<Rightarrow> json_error + pyval" where
  "json_loads s =
     ebind (json_value (Suc (2 * length s)) (json_ws s)) (\<lambda>(v, r).
       if json_ws r = [] then Inr v else Inl Malformed)"

section \<open>Writing\<close>

text \<open>What \<open>json.dumps\<close> accepts: no bytes, and no integer too long to convert.\<close>

fun json_able :: "pyval \<Rightarrow> bool" where
  "json_able (PBytes b) = False"
| "json_able (PInt n) = (length (nat_text (nat \<bar>n\<bar>)) \<le> max_str_digits)"
| "json_able (PList vs) = list_all json_able vs"
| "json_able (PDict d) = list_all (\<lambda>kv. json_able (snd kv)) d"
| "json_able v = True"

text \<open>Evaluated without the digits of a short integer.\<close>

lemma nat_text_short: "n < 10 ^ k \<Longrightarrow> length (nat_text n) \<le> max 1 k"
proof (induction k arbitrary: n)
  case (Suc k)
  show ?case
  proof (cases "n < 10")
    case False
    then have "length (nat_text n) = Suc (length (nat_text (n div 10)))" by (subst nat_text.simps) simp
    moreover have "n div 10 < 10 ^ k" using Suc.prems by (simp add: less_mult_imp_div_less mult.commute)
    moreover have "0 < k" using Suc.prems False by (cases k) auto
    ultimately show ?thesis using Suc.IH [of "n div 10"] by simp
  qed (subst nat_text.simps, simp)
qed (simp add: nat_text.simps)

lemma json_able_code [code]:
  "json_able (PBytes b) = False"
  "json_able (PInt n) = (\<bar>n\<bar> < 1000000000000000000 \<or> length (nat_text (nat \<bar>n\<bar>)) \<le> max_str_digits)"
  "json_able (PList vs) = list_all json_able vs"
  "json_able (PDict d) = list_all (\<lambda>kv. json_able (snd kv)) d"
  "json_able PNone = True" "json_able (PBool c) = True" "json_able (PFloat f) = True" "json_able (PStr t) = True"
proof -
  have "length (nat_text (nat \<bar>n\<bar>)) \<le> max_str_digits" if "\<bar>n\<bar> < 1000000000000000000"
    using nat_text_short [of "nat \<bar>n\<bar>" 18] that by (simp add: max_str_digits_def nat_less_iff)
  then show "json_able (PInt n) = (\<bar>n\<bar> < 1000000000000000000 \<or> length (nat_text (nat \<bar>n\<bar>)) \<le> max_str_digits)"
    by auto
qed simp_all

definition hex_lower :: "nat \<Rightarrow> char" where
  "hex_lower n = ''0123456789abcdef'' ! n"

definition escape_char :: "char \<Rightarrow> string" where
  "escape_char c =
     (let n = of_char c :: nat
      in if c = quote \<or> c = backslash then [backslash, c]
         else if c = CHR 0x08 then [backslash, CHR ''b'']
         else if c = CHR 0x0C then [backslash, CHR ''f'']
         else if c = CHR 0x0A then [backslash, CHR ''n'']
         else if c = CHR 0x0D then [backslash, CHR ''r'']
         else if c = CHR 0x09 then [backslash, CHR ''t'']
         else if 32 \<le> n \<and> n \<le> 126 then [c]
         else backslash # ''u00'' @ [hex_lower (n div 16), hex_lower (n mod 16)])"

definition json_quote :: "string \<Rightarrow> string" where
  "json_quote s = quote # concat (map escape_char s) @ [quote]"

text \<open>
  The text \<open>json.dumps\<close> writes: \<open>float.__repr__\<close> is a parameter, and so is the space after a
  separator (one blank by default, none with \<open>separators=(",", ":")\<close>). Bytes are refused by
  \<open>json_dumps\<close> before they are written.
\<close>

fun json_fmt :: "string \<Rightarrow> (rat \<Rightarrow> string) \<Rightarrow> pyval \<Rightarrow> string" where
  "json_fmt sp frepr PNone = ''null''"
| "json_fmt sp frepr (PBool b) = (if b then ''true'' else ''false'')"
| "json_fmt sp frepr (PInt n) = int_text n"
| "json_fmt sp frepr (PFloat f) =
     (case f of Fin q \<Rightarrow> frepr q | PosInf \<Rightarrow> ''Infinity'' | NegInf \<Rightarrow> ''-Infinity'' | NaN \<Rightarrow> ''NaN'')"
| "json_fmt sp frepr (PStr s) = json_quote s"
| "json_fmt sp frepr (PBytes b) = []"
| "json_fmt sp frepr (PList vs) = ''['' @ join_with (CHR '','' # sp) (map (json_fmt sp frepr) vs) @ '']''"
| "json_fmt sp frepr (PDict d) =
     ''{'' @ join_with (CHR '','' # sp) (map (\<lambda>kv. json_quote (fst kv) @ CHR '':'' # sp @ json_fmt sp frepr (snd kv)) d) @ ''}''"

abbreviation json_text :: "(rat \<Rightarrow> string) \<Rightarrow> pyval \<Rightarrow> string" where
  "json_text \<equiv> json_fmt '' ''"

definition json_dumps :: "(rat \<Rightarrow> string) \<Rightarrow> pyval \<Rightarrow> string option" where
  "json_dumps frepr v = (if json_able v then Some (json_text frepr v) else None)"

section \<open>The fuel is never used up\<close>

lemma json_ws_length: "length (json_ws s) \<le> length s"
  by (simp add: json_ws_def length_dropWhile_le)

lemma four_hex_length: "four_hex s = Some (v, r) \<Longrightarrow> length r < length s"
  by (auto simp: four_hex_def split: list.splits option.splits)

text \<open>A reader is sound below a length when it does not run out of fuel and leaves a shorter rest.\<close>

definition reads_below :: "nat \<Rightarrow> json_error + 'a \<times> string \<Rightarrow> bool" where
  "reads_below l m \<longleftrightarrow> (case m of Inl e \<Rightarrow> e \<noteq> Out_of_fuel | Inr (v, r) \<Rightarrow> length r < l)"

lemma reads_below_simps [simp]:
  "reads_below l (Inl e) \<longleftrightarrow> e \<noteq> Out_of_fuel" "reads_below l (Inr (v, r)) \<longleftrightarrow> length r < l"
  by (simp_all add: reads_below_def)

lemma reads_below_ebind:
  assumes "reads_below l m" "\<And>v r. length r < l \<Longrightarrow> reads_below k (f (v, r))"
  shows "reads_below k (ebind m f)"
  using assms by (cases m) auto

lemma reads_below_mono: "reads_below l m \<Longrightarrow> l \<le> k \<Longrightarrow> reads_below k m"
  by (auto simp: reads_below_def split: sum.splits)

lemma json_ws_below: "json_ws s = c # r \<Longrightarrow> length r < length s"
  using json_ws_length [of s] by simp

lemma json_string_below: "length s < n \<Longrightarrow> reads_below (length s) (json_string n s)"
proof (induction n arbitrary: s)
  case (Suc n)
  have add: "reads_below (Suc l) (add_char c (json_string n x))" if "length x < n" "length x \<le> l" for c x l
    using Suc.IH [OF that(1)] that(2)
    by (auto simp: add_char_def intro!: reads_below_ebind)
  show ?case using Suc.prems
    by (cases s) (auto intro!: add split: list.splits option.splits dest!: four_hex_length)
qed simp

lemma find_SomeD: "find P xs = Some x \<Longrightarrow> x \<in> set xs \<and> P x"
  by (induction xs) (auto split: if_splits)

lemma scan_number_length: "scan_number s = Some p \<Longrightarrow> length (np_rest p) < length s"
proof -
  have d: "length (dropWhile is_digit x) \<le> length x" for x by (rule length_dropWhile_le)
  have m: "length (snd (scan_minus x)) \<le> length x" for x
    by (simp add: scan_minus_def split: list.splits)
  have f: "length (snd (scan_frac x)) \<le> length x" for x
    using d by (simp add: scan_frac_def le_SucI split: list.splits)
  have e: "length (snd (scan_exp x)) \<le> length x" for x
    using d by (simp add: scan_exp_def le_SucI split: list.splits)
  have i: "scan_int x = Some (a, b) \<Longrightarrow> length b < length x" for x a b
    using d by (simp add: scan_int_def less_Suc_eq_le split: list.splits if_splits) auto
  assume "scan_number s = Some p"
  then obtain ip r1 where "scan_int (snd (scan_minus s)) = Some (ip, r1)" and
    "np_rest p = snd (scan_exp (snd (scan_frac r1)))"
    by (simp add: scan_number_def split: option.splits prod.splits) auto
  then show ?thesis
    using i m [of s] e [of "snd (scan_frac r1)"] f [of r1] by fastforce
qed

lemma json_scalar_below: "reads_below (length s) (json_scalar s)"
proof (cases "find (\<lambda>(w, v). starts_with s w) json_words")
  case None
  have n: "number_value p \<noteq> Inl Out_of_fuel" for p
    by (simp add: number_value_def split: option.splits)
  have "reads_below (length s) (ebind (number_value p) (\<lambda>v. Inr (v, np_rest p)))"
    if "scan_number s = Some p" for p
    using n [of p] scan_number_length [OF that] by (cases "number_value p") auto
  then show ?thesis by (simp add: json_scalar_def None split: option.splits)
next
  case (Some wv)
  then obtain w v where wv: "wv = (w, v)" "(w, v) \<in> set json_words" "starts_with s w"
    by (cases wv) (auto dest: find_SomeD)
  then have "w \<noteq> []" by (auto simp: json_words_def)
  moreover have "s \<noteq> []" using wv(3) \<open>w \<noteq> []\<close> by (auto simp: starts_with_def)
  ultimately show ?thesis by (simp add: json_scalar_def Some wv(1))
qed

lemma json_below:
  "2 * length s < n \<Longrightarrow> reads_below (length s) (json_value n s)"
  "2 * length s + 1 < n \<Longrightarrow> reads_below (length s) (json_elements n vs s)"
  "2 * length s < n \<Longrightarrow> reads_below (length s) (json_members n d s)"
proof (induction n arbitrary: s vs d)
  case (Suc n)
  have ws: "length r' < length r \<and> length (json_ws r') < length r" if "json_ws r = c # r'" for r c r'
    using json_ws_length [of r] json_ws_length [of r'] that by simp
  have val: "reads_below l (json_value n x)" if "2 * length x < n" "length x \<le> l" for x l
    using Suc.IH(1) [OF that(1)] that(2) by (rule reads_below_mono)
  have els: "reads_below l (json_elements n us x)" if "2 * length x + 1 < n" "length x \<le> l" for x l us
    using Suc.IH(2) [OF that(1)] that(2) by (rule reads_below_mono)
  have mem: "reads_below l (json_members n e x)" if "2 * length x < n" "length x \<le> l" for x l e
    using Suc.IH(3) [OF that(1)] that(2) by (rule reads_below_mono)
  have str: "reads_below l (json_string n x)" if "length x < n" "length x \<le> l" for x l
    using json_string_below [OF that(1)] that(2) by (rule reads_below_mono)
  {
    case 1
    show ?case
    proof (cases s)
      case Nil then show ?thesis by simp
    next
      case (Cons c r)
      have ws: "length (x # y) \<le> length r" if "json_ws r = x # y" for x y
        using json_ws_length [of r] that by simp
      show ?thesis using 1 ws json_scalar_below [of s]
        by (auto simp: Cons split: list.splits intro!: els mem str reads_below_ebind [of "length r"])
    qed
  next
    case 2
    have "reads_below (length s) (json_value n s)" using 2 by (intro val) auto
    then show ?case using 2
      by (auto intro!: reads_below_ebind [of "length s"] els split: list.splits dest!: ws)
  next
    case 3
    show ?case
    proof (cases s)
      case Nil then show ?thesis by simp
    next
      case (Cons q r)
      have tail: "reads_below (Suc (length r)) (case json_ws r3 of
            [] \<Rightarrow> Inl Malformed
          | e # r4 \<Rightarrow>
              if e = CHR '','' then json_members n (AList.update k v d) (json_ws r4)
              else if e = CHR ''}'' then Inr (PDict (AList.update k v d), r4)
              else Inl Malformed)" if "length r3 < length r" for r3 k v
        using 3 that by (auto simp: Cons intro!: mem split: list.splits dest!: ws)
      have val': "reads_below (length r) (json_value n (json_ws x))" if "length x < length r" for x
        using 3 that json_ws_length [of x] by (intro val) (auto simp: Cons)
      show ?thesis using 3
        by (auto simp: Cons intro!: reads_below_ebind [of "length r"] str tail val'
            split: list.splits dest!: ws)
    qed
  }
qed simp_all

theorem loads_fuel: "json_loads s \<noteq> Inl Out_of_fuel"
proof -
  have "reads_below (length (json_ws s)) (json_value (Suc (2 * length s)) (json_ws s))"
    using json_ws_length [of s] by (intro json_below) simp
  then show ?thesis
    by (cases "json_value (Suc (2 * length s)) (json_ws s)") (auto simp: json_loads_def simp del: json_value.simps split: if_splits)
qed

section \<open>What was written is read back\<close>

text \<open>
  What can be written and read: no bytes, integers short enough to convert, distinct keys. A plain
  value has no finite float either.
\<close>

fun json_valid :: "pyval \<Rightarrow> bool" where
  "json_valid (PInt n) \<longleftrightarrow> length (nat_text (nat \<bar>n\<bar>)) \<le> max_str_digits"
| "json_valid (PBytes b) \<longleftrightarrow> False"
| "json_valid (PList vs) \<longleftrightarrow> list_all json_valid vs"
| "json_valid (PDict d) \<longleftrightarrow> keys_distinct d \<and> list_all (\<lambda>kv. json_valid (snd kv)) d"
| "json_valid v \<longleftrightarrow> True"

fun json_plain :: "pyval \<Rightarrow> bool" where
  "json_plain (PInt n) \<longleftrightarrow> length (nat_text (nat \<bar>n\<bar>)) \<le> max_str_digits"
| "json_plain (PFloat f) \<longleftrightarrow> False"
| "json_plain (PBytes b) \<longleftrightarrow> False"
| "json_plain (PList vs) \<longleftrightarrow> list_all json_plain vs"
| "json_plain (PDict d) \<longleftrightarrow> keys_distinct d \<and> list_all (\<lambda>kv. json_plain (snd kv)) d"
| "json_plain v \<longleftrightarrow> True"

text \<open>What a reader makes of a written value, given what it makes of the text of a float.\<close>

fun reread :: "(rat \<Rightarrow> pyfloat) \<Rightarrow> pyval \<Rightarrow> pyval" where
  "reread rd (PFloat f) = PFloat (case f of Fin q \<Rightarrow> rd q | _ \<Rightarrow> f)"
| "reread rd (PList vs) = PList (map (reread rd) vs)"
| "reread rd (PDict d) = PDict (map (\<lambda>kv. (fst kv, reread rd (snd kv))) d)"
| "reread rd v = v"

definition ends_value :: "string \<Rightarrow> bool" where
  "ends_value r \<longleftrightarrow> (case r of [] \<Rightarrow> True | c # r' \<Rightarrow> c \<in> {CHR '','', CHR '']'', CHR ''}''})"

lemma hex_lower_facts: "n < 16 \<Longrightarrow> hex_value (hex_lower n) = Some n"
proof -
  have "list_all (\<lambda>n. hex_value (hex_lower n) = Some n) [0..<16]" by code_simp
  then show "n < 16 \<Longrightarrow> hex_value (hex_lower n) = Some n" by (auto simp: list_all_iff)
qed

lemma escape_read: "json_string (Suc n) (escape_char c @ x) = add_char c (json_string n x)"
proof -
  have h: "hex_value (CHR ''0'') = Some 0" by code_simp
  have n: "(of_char c :: nat) < 256" by simp
  consider "c \<in> {quote, backslash, CHR 0x08, CHR 0x0C, CHR 0x0A, CHR 0x0D, CHR 0x09}"
    | "c \<notin> {quote, backslash, CHR 0x08, CHR 0x0C, CHR 0x0A, CHR 0x0D, CHR 0x09}" "32 \<le> (of_char c :: nat)" "(of_char c :: nat) \<le> 126"
    | "c \<notin> {quote, backslash, CHR 0x08, CHR 0x0C, CHR 0x0A, CHR 0x0D, CHR 0x09}"
      "\<not> (32 \<le> (of_char c :: nat) \<and> (of_char c :: nat) \<le> 126)"
    by blast
  then show ?thesis
  proof cases
    case 1
    then show ?thesis
      by (elim insertE emptyE) (simp_all add: escape_char_def quote_def backslash_def short_escapes_def)
  next
    case 2
    then show ?thesis by (simp add: escape_char_def Let_def char_in_def)
  next
    case 3
    have "four_hex (''00'' @ [hex_lower (of_char c div 16), hex_lower (of_char c mod 16)] @ x) = Some (of_char c, x)"
      using n hex_lower_facts [of "of_char c div 16"] hex_lower_facts [of "of_char c mod 16"]
      by (simp add: four_hex_def h less_mult_imp_div_less)
    then show ?thesis using 3 n
      by (auto simp: escape_char_def Let_def quote_def backslash_def)
  qed
qed

lemma escape_char_length: "0 < length (escape_char c)"
  by (simp add: escape_char_def Let_def)

lemma string_read:
  "length (concat (map escape_char s)) < n \<Longrightarrow>
    json_string n (concat (map escape_char s) @ quote # r) = Inr (s, r)"
proof (induction s arbitrary: n)
  case Nil
  then show ?case by (cases n) auto
next
  case (Cons c s)
  then obtain m where m: "n = Suc m" by (cases n) auto
  with Cons.prems escape_char_length [of c]
  have "json_string m (concat (map escape_char s) @ quote # r) = Inr (s, r)"
    by (intro Cons.IH) (simp del: length_greater_0_conv)
  then show ?case by (simp add: m escape_read add_char_def del: json_string.simps)
qed

lemma nat_text_first: "nat_text n = CHR ''0'' # r \<Longrightarrow> n = 0 \<and> r = []"
proof (induction n arbitrary: r rule: nat_text.induct)
  case (1 n)
  show ?case
  proof (cases "n < 10")
    case True
    then have "(of_char (char_of (48 + n)) :: nat) = 48 + n" by (rule of_char_digit)
    moreover have "char_of (48 + n) = CHR ''0''" "r = []"
      using 1(2) True by (subst (asm) nat_text.simps, simp)+
    ultimately show ?thesis by simp
  next
    case False
    then obtain c r' where c: "nat_text (n div 10) = c # r'" "c = CHR ''0''"
      using 1(2) by (subst (asm) nat_text.simps) (cases "nat_text (n div 10)", auto)
    then show ?thesis using 1(1) [OF False, of r'] False by auto
  qed
qed

lemma ends_value_not_digit: "ends_value r \<Longrightarrow> takeWhile is_digit r = [] \<and> dropWhile is_digit r = r"
  by (cases r) (auto simp: ends_value_def is_digit_def)

lemma scan_int_nat_text:
  assumes "ends_value r"
  shows "scan_int (nat_text n @ r) = Some (nat_text n, r)"
proof (cases "nat_text n")
  case (Cons c t)
  have d: "list_all is_digit (c # t)" using nat_text_digits [of n] Cons by simp
  then have "takeWhile is_digit (c # t @ r) = c # t" "dropWhile is_digit (c # t @ r) = r"
    using ends_value_not_digit [OF assms]
    by (auto simp: list_all_iff takeWhile_append2 dropWhile_append2)
  then show ?thesis using d nat_text_first [of n t] by (auto simp: scan_int_def Cons)
qed simp

lemma scan_number_int_text:
  assumes "ends_value r"
  shows "scan_number (int_text n @ r) = Some \<lparr>np_sign = (if n < 0 then ''-'' else []),
    np_int = nat_text (nat \<bar>n\<bar>), np_frac = [], np_exp = [], np_rest = r\<rparr>"
proof -
  have "scan_minus (int_text n @ r) = (if n < 0 then ''-'' else [], nat_text (nat \<bar>n\<bar>) @ r)"
  proof (cases "nat_text (nat n)")
    case (Cons c t)
    then have "c \<noteq> CHR ''-''" using nat_text_digits [of "nat n"] by (auto dest: digit_not_sign)
    then show ?thesis using Cons by (simp add: scan_minus_def int_text_def)
  qed simp
  moreover have "scan_frac r = ([], r)" "scan_exp r = ([], r)"
    using assms by (auto simp: ends_value_def scan_frac_def scan_exp_def split: list.splits)
  ultimately show ?thesis using assms by (simp add: scan_number_def scan_int_nat_text)
qed

text \<open>What a written value starts with: never a space, a comma or a closing bracket.\<close>

lemma int_text_first: "\<exists>c r. int_text n = c # r \<and> (c = CHR ''-'' \<and> (\<exists>d r'. r = d # r' \<and> is_digit d) \<or> is_digit c)"
proof -
  have "\<exists>d r'. nat_text m = d # r' \<and> is_digit d" for m
    using nat_text_digits [of m] by (cases "nat_text m") auto
  then show ?thesis by (simp add: int_text_def) metis
qed

text \<open>
  The assumption on \<open>float.__repr__\<close>: what it writes for a float is read as a float, whatever
  delimiter follows. For Python's own \<open>repr\<close>, \<open>rd q\<close> is \<open>q\<close>.
\<close>

definition float_texts :: "(rat \<Rightarrow> string) \<Rightarrow> (rat \<Rightarrow> pyfloat) \<Rightarrow> bool" where
  "float_texts fr rd \<longleftrightarrow> (\<forall>q r. ends_value r \<longrightarrow> json_scalar (fr q @ r) = Inr (PFloat (rd q), r) \<and>
     (\<exists>c t. fr q = c # t \<and> (c = CHR ''-'' \<or> is_digit c)))"

lemma float_textsD:
  assumes "float_texts fr rd"
  shows "ends_value r \<Longrightarrow> json_scalar (fr q @ r) = Inr (PFloat (rd q), r)"
    and "\<exists>c t. fr q = c # t \<and> (c = CHR ''-'' \<or> is_digit c)"
  using assms unfolding float_texts_def by (blast, metis ends_value_def list.case(1))

lemma text_first:
  assumes "json_valid v" "float_texts fr rd"
  obtains c r where "json_fmt sp fr v = c # r" "\<not> json_space c" "c \<notin> {CHR '','', CHR '']'', CHR ''}''}"
proof (cases v)
  case (PInt n)
  then show ?thesis
    using int_text_first [of n] that by (auto simp: is_digit_def json_space_def)
next
  case (PBool b)
  then show ?thesis using that by (cases b) (auto simp: json_space_def)
next
  case (PFloat f)
  then show ?thesis
  proof (cases f)
    case (Fin q)
    then show ?thesis
      using float_textsD(2) [OF assms(2), of q] PFloat that by (auto simp: is_digit_def json_space_def)
  qed (use PFloat that in \<open>auto simp: json_space_def\<close>)
qed (use assms that in \<open>auto simp: json_quote_def quote_def json_space_def\<close>)

lemma json_ws_text: "json_valid v \<Longrightarrow> float_texts fr rd \<Longrightarrow> json_ws (json_fmt sp fr v @ r) = json_fmt sp fr v @ r"
  by (rule text_first [of v fr rd sp]) (auto simp: json_ws_def)

lemma json_ws_Nil [simp]: "json_ws [] = []"
  by (simp add: json_ws_def)

lemma json_ws_first [simp]: "\<not> json_space c \<Longrightarrow> json_ws (c # r) = c # r"
  by (simp add: json_ws_def)

lemma json_ws_blank [simp]: "list_all json_space sp \<Longrightarrow> json_ws (sp @ r) = json_ws r"
  by (simp add: json_ws_def dropWhile_append2 list_all_iff)

lemma punctuation [simp]: "\<not> json_space (CHR '','')" "\<not> json_space (CHR '']'')" "\<not> json_space (CHR ''}'')"
  "\<not> json_space (CHR '':'')" "\<not> json_space quote" "ends_value (CHR '','' # r)" "ends_value (CHR '']'' # r)"
  "ends_value (CHR ''}'' # r)" "ends_value []"
  by (simp_all add: json_space_def quote_def ends_value_def)

lemma int_not_word: "find (\<lambda>(w, v). starts_with (int_text n @ r) w) json_words = None"
proof -
  obtain c t where c: "int_text n = c # t"
    "c = CHR ''-'' \<and> (\<exists>d r'. t = d # r' \<and> is_digit d) \<or> is_digit c"
    using int_text_first [of n] by (elim exE conjE) (rule that)
  have not_word: "is_digit d \<Longrightarrow> d \<notin> set ''ntfNI-''" for d
    by (auto simp: is_digit_def)
  show ?thesis
    using c(2)
  proof (elim disjE conjE exE)
    fix d r' assume "c = CHR ''-''" "t = d # r'" "is_digit d"
    with not_word [of d] show ?thesis by (simp add: json_words_def starts_with_def c(1))
  next
    assume "is_digit c"
    with not_word [of c] show ?thesis by (simp add: json_words_def starts_with_def c(1))
  qed
qed

lemma scalar_read:
  assumes "length (nat_text (nat \<bar>n\<bar>)) \<le> max_str_digits" "ends_value r"
  shows "json_scalar (int_text n @ r) = Inr (PInt n, r)"
  using assms
  by (simp add: json_scalar_def int_not_word scan_number_int_text number_value_def coding_simps)

lemma scalar_too_long:
  assumes "max_str_digits < length (nat_text (nat \<bar>n\<bar>))" "ends_value r"
  shows "json_scalar (int_text n @ r) = Inl Int_digits"
  using assms by (simp add: json_scalar_def int_not_word scan_number_int_text number_value_def)

text \<open>\<open>reads_back\<close>: with enough fuel the text of a value is read as that value.\<close>

definition reads_back :: "string \<Rightarrow> (rat \<Rightarrow> string) \<Rightarrow> (rat \<Rightarrow> pyfloat) \<Rightarrow> pyval \<Rightarrow> bool" where
  "reads_back sp fr rd v \<longleftrightarrow> (\<forall>n r. ends_value r \<longrightarrow> 2 * length (json_fmt sp fr v) < n \<longrightarrow>
     json_value n (json_fmt sp fr v @ r) = Inr (reread rd v, r))"

lemma reads_backD: "reads_back sp fr rd v \<Longrightarrow> ends_value r \<Longrightarrow> 2 * length (json_fmt sp fr v) < n \<Longrightarrow>
    json_value n (json_fmt sp fr v @ r) = Inr (reread rd v, r)"
  by (simp add: reads_back_def)

lemma elements_read:
  assumes style: "list_all json_space sp" "float_texts fr rd"
    and "\<forall>v \<in> set vs. json_valid v \<and> reads_back sp fr rd v" "vs \<noteq> []"
    and "2 * length (join_with (CHR '','' # sp) (map (json_fmt sp fr) vs)) + 1 < n"
  shows "json_elements n us (join_with (CHR '','' # sp) (map (json_fmt sp fr) vs) @ CHR '']'' # r)
    = Inr (PList (us @ map (reread rd) vs), r)"
  using assms(3-)
proof (induction vs arbitrary: n us)
  case (Cons v vs)
  obtain m where m: "n = Suc m" using Cons.prems by (cases n) auto
  show ?case
  proof (cases vs)
    case Nil
    then show ?thesis using Cons.prems by (simp add: m reads_backD [of sp fr rd])
  next
    case (Cons w ws)
    have j: "join_with (CHR '','' # sp) (map (json_fmt sp fr) (v # vs))
        = json_fmt sp fr v @ (CHR '','' # sp) @ join_with (CHR '','' # sp) (map (json_fmt sp fr) vs)"
      by (simp add: Cons)
    have "json_value m (json_fmt sp fr v @ CHR '','' # sp @
        join_with (CHR '','' # sp) (map (json_fmt sp fr) vs) @ CHR '']'' # r)
      = Inr (reread rd v, CHR '','' # sp @ join_with (CHR '','' # sp) (map (json_fmt sp fr) vs) @ CHR '']'' # r)"
      using Cons.prems j m by (intro reads_backD) auto
    moreover have "json_ws (join_with (CHR '','' # sp) (map (json_fmt sp fr) vs) @ x)
        = join_with (CHR '','' # sp) (map (json_fmt sp fr) vs) @ x" for x
      using Cons.prems style by (cases ws) (simp_all add: Cons json_ws_text)
    moreover have "json_elements m (us @ [reread rd v]) (join_with (CHR '','' # sp) (map (json_fmt sp fr) vs) @ CHR '']'' # r)
        = Inr (PList ((us @ [reread rd v]) @ map (reread rd) vs), r)"
      using Cons.prems Cons j m by (intro Cons.IH) auto
    ultimately show ?thesis using style by (simp add: m j del: join_with.simps list.map) simp
  qed
qed simp

lemma update_new: "k \<notin> fst ` set d \<Longrightarrow> AList.update k v d = d @ [(k, v)]"
  by (induction d) auto

abbreviation member_text :: "string \<Rightarrow> (rat \<Rightarrow> string) \<Rightarrow> string \<times> pyval \<Rightarrow> string" where
  "member_text sp fr kv \<equiv> json_quote (fst kv) @ CHR '':'' # sp @ json_fmt sp fr (snd kv)"

lemma member_read:
  assumes style: "list_all json_space sp" "float_texts fr rd"
    and "json_valid v" "reads_back sp fr rd v" "c = CHR '','' \<or> c = CHR ''}''"
    and "2 * length (member_text sp fr (k, v)) \<le> n"
  shows "json_members (Suc n) e (member_text sp fr (k, v) @ c # x) =
    (if c = CHR '','' then json_members n (AList.update k (reread rd v) e) (json_ws x)
     else Inr (PDict (AList.update k (reread rd v) e), x))"
proof -
  have "json_string n (concat (map escape_char k) @ quote # CHR '':'' # sp @ json_fmt sp fr v @ c # x)
      = Inr (k, CHR '':'' # sp @ json_fmt sp fr v @ c # x)"
    using assms(6) by (intro string_read) (simp add: json_quote_def)
  moreover have "json_value n (json_fmt sp fr v @ c # x) = Inr (reread rd v, c # x)"
    using assms by (intro reads_backD) (auto simp: json_quote_def)
  moreover have "json_ws (c # x) = c # x" using assms(5) by auto
  moreover have "json_ws (sp @ json_fmt sp fr v @ c # x) = json_fmt sp fr v @ c # x"
    using style assms(3) by (simp add: json_ws_text)
  ultimately show ?thesis using assms(5) by (auto simp: json_quote_def)
qed

lemma members_read:
  assumes style: "list_all json_space sp" "float_texts fr rd"
    and "\<forall>kv \<in> set d. json_valid (snd kv) \<and> reads_back sp fr rd (snd kv)" "d \<noteq> []"
    and "keys_distinct (e @ d)"
    and "2 * length (join_with (CHR '','' # sp) (map (member_text sp fr) d)) < n"
  shows "json_members n e (join_with (CHR '','' # sp) (map (member_text sp fr) d) @ CHR ''}'' # r)
    = Inr (PDict (e @ map (\<lambda>kv. (fst kv, reread rd (snd kv))) d), r)"
  using assms(3-)
proof (induction d arbitrary: n e)
  case (Cons kv d)
  obtain k v where kv: "kv = (k, v)" by (cases kv)
  obtain m where m: "n = Suc m" using Cons.prems by (cases n) auto
  have new: "AList.update k (reread rd v) e = e @ [(k, reread rd v)]"
    using Cons.prems(3) by (intro update_new) (auto simp: kv)
  show ?case
  proof (cases d)
    case Nil
    have "json_members (Suc m) e (member_text sp fr (k, v) @ CHR ''}'' # r)
        = Inr (PDict (AList.update k (reread rd v) e), r)"
      using Cons.prems style by (subst member_read [of sp fr rd]) (auto simp: kv Nil m)
    then show ?thesis by (simp add: kv Nil m new del: json_members.simps)
  next
    case (Cons w ws)
    let ?d = "join_with (CHR '','' # sp) (map (member_text sp fr) d)"
    have j: "join_with (CHR '','' # sp) (map (member_text sp fr) (kv # d)) = member_text sp fr (k, v) @ (CHR '','' # sp) @ ?d"
      by (simp add: Cons kv)
    have ws: "json_ws (?d @ CHR ''}'' # r) = ?d @ CHR ''}'' # r"
      by (cases ws) (simp_all add: Cons json_quote_def)
    have "json_members (Suc m) e (member_text sp fr (k, v) @ CHR '','' # sp @ ?d @ CHR ''}'' # r)
        = json_members m (AList.update k (reread rd v) e) (json_ws (sp @ ?d @ CHR ''}'' # r))"
      using Cons.prems j style by (subst member_read [of sp fr rd]) (auto simp: kv m)
    also have "\<dots> = json_members m (e @ [(k, reread rd v)]) (?d @ CHR ''}'' # r)"
      by (simp only: ws new json_ws_blank [OF style(1)])
    also have "\<dots> = Inr (PDict ((e @ [(k, reread rd v)]) @ map (\<lambda>kv. (fst kv, reread rd (snd kv))) d), r)"
      using Cons.prems Cons j by (intro Cons.IH) (auto simp: kv m)
    finally show ?thesis unfolding j m by (simp add: kv del: json_members.simps)
  qed
qed simp

lemma list_reads_back:
  assumes style: "list_all json_space sp" "float_texts fr rd"
    and "\<forall>v \<in> set vs. json_valid v \<and> reads_back sp fr rd v"
  shows "reads_back sp fr rd (PList vs)"
  unfolding reads_back_def
proof (intro allI impI)
  fix n r
  assume n: "2 * length (json_fmt sp fr (PList vs)) < n"
  then obtain m where m: "n = Suc m" by (cases n) auto
  show "json_value n (json_fmt sp fr (PList vs) @ r) = Inr (reread rd (PList vs), r)"
  proof (cases vs)
    case Nil
    then show ?thesis by (simp add: m quote_def)
  next
    case (Cons v ws)
    let ?x = "join_with (CHR '','' # sp) (map (json_fmt sp fr) vs) @ CHR '']'' # r"
    obtain c t where c: "json_fmt sp fr v = c # t" "\<not> json_space c" "c \<noteq> CHR '']''"
      using assms Cons by (auto elim: text_first [of v fr rd sp])
    then have x: "\<exists>y. ?x = c # y" by (cases ws) (auto simp: Cons)
    have "json_elements m [] ?x = Inr (PList ([] @ map (reread rd) vs), r)"
      using assms n by (intro elements_read) (auto simp: Cons m)
    then show ?thesis using x c by (auto simp: m quote_def)
  qed
qed

lemma dict_reads_back:
  assumes style: "list_all json_space sp" "float_texts fr rd"
    and "\<forall>kv \<in> set d. json_valid (snd kv) \<and> reads_back sp fr rd (snd kv)" "keys_distinct d"
  shows "reads_back sp fr rd (PDict d)"
  unfolding reads_back_def
proof (intro allI impI)
  fix n r
  assume n: "2 * length (json_fmt sp fr (PDict d)) < n"
  then obtain m where m: "n = Suc m" by (cases n) auto
  show "json_value n (json_fmt sp fr (PDict d) @ r) = Inr (reread rd (PDict d), r)"
  proof (cases d)
    case Nil
    then show ?thesis by (simp add: m quote_def)
  next
    case (Cons kv ws)
    let ?x = "join_with (CHR '','' # sp) (map (member_text sp fr) d) @ CHR ''}'' # r"
    have x: "\<exists>y. ?x = quote # y" by (cases ws) (auto simp: Cons json_quote_def)
    have "json_members m [] ?x = Inr (PDict ([] @ map (\<lambda>kv. (fst kv, reread rd (snd kv))) d), r)"
      using assms n by (intro members_read) (auto simp: Cons m)
    then show ?thesis using x by (auto simp: m quote_def json_space_def)
  qed
qed

lemma word_read: "0 < n \<Longrightarrow> json_value n (''null'' @ r) = Inr (PNone, r)"
  "0 < n \<Longrightarrow> json_value n (''true'' @ r) = Inr (PBool True, r)"
  "0 < n \<Longrightarrow> json_value n (''false'' @ r) = Inr (PBool False, r)"
  "0 < n \<Longrightarrow> json_value n (''NaN'' @ r) = Inr (PFloat NaN, r)"
  "0 < n \<Longrightarrow> json_value n (''Infinity'' @ r) = Inr (PFloat PosInf, r)"
  "0 < n \<Longrightarrow> json_value n (''-Infinity'' @ r) = Inr (PFloat NegInf, r)"
  by (cases n; simp add: quote_def json_scalar_def json_words_def starts_with_def)+

lemma scalar_value:
  assumes "c = CHR ''-'' \<or> is_digit c"
  shows "json_value (Suc n) (c # t) = json_scalar (c # t)"
  using assms by (auto simp: quote_def is_digit_def)

lemma valid_reads_back:
  assumes style: "list_all json_space sp" "float_texts fr rd"
  shows "json_valid v \<Longrightarrow> reads_back sp fr rd v"
proof (induction v rule: json_valid.induct)
  case (3 vs)
  then show ?case using style by (intro list_reads_back) (auto simp: list_all_iff)
next
  case (4 d)
  then show ?case using style by (intro dict_reads_back) (auto simp: list_all_iff)
next
  case (1 n)
  show ?case
    unfolding reads_back_def
  proof (intro allI impI)
    fix k r
    assume r: "ends_value r" and k: "2 * length (json_fmt sp fr (PInt n)) < k"
    obtain m where m: "k = Suc m" using k by (cases k) auto
    obtain c t where c: "int_text n = c # t" "c = CHR ''-'' \<or> is_digit c"
      using int_text_first [of n] by (elim exE conjE disjE) auto
    then show "json_value k (json_fmt sp fr (PInt n) @ r) = Inr (reread rd (PInt n), r)"
      using scalar_read [of n r] 1 r by (simp add: m scalar_value del: json_value.simps)
  qed
next
  fix f
  show "reads_back sp fr rd (PFloat f)"
  proof (cases f)
    case (Fin q)
    show ?thesis
      unfolding reads_back_def
    proof (intro allI impI)
      fix k r
      assume r: "ends_value r" and k: "2 * length (json_fmt sp fr (PFloat f)) < k"
      obtain m where m: "k = Suc m" using k by (cases k) auto
      obtain c t where "fr q = c # t" "c = CHR ''-'' \<or> is_digit c"
        using float_textsD(2) [OF style(2), of q] by (elim exE conjE) (rule that)
      then show "json_value k (json_fmt sp fr (PFloat f) @ r) = Inr (reread rd (PFloat f), r)"
        using float_textsD(1) [OF style(2) r, of q] by (simp add: Fin m scalar_value del: json_value.simps)
    qed
  qed (simp_all add: reads_back_def word_read del: append.simps split: if_splits)
next
  fix t
  show "reads_back sp fr rd (PStr t)"
    unfolding reads_back_def
  proof (intro allI impI)
    fix k r
    assume "2 * length (json_fmt sp fr (PStr t)) < k"
    moreover from this obtain m where "k = Suc m" by (cases k) auto
    ultimately show "json_value k (json_fmt sp fr (PStr t) @ r) = Inr (reread rd (PStr t), r)"
      by (simp add: json_quote_def string_read)
  qed
next
  show "reads_back sp fr rd PNone" by (simp add: reads_back_def word_read del: append.simps split: if_splits)
next
  fix b
  show "reads_back sp fr rd (PBool b)" by (simp add: reads_back_def word_read del: append.simps split: if_splits)
qed simp_all

theorem json_reread:
  assumes "json_valid v" "list_all json_space sp" "float_texts fr rd"
  shows "json_loads (json_fmt sp fr v) = Inr (reread rd v)"
proof -
  have "json_value (Suc (2 * length (json_fmt sp fr v))) (json_fmt sp fr v @ []) = Inr (reread rd v, [])"
    using valid_reads_back [OF assms(2,3,1)] by (intro reads_backD) auto
  then show ?thesis using json_ws_text [OF assms(1,3), of sp "[]"]
    by (simp add: json_loads_def del: json_value.simps)
qed

text \<open>A float text for every float, for values without floats.\<close>

definition half_text :: "rat \<Rightarrow> string" where
  "half_text q = ''0.5''"

lemma half_texts: "float_texts half_text (\<lambda>q. Fin (1 / 2))"
proof -
  have "json_scalar (half_text q @ r) = Inr (PFloat (Fin (1 / 2)), r)" if "ends_value r" for q r
  proof -
    have d: "takeWhile is_digit (CHR ''5'' # r) = ''5''" "dropWhile is_digit (CHR ''5'' # r) = r"
      using ends_value_not_digit [OF that] by (simp_all add: is_digit_def)
    have "scan_exp r = ([], r)" using that by (auto simp: ends_value_def scan_exp_def split: list.splits)
    then have "scan_number (half_text q @ r) = Some \<lparr>np_sign = [], np_int = ''0'', np_frac = ''.5'', np_exp = [], np_rest = r\<rparr>"
      by (simp add: half_text_def scan_number_def scan_minus_def scan_int_def scan_frac_def d del: takeWhile.simps dropWhile.simps)
    moreover have "number_value \<lparr>np_sign = [], np_int = ''0'', np_frac = ''.5'', np_exp = [], np_rest = r\<rparr> = Inr (PFloat (Fin (1 / 2)))"
      by (simp add: number_value_def) code_simp
    moreover have "find (\<lambda>(w, v). starts_with (half_text q @ r) w) json_words = None"
      by (simp add: json_words_def starts_with_def half_text_def)
    ultimately show ?thesis by (simp add: json_scalar_def)
  qed
  then show ?thesis by (simp add: float_texts_def half_text_def is_digit_def)
qed

lemma plain_valid: "json_plain v \<Longrightarrow> json_valid v"
  by (induction v rule: json_plain.induct) (auto simp: list_all_iff)

lemma plain_reread: "json_plain v \<Longrightarrow> reread rd v = v"
  by (induction v rule: json_plain.induct) (auto simp: list_all_iff map_idI)

lemma plain_text: "json_plain v \<Longrightarrow> json_fmt sp fr v = json_fmt sp half_text v"
  by (induction v rule: json_plain.induct) (auto simp: list_all_iff intro!: arg_cong2 [where f = join_with])

theorem json_roundtrip:
  assumes "json_plain v" shows "json_loads (json_text fr v) = Inr v"
  using json_reread [OF plain_valid [OF assms] _ half_texts, of "'' ''"]
  by (simp add: plain_text [OF assms, of _ fr] plain_reread [OF assms] json_space_def)

end
