(* ===== verification/Persist.thy ===== *)
theory Persist
  imports Json
begin

text \<open>
  Crash-safe persistence. \<open>atomic_write_bytes\<close> (\<open>utils/jsonio.py\<close>) as the sequence of file-system
  calls it makes, each of which the machine may crash after; and \<open>PersistedRegistry\<close>
  (\<open>devices/registry.py\<close>): the dirty flag, the synchronous \<open>save\<close>, the debounced \<open>flush\<close> whose
  write runs in a worker thread while the loop goes on, the flusher task and its stop.

  The serialised document and the contents of a registry are type parameters; \<open>ser\<close> is the
  subclass's \<open>_serialize\<close> followed by \<open>json.dumps\<close>, \<open>None\<close> when that raises.
\<close>

section \<open>Atomic file replacement\<close>

text \<open>
  A directory maps names to inodes. A write reaches the cache; only \<open>fsync\<close> makes it durable, and
  after a crash an inode holds what was durable. A rename is atomic and may become durable at once.
\<close>

record filesystem =
  fs_names :: "(string \<times> nat) list"
  fs_cache :: "(nat \<times> bytes) list"
  fs_durable :: "(nat \<times> bytes) list"

datatype fs_call =
    Mkstemp string nat
  | Write_all nat bytes
  | Fsync nat
  | Replace string string
  | Unlink string

fun fs_step :: "filesystem \<Rightarrow> fs_call \<Rightarrow> filesystem" where
  "fs_step fs (Mkstemp name i) =
     fs\<lparr>fs_names := AList.update name i (fs_names fs), fs_cache := AList.update i [] (fs_cache fs),
        fs_durable := AList.update i [] (fs_durable fs)\<rparr>"
| "fs_step fs (Write_all i b) = fs\<lparr>fs_cache := AList.update i b (fs_cache fs)\<rparr>"
| "fs_step fs (Fsync i) =
     (case map_of (fs_cache fs) i of
        Some b \<Rightarrow> fs\<lparr>fs_durable := AList.update i b (fs_durable fs)\<rparr> | None \<Rightarrow> fs)"
| "fs_step fs (Replace src dst) =
     (case map_of (fs_names fs) src of
        Some i \<Rightarrow> fs\<lparr>fs_names := AList.delete src (AList.update dst i (fs_names fs))\<rparr> | None \<Rightarrow> fs)"
| "fs_step fs (Unlink name) = fs\<lparr>fs_names := AList.delete name (fs_names fs)\<rparr>"

definition fs_crash :: "filesystem \<Rightarrow> filesystem" where
  "fs_crash fs = fs\<lparr>fs_cache := fs_durable fs\<rparr>"

definition fs_read :: "filesystem \<Rightarrow> string \<Rightarrow> bytes option" where
  "fs_read fs name = Option.bind (map_of (fs_names fs) name) (map_of (fs_cache fs))"

text \<open>
  The calls of a write that succeeds, and of one in which the \<open>n\<close>-th call raises: the exception
  handler removes the temporary file. \<open>mkstemp\<close> picks a fresh name and inode.
\<close>

definition write_calls :: "string \<Rightarrow> nat \<Rightarrow> string \<Rightarrow> bytes \<Rightarrow> fs_call list" where
  "write_calls tmp i target b = [Mkstemp tmp i, Write_all i b, Fsync i, Replace tmp target]"

definition atomic_write_bytes ::
    "nat option \<Rightarrow> string \<Rightarrow> nat \<Rightarrow> string \<Rightarrow> bytes \<Rightarrow> filesystem \<Rightarrow> bool \<times> filesystem" where
  "atomic_write_bytes fails_at tmp i target b fs =
     (case fails_at of
        None \<Rightarrow> (True, foldl fs_step fs (write_calls tmp i target b))
      | Some 0 \<Rightarrow> (False, fs)
      | Some n \<Rightarrow>
          if n \<ge> length (write_calls tmp i target b)
          then (True, foldl fs_step fs (write_calls tmp i target b))
          else (False, fs_step (foldl fs_step fs (take n (write_calls tmp i target b))) (Unlink tmp)))"

definition fresh_temp :: "filesystem \<Rightarrow> string \<Rightarrow> nat \<Rightarrow> string \<Rightarrow> bool" where
  "fresh_temp fs tmp i target \<longleftrightarrow>
     tmp \<noteq> target \<and> map_of (fs_names fs) tmp = None \<and> i \<notin> snd ` set (fs_names fs)
     \<and> map_of (fs_cache fs) i = None"

section \<open>The registry's writer\<close>

record ('e, 'doc) persisted =
  reg_entries :: 'e
  persist_path :: "string option"
  reg_dirty :: bool
  flusher :: bool
  writers :: "('doc \<times> bool) list"
  disk :: "'doc option"

text \<open>
  \<open>flusher\<close>: a flusher task is live on the running loop. \<open>writers\<close>: the texts handed to worker
  threads and not yet written, each with whether the coroutine that started it still awaits it
  (a cancelled flush no longer does, but its thread goes on).
\<close>

definition reg_save ::
    "('e \<Rightarrow> 'doc option) \<Rightarrow> bool \<Rightarrow> ('e, 'doc) persisted \<Rightarrow> ('e, 'doc) persisted" where
  "reg_save ser io r =
     (case persist_path r of
        None \<Rightarrow> r\<lparr>reg_dirty := False\<rparr>
      | Some _ \<Rightarrow>
          (case ser (reg_entries r) of
             None \<Rightarrow> r\<lparr>reg_dirty := False\<rparr>
           | Some doc \<Rightarrow>
               if io then r\<lparr>reg_dirty := False, disk := Some doc\<rparr> else r\<lparr>reg_dirty := True\<rparr>))"

text \<open>Whether \<open>save\<close> raises: only for an entry that cannot be serialised, after the flag is cleared.\<close>

definition reg_save_raises :: "('e \<Rightarrow> 'doc option) \<Rightarrow> ('e, 'doc) persisted \<Rightarrow> bool" where
  "reg_save_raises ser r \<longleftrightarrow> persist_path r \<noteq> None \<and> ser (reg_entries r) = None"

definition ensure_flusher :: "bool \<Rightarrow> ('e, 'doc) persisted \<Rightarrow> bool \<times> ('e, 'doc) persisted" where
  "ensure_flusher loop r = (if loop then (True, r\<lparr>flusher := True\<rparr>) else (False, r))"

definition mark_dirty ::
    "('e \<Rightarrow> 'doc option) \<Rightarrow> bool \<Rightarrow> bool \<Rightarrow> ('e, 'doc) persisted \<Rightarrow> ('e, 'doc) persisted" where
  "mark_dirty ser loop io r =
     (if persist_path r = None then r
      else (case ensure_flusher loop (r\<lparr>reg_dirty := True\<rparr>) of
              (True, r') \<Rightarrow> r' | (False, r') \<Rightarrow> reg_save ser io r'))"

text \<open>\<open>flush\<close> up to its \<open>await\<close>, and the end of a worker's write.\<close>

definition flush_begin ::
    "('e \<Rightarrow> 'doc option) \<Rightarrow> ('e, 'doc) persisted \<Rightarrow> ('e, 'doc) persisted" where
  "flush_begin ser r =
     (if \<not> reg_dirty r \<or> persist_path r = None then r
      else (case ser (reg_entries r) of
              None \<Rightarrow> r\<lparr>reg_dirty := False\<rparr>
            | Some doc \<Rightarrow> r\<lparr>reg_dirty := False, writers := writers r @ [(doc, True)]\<rparr>))"

definition write_end :: "nat \<Rightarrow> bool \<Rightarrow> ('e, 'doc) persisted \<Rightarrow> ('e, 'doc) persisted" where
  "write_end n io r =
     (if n < length (writers r) then
        (let (doc, awaited) = writers r ! n;
             r' = r\<lparr>writers := take n (writers r) @ drop (Suc n) (writers r)\<rparr>
         in if io then r'\<lparr>disk := Some doc\<rparr>
            else if awaited then r'\<lparr>reg_dirty := True\<rparr> else r')
      else r)"

text \<open>
  \<open>stop\<close>: the flusher is cancelled, so no write under way is awaited any more; what is still
  pending is saved, by the task's done callback or by \<open>stop\<close> itself.
\<close>

definition reg_stop ::
    "('e \<Rightarrow> 'doc option) \<Rightarrow> bool \<Rightarrow> ('e, 'doc) persisted \<Rightarrow> ('e, 'doc) persisted" where
  "reg_stop ser io r =
     (let r' = r\<lparr>flusher := False, writers := map (\<lambda>(doc, _). (doc, False)) (writers r)\<rparr>
      in if reg_dirty r' then reg_save ser io r' else r')"

datatype 'e reg_event =
    Registered 'e bool
  | Changed 'e bool bool
  | Flush_begin
  | Write_end nat bool
  | Start bool
  | Stop bool

text \<open>
  One step of the process: a registration (stored and saved), a change (stored and marked dirty;
  with or without a running loop), the flusher waking up when no write of its own is under way,
  the end of a write, start and stop. The second flag of each says whether the disk takes a write.
\<close>

fun reg_step ::
    "('e \<Rightarrow> 'doc option) \<Rightarrow> ('e, 'doc) persisted \<Rightarrow> 'e reg_event \<Rightarrow> ('e, 'doc) persisted" where
  "reg_step ser r (Registered e io) = reg_save ser io (r\<lparr>reg_entries := e\<rparr>)"
| "reg_step ser r (Changed e loop io) = mark_dirty ser loop io (r\<lparr>reg_entries := e\<rparr>)"
| "reg_step ser r Flush_begin =
     (if flusher r \<and> list_all (\<lambda>w. \<not> snd w) (writers r) then flush_begin ser r else r)"
| "reg_step ser r (Write_end n io) = write_end n io r"
| "reg_step ser r (Start loop) = snd (ensure_flusher loop r)"
| "reg_step ser r (Stop io) = reg_stop ser io r"

text \<open>
  The steps that write through, and the runs in which none of them comes while a worker is
  writing. Nothing in the code keeps to such runs.
\<close>

fun writes_through :: "'e reg_event \<Rightarrow> bool" where
  "writes_through (Registered e io) = True"
| "writes_through (Changed e loop io) = (\<not> loop)"
| "writes_through (Stop io) = True"
| "writes_through e = False"

fun undisturbed :: "('e \<Rightarrow> 'doc option) \<Rightarrow> ('e, 'doc) persisted \<Rightarrow> 'e reg_event list \<Rightarrow> bool" where
  "undisturbed ser r [] = True"
| "undisturbed ser r (e # es) =
     ((writers r = [] \<or> \<not> writes_through e) \<and> undisturbed ser (reg_step ser r e) es)"

text \<open>
  The invariant: at most one write is under way and it is awaited; a clean registry with nothing
  under way is what the file holds, and a clean one with a write under way is what is being
  written. Nothing is claimed of contents that cannot be serialised.
\<close>

definition file_current :: "('e \<Rightarrow> 'doc option) \<Rightarrow> ('e, 'doc) persisted \<Rightarrow> bool" where
  "file_current ser r \<longleftrightarrow>
     persist_path r = None
     \<or> (case writers r of
          [] \<Rightarrow> reg_dirty r \<or> ser (reg_entries r) = None \<or> disk r = ser (reg_entries r)
        | [(doc, awaited)] \<Rightarrow>
            awaited \<and> (reg_dirty r \<or> ser (reg_entries r) = None \<or> ser (reg_entries r) = Some doc)
        | _ \<Rightarrow> False)"

section \<open>Lemmas\<close>

lemmas persist_defs = reg_save_def mark_dirty_def ensure_flusher_def flush_begin_def write_end_def
  reg_stop_def

lemma writers_cases:
  assumes "file_current ser r" and "persist_path r \<noteq> None"
  obtains "writers r = []" | doc where "writers r = [(doc, True)]"
  using assms unfolding file_current_def
  by (cases "writers r"; cases "tl (writers r)") auto

lemma save_current: "writers r = [] \<Longrightarrow> file_current ser (reg_save ser io r)"
  by (simp add: reg_save_def file_current_def split: option.splits)

lemma save_path [simp]: "persist_path (reg_save ser io r) = persist_path r"
  by (simp add: reg_save_def split: option.splits)

lemma reg_step_path [simp]: "persist_path (reg_step ser r e) = persist_path r"
  by (cases e) (auto simp: persist_defs Let_def split: option.splits prod.splits)

lemma run_path [simp]: "persist_path (foldl (reg_step ser) r es) = persist_path r"
  by (induction es arbitrary: r) simp_all

lemma reg_step_current:
  assumes "file_current ser r" and "writers r = [] \<or> \<not> writes_through e"
  shows "file_current ser (reg_step ser r e)"
proof (cases "persist_path r")
  case None
  then show ?thesis by (simp add: file_current_def)
next
  case (Some p)
  then have "persist_path r \<noteq> None" by simp
  with assms(1) have "writers r = [] \<or> (\<exists>doc. writers r = [(doc, True)])"
    by (meson writers_cases)
  then show ?thesis
    using assms Some
    by (elim disjE exE; cases e) (auto simp: file_current_def persist_defs Let_def
        split: option.splits if_splits)
qed

lemma run_current:
  "file_current ser r \<Longrightarrow> undisturbed ser r es \<Longrightarrow> file_current ser (foldl (reg_step ser) r es)"
  by (induction es arbitrary: r) (auto intro: reg_step_current)

text \<open>Once clean with nothing under way, a registry writes only what a new change or a save gives it.\<close>

fun brings_change :: "'e reg_event \<Rightarrow> bool" where
  "brings_change (Registered e io) = True"
| "brings_change (Changed e loop io) = True"
| "brings_change e = False"

lemma settled_step:
  assumes "\<not> reg_dirty r" and "writers r = []" and "\<not> brings_change e"
  shows "\<not> reg_dirty (reg_step ser r e)" "writers (reg_step ser r e) = []"
    "disk (reg_step ser r e) = disk r" "reg_entries (reg_step ser r e) = reg_entries r"
  using assms by (cases e; simp add: persist_defs Let_def)+

lemma settled_run:
  "\<not> reg_dirty r \<Longrightarrow> writers r = [] \<Longrightarrow> \<not> list_ex brings_change es \<Longrightarrow>
   \<not> reg_dirty (foldl (reg_step ser) r es) \<and> disk (foldl (reg_step ser) r es) = disk r
   \<and> reg_entries (foldl (reg_step ser) r es) = reg_entries r"
proof (induction es arbitrary: r)
  case (Cons e es)
  then show ?case using settled_step [of r e ser] Cons.IH [of "reg_step ser r e"] by simp
qed simp

section \<open>Properties\<close>

text \<open>
  C18: a crash after any of the calls of an atomic write leaves the target readable with its old
  contents or with all of the new ones, never a part: the data is made durable before the rename.
\<close>

theorem crash_keeps_old_or_new:
  assumes "fresh_temp fs tmp i target" and "fs_cache fs = fs_durable fs"
  shows "fs_read (fs_crash (foldl fs_step fs (take n (write_calls tmp i target b)))) target
    \<in> {fs_read fs target, Some b}"
proof -
  have fresh: "map_of (fs_names fs) target \<noteq> Some i"
    using assms by (auto simp: fresh_temp_def dest!: map_of_SomeD intro: rev_image_eqI)
  have "n = 0 \<or> n = 1 \<or> n = 2 \<or> n = 3 \<or> n \<ge> 4" by auto
  then show ?thesis
    using assms fresh
    by (elim disjE) (auto simp: write_calls_def fresh_temp_def fs_read_def fs_crash_def numeral_eq_Suc
        lookup_update lookup_delete bind_eq_None_conv split: option.splits bind_splits)
qed

text \<open>
  A write that fails leaves every name of the directory as it was, the temporary file removed
  and the target untouched.
\<close>

theorem failed_write_changes_nothing:
  assumes "atomic_write_bytes fails_at tmp i target b fs = (False, fs')"
    and "fresh_temp fs tmp i target"
  shows "map_of (fs_names fs') = map_of (fs_names fs) \<and> fs_read fs' target = fs_read fs target"
proof -
  have fresh: "map_of (fs_names fs) target \<noteq> Some i"
    using assms(2) by (auto simp: fresh_temp_def dest!: map_of_SomeD intro: rev_image_eqI)
  obtain n where n: "fails_at = Some n" "n < 4"
    using assms(1) by (auto simp: atomic_write_bytes_def write_calls_def split: option.splits nat.splits if_splits)
  then have "n = 0 \<or> n = 1 \<or> n = 2 \<or> n = 3" by auto
  then show ?thesis
    using assms fresh n
    by (elim disjE) (auto simp: atomic_write_bytes_def write_calls_def fresh_temp_def fs_read_def
        numeral_eq_Suc lookup_update lookup_delete fun_upd_idem_iff split: option.splits bind_splits)
qed

theorem crash_keeps_old_or_new_witness:
  "fs_read (fs_crash (foldl fs_step
      \<lparr>fs_names = [(''devices.json'', 4)], fs_cache = [(4, [1])], fs_durable = [(4, [1])]\<rparr>
      (take 2 (write_calls ''.devices.json.x.tmp'' 5 ''devices.json'' [2, 3])))) ''devices.json''
   \<in> {Some [1], Some [2, 3]}"
proof -
  let ?fs = "\<lparr>fs_names = [(''devices.json'', 4)], fs_cache = [(4, [1])], fs_durable = [(4, [1])]\<rparr>"
  have "fresh_temp ?fs ''.devices.json.x.tmp'' 5 ''devices.json''" by (simp add: fresh_temp_def)
  from crash_keeps_old_or_new [OF this, of 2 "[2, 3]"] show ?thesis by (simp add: fs_read_def)
qed

theorem failed_write_changes_nothing_witness:
  "fs_read (snd (atomic_write_bytes (Some 2) ''t.tmp'' 5 ''t'' [2, 3]
      \<lparr>fs_names = [(''t'', 4)], fs_cache = [(4, [1])], fs_durable = [(4, [1])]\<rparr>)) ''t'' = Some [1]"
proof -
  let ?fs = "\<lparr>fs_names = [(''t'', 4)], fs_cache = [(4, [1])], fs_durable = [(4, [1])]\<rparr>"
  have ok: "fst (atomic_write_bytes (Some 2) ''t.tmp'' 5 ''t'' [2, 3] ?fs) = False"
    by code_simp
  have fresh: "fresh_temp ?fs ''t.tmp'' 5 ''t''" by (simp add: fresh_temp_def)
  have "fs_read (snd (atomic_write_bytes (Some 2) ''t.tmp'' 5 ''t'' [2, 3] ?fs)) ''t'' = fs_read ?fs ''t''"
    using failed_write_changes_nothing [OF _ fresh, of "Some 2" "[2, 3]"] ok
    by (cases "atomic_write_bytes (Some 2) ''t.tmp'' 5 ''t'' [2, 3] ?fs") simp
  then show ?thesis by (simp add: fs_read_def)
qed

text \<open>
  C11: as long as no save, stop or change outside a running loop comes while a flush's write is under
  way, the file is current whenever the registry is clean and nothing is under way, after any other
  sequence of registrations, changes, flushes, failed and successful writes, starts and stops; what
  cannot be serialised is excepted.
\<close>

theorem clean_file_is_current:
  assumes "file_current ser r" and "persist_path r \<noteq> None" and "undisturbed ser r es"
    and "s = foldl (reg_step ser) r es"
    and "\<not> reg_dirty s" and "writers s = []" and "ser (reg_entries s) \<noteq> None"
  shows "disk s = ser (reg_entries s)"
proof -
  have "file_current ser s" unfolding assms(4) by (rule run_current [OF assms(1,3)])
  moreover have "persist_path s \<noteq> None" using assms(2) by (simp add: assms(4))
  ultimately show ?thesis using assms(5-7) by (auto simp: file_current_def)
qed

text \<open>A new registry whose contents are a number, serialised as itself.\<close>

definition new_counter :: "(int, int) persisted" where
  "new_counter =
     \<lparr>reg_entries = 0, persist_path = Some ''devices.json'', reg_dirty = False, flusher = False,
      writers = [], disk = Some 0\<rparr>"

theorem clean_file_is_current_witness:
  "disk (foldl (reg_step Some) new_counter
     [Start True, Changed 5 True True, Flush_begin, Changed 6 True True, Write_end 0 False, Flush_begin,
      Write_end 0 True, Registered 7 True, Stop True]) = Some 7"
proof -
  define es :: "int reg_event list" where
    "es = [Start True, Changed 5 True True, Flush_begin, Changed 6 True True, Write_end 0 False, Flush_begin,
      Write_end 0 True, Registered 7 True, Stop True]"
  define s where "s = foldl (reg_step Some) new_counter es"
  have facts: "\<not> reg_dirty s" "writers s = []" "reg_entries s = 7"
    by (simp_all add: s_def es_def new_counter_def persist_defs)
  have "disk s = Some (reg_entries s)"
  proof (rule clean_file_is_current)
    show "file_current Some new_counter" by (simp add: file_current_def new_counter_def)
    show "persist_path new_counter \<noteq> None" by (simp add: new_counter_def)
    show "undisturbed Some new_counter es" by (simp add: es_def new_counter_def persist_defs)
    show "s = foldl (reg_step Some) new_counter es" by (rule s_def)
  qed (use facts in simp_all)
  then show ?thesis using facts by (simp add: s_def es_def)
qed

text \<open>
  One debounced write of a dirty registry. If the disk takes it, the file holds the contents
  the flush started from and the registry is clean; if not, the file is untouched and the change
  stays queued. A change made while the write is under way is not lost either: the registry is
  dirty again when the write ends.
\<close>

theorem flush_outcome:
  assumes "reg_dirty r" and "persist_path r \<noteq> None" and "flusher r" and "writers r = []"
    and "ser (reg_entries r) = Some doc"
  shows "disk (foldl (reg_step ser) r [Flush_begin, Write_end 0 True]) = Some doc
    \<and> \<not> reg_dirty (foldl (reg_step ser) r [Flush_begin, Write_end 0 True])
    \<and> disk (foldl (reg_step ser) r [Flush_begin, Write_end 0 False]) = disk r
    \<and> reg_dirty (foldl (reg_step ser) r [Flush_begin, Write_end 0 False])
    \<and> reg_dirty (foldl (reg_step ser) r [Flush_begin, Changed e True io, Write_end 0 True])"
proof -
  obtain p where "persist_path r = Some p" using assms(2) by auto
  then show ?thesis using assms by (simp add: persist_defs)
qed

theorem flush_outcome_witness:
  "disk (foldl (reg_step Some) (new_counter\<lparr>reg_dirty := True, flusher := True, reg_entries := 9\<rparr>)
     [Flush_begin, Write_end 0 True]) = Some 9"
proof -
  let ?r = "new_counter\<lparr>reg_dirty := True, flusher := True, reg_entries := 9\<rparr>"
  have "disk (foldl (reg_step Some) ?r [Flush_begin, Write_end 0 True]) = Some 9
    \<and> \<not> reg_dirty (foldl (reg_step Some) ?r [Flush_begin, Write_end 0 True])
    \<and> disk (foldl (reg_step Some) ?r [Flush_begin, Write_end 0 False]) = disk ?r
    \<and> reg_dirty (foldl (reg_step Some) ?r [Flush_begin, Write_end 0 False])
    \<and> reg_dirty (foldl (reg_step Some) ?r [Flush_begin, Changed 0 True True, Write_end 0 True])"
    by (rule flush_outcome) (simp_all add: new_counter_def)
  then show ?thesis by blast
qed

text \<open>
  C38: a save made while a flush's write is under way is undone by it: the save reaches the file, then
  the worker replaces it with the older text it was given, the registry is clean, and the file stays
  so through flushes, starts and stops until something is registered or changed again. When the
  worker's write fails instead, the file keeps what was saved.
\<close>

theorem flush_overwrites_registration:
  assumes "persist_path r \<noteq> None" and "writers r = [(old, awaited)]" and "ser e = Some new"
    and "\<not> list_ex brings_change es"
  shows "disk (reg_step ser r (Registered e True)) = Some new
    \<and> (let s = foldl (reg_step ser) r ([Registered e True, Write_end 0 True] @ es)
       in \<not> reg_dirty s \<and> reg_entries s = e \<and> disk s = Some old)
    \<and> disk (foldl (reg_step ser) r [Registered e True, Write_end 0 False]) = Some new"
proof -
  obtain p where p: "persist_path r = Some p" using assms(1) by auto
  let ?s = "foldl (reg_step ser) r [Registered e True, Write_end 0 True]"
  have "\<not> reg_dirty ?s" "writers ?s = []" "reg_entries ?s = e" "disk ?s = Some old"
    using assms(2,3) p by (simp_all add: persist_defs)
  then show ?thesis
    using settled_run [of ?s es ser] assms p by (simp add: persist_defs Let_def)
qed

theorem flush_overwrites_registration_witness:
  "let s = foldl (reg_step Some) new_counter
             [Start True, Changed 5 True True, Flush_begin, Registered 6 True, Write_end 0 True, Flush_begin]
   in \<not> reg_dirty s \<and> reg_entries s = 6 \<and> disk s = Some 5"
proof -
  let ?r = "foldl (reg_step Some) new_counter [Start True, Changed 5 True True, Flush_begin]"
  have "persist_path ?r \<noteq> None" "writers ?r = [(5, True)]"
    by (simp_all add: new_counter_def persist_defs)
  from flush_overwrites_registration [OF this, of Some 6 6 "[Flush_begin]"] show ?thesis by simp
qed

text \<open>
  The same at shutdown: \<open>stop\<close> saves the pending change, but the cancelled flush's thread goes
  on and replaces the file with its older text, or, when its write fails, leaves no trace that a
  change it carried was lost.
\<close>

theorem stop_loses_change:
  "let s = foldl (reg_step Some) new_counter
             [Start True, Changed a True True, Flush_begin, Changed b True True, Stop True, Write_end 0 True];
       t = foldl (reg_step Some) new_counter
             [Start True, Changed a True True, Flush_begin, Stop True, Write_end 0 False]
   in \<not> reg_dirty s \<and> reg_entries s = b \<and> disk s = Some a
      \<and> \<not> reg_dirty t \<and> reg_entries t = a \<and> disk t = Some 0"
  by (simp add: new_counter_def persist_defs)

end
