(* ===== verification/Device_Registry.thy ===== *)
theory Device_Registry
  imports Persist Device
begin

text \<open>
  The registry of WiFi devices (\<open>DeviceRegistry\<close> in \<open>devices/registry.py\<close>): lookup, registration
  on first contact, filling the blanks of a device that comes back, removal, and the document it is
  persisted as. Its storage is a dictionary from ids to devices in insertion order; its writer is
  the one of theory \<open>Persist\<close>.
\<close>

section \<open>Documents\<close>

type_synonym devices = "(int \<times> device) list"
type_synonym device_registry = "(devices, pyval) persisted"

definition serialize_devices :: "devices \<Rightarrow> pyval" where
  "serialize_devices es = PDict (map (\<lambda>(pid, d). (int_text pid, PDict (device_to_dict d))) es)"

definition dump_devices :: "devices \<Rightarrow> pyval option" where
  "dump_devices es = (if json_able (serialize_devices es) then Some (serialize_devices es) else None)"

text \<open>
  \<open>_restore\<close>: entry by entry, an unreadable one or one without a usable id is skipped. The
  constructor draws fresh credentials for every entry, here by its key.
\<close>

definition restore_device :: "(string \<Rightarrow> minted) \<Rightarrow> devices \<Rightarrow> string \<times> pyval \<Rightarrow> devices" where
  "restore_device mint es kv =
     (case snd kv of
        PDict data \<Rightarrow>
          (case device_from_dict (mint (fst kv)) data of
             Inl _ \<Rightarrow> es
           | Inr d \<Rightarrow>
               if petkit_id d \<le> 0 then es
               else AList.update (petkit_id d) (merge_default_settings d) es)
      | _ \<Rightarrow> es)"

definition restore_devices :: "(string \<Rightarrow> minted) \<Rightarrow> pyval \<Rightarrow> devices \<Rightarrow> devices" where
  "restore_devices mint data es =
     (case data of PDict kvs \<Rightarrow> foldl (restore_device mint) es kvs | _ \<Rightarrow> es)"

text \<open>\<open>__init__\<close> with the file's document, \<open>None\<close> when it is missing or does not parse.\<close>

definition load_devices :: "(string \<Rightarrow> minted) \<Rightarrow> string option \<Rightarrow> pyval option \<Rightarrow> device_registry" where
  "load_devices mint path doc =
     \<lparr>reg_entries =
        (case (path, doc) of (Some _, Some data) \<Rightarrow> restore_devices mint data [] | _ \<Rightarrow> []),
      persist_path = path, reg_dirty = False, flusher = False, writers = [], disk = doc\<rparr>"

section \<open>Operations\<close>

definition get_device :: "int \<Rightarrow> device_registry \<Rightarrow> device option" where
  "get_device pid r = map_of (reg_entries r) pid"

definition all_devices :: "device_registry \<Rightarrow> device list" where
  "all_devices r = map snd (reg_entries r)"

definition by_mqtt_name :: "string \<Rightarrow> string \<Rightarrow> device_registry \<Rightarrow> device option" where
  "by_mqtt_name key name r =
     find (\<lambda>d. mqtt_product_key d = key \<and> mqtt_device_name d = name) (map snd (reg_entries r))"

definition by_serial :: "string \<Rightarrow> device_registry \<Rightarrow> device option" where
  "by_serial sn r =
     (if sn = [] then None else find (\<lambda>d. serial_number d = sn) (map snd (reg_entries r)))"

text \<open>
  The environment of a call that writes: whether an event loop runs, whether the disk takes the
  write, and the values a new device would draw.
\<close>

record env =
  env_loop :: bool
  env_io :: bool
  env_mint :: minted

text \<open>A device that comes back: only blanks are filled, and the firmware version follows.\<close>

definition refill :: "string \<Rightarrow> string \<Rightarrow> string \<Rightarrow> device \<Rightarrow> bool \<times> device" where
  "refill sn hw fw d =
     (let c1 = sn \<noteq> [] \<and> serial_number d = [];
          d1 = (if c1 then d\<lparr>serial_number := sn,
                  mqtt_device_name := ''d_'' @ device_type d @ ''_'' @ sn\<rparr> else d);
          c2 = hw \<noteq> [] \<and> mac d1 = [];
          d2 = (if c2 then d1\<lparr>mac := hw\<rparr> else d1);
          c3 = fw \<noteq> [] \<and> fw \<noteq> firmware d2;
          d3 = (if c3 then d2\<lparr>firmware := fw\<rparr> else d2)
      in (c1 \<or> c2 \<or> c3, d3))"

definition get_or_create ::
    "env \<Rightarrow> int \<Rightarrow> string \<Rightarrow> string \<Rightarrow> string \<Rightarrow> string \<Rightarrow> device_registry \<Rightarrow> device \<times> device_registry" where
  "get_or_create env pid dtype sn hw fw r =
     (case map_of (reg_entries r) pid of
        Some d \<Rightarrow>
          (let (changed, d') = refill sn hw fw d
           in if changed
              then (d', mark_dirty dump_devices (env_loop env) (env_io env)
                          (r\<lparr>reg_entries := AList.update pid d' (reg_entries r)\<rparr>))
              else (d', r))
      | None \<Rightarrow>
          (let d = merge_default_settings (new_device (env_mint env) dtype pid sn hw fw [])
           in (d, reg_save dump_devices (env_io env)
                    (r\<lparr>reg_entries := AList.update pid d (reg_entries r)\<rparr>))))"

definition remove_device :: "env \<Rightarrow> int \<Rightarrow> device_registry \<Rightarrow> device option \<times> device_registry" where
  "remove_device env pid r =
     (case map_of (reg_entries r) pid of
        None \<Rightarrow> (None, r)
      | Some d \<Rightarrow>
          (Some d, reg_save dump_devices (env_io env)
             (r\<lparr>reg_entries := AList.delete pid (reg_entries r)\<rparr>)))"

section \<open>What a registration may change\<close>

text \<open>
  The calls of \<open>get_or_create\<close> as events. None changes who a device is: id, type, both sets of
  credentials and the configuration stay, a known serial number, the broker name derived from it and a
  known MAC stay. The handlers that make these calls are in theory \<open>Signup\<close>.
\<close>

datatype registration = Registration env int string string string string

fun registers :: "device_registry \<Rightarrow> registration \<Rightarrow> device_registry" where
  "registers r (Registration env pid dtype sn hw fw) = snd (get_or_create env pid dtype sn hw fw r)"

definition same_identity :: "device \<Rightarrow> device \<Rightarrow> bool" where
  "same_identity d d' \<longleftrightarrow>
     petkit_id d' = petkit_id d \<and> device_type d' = device_type d
     \<and> mqtt_product_key d' = mqtt_product_key d \<and> mqtt_device_secret d' = mqtt_device_secret d
     \<and> api_secret d' = api_secret d \<and> dev_config d' = dev_config d
     \<and> (serial_number d \<noteq> [] \<longrightarrow>
          serial_number d' = serial_number d \<and> mqtt_device_name d' = mqtt_device_name d)
     \<and> (mac d \<noteq> [] \<longrightarrow> mac d' = mac d)"

text \<open>Between two states no device is forgotten, and each is related to what it was.\<close>

definition keeps_devices :: "(device \<Rightarrow> device \<Rightarrow> bool) \<Rightarrow> device_registry \<Rightarrow> device_registry \<Rightarrow> bool" where
  "keeps_devices rel r r' \<longleftrightarrow>
     (\<forall>(pid, d) \<in> set (reg_entries r).
        case map_of (reg_entries r') pid of Some d' \<Rightarrow> rel d d' | None \<Rightarrow> False)"

definition registry_ok :: "device_registry \<Rightarrow> bool" where
  "registry_ok r \<longleftrightarrow>
     keys_distinct (reg_entries r) \<and> list_all (\<lambda>(pid, d). petkit_id d = pid) (reg_entries r)"

section \<open>Lemmas\<close>

lemma save_entries [simp]: "reg_entries (reg_save ser io r) = reg_entries r"
  by (simp add: reg_save_def split: option.splits)

lemma mark_dirty_entries [simp]: "reg_entries (mark_dirty ser loop io r) = reg_entries r"
  by (simp add: mark_dirty_def ensure_flusher_def)

lemma mark_dirty_path [simp]: "persist_path (mark_dirty ser loop io r) = persist_path r"
  by (simp add: mark_dirty_def ensure_flusher_def)

lemma refill_identity: "same_identity d (snd (refill sn hw fw d))"
  by (simp add: refill_def same_identity_def Let_def)

lemma refill_unchanged: "\<not> fst (refill sn hw fw d) \<Longrightarrow> snd (refill sn hw fw d) = d"
  by (cases "sn \<noteq> [] \<and> serial_number d = []"; cases "hw \<noteq> [] \<and> mac d = []";
      cases "fw \<noteq> [] \<and> fw \<noteq> firmware d") (auto simp: refill_def Let_def)

lemma refill_id [simp]: "petkit_id (snd (refill sn hw fw d)) = petkit_id d"
  by (simp add: refill_def Let_def)

lemma merge_keeps [simp]:
  "petkit_id (merge_default_settings d) = petkit_id d"
  "device_type (merge_default_settings d) = device_type d"
  "serial_number (merge_default_settings d) = serial_number d"
  "mac (merge_default_settings d) = mac d"
  "mqtt_product_key (merge_default_settings d) = mqtt_product_key d"
  "mqtt_device_name (merge_default_settings d) = mqtt_device_name d"
  "mqtt_device_secret (merge_default_settings d) = mqtt_device_secret d"
  "api_secret (merge_default_settings d) = api_secret d"
  by (simp_all add: merge_default_settings_def Let_def split: option.splits pyval.splits)

lemma new_device_id [simp]:
  "petkit_id (new_device m dtype pid sn hw fw wt) = pid"
  by (simp add: new_device_def device_post_init_def)

text \<open>The device a sign-up returns, and the entries it leaves.\<close>

definition signed_up :: "env \<Rightarrow> int \<Rightarrow> string \<Rightarrow> string \<Rightarrow> string \<Rightarrow> string \<Rightarrow> devices \<Rightarrow> device" where
  "signed_up env pid dtype sn hw fw es =
     (case map_of es pid of
        Some d \<Rightarrow> snd (refill sn hw fw d)
      | None \<Rightarrow> merge_default_settings (new_device (env_mint env) dtype pid sn hw fw []))"

lemma get_or_create_entries:
  "map_of (reg_entries (snd (get_or_create env pid dtype sn hw fw r)))
     = (map_of (reg_entries r))(pid \<mapsto> signed_up env pid dtype sn hw fw (reg_entries r))"
proof (cases "map_of (reg_entries r) pid")
  case None
  then show ?thesis by (simp add: get_or_create_def signed_up_def lookup_update Let_def)
next
  case (Some d)
  then show ?thesis
    using refill_unchanged [of sn hw fw d]
    by (cases "refill sn hw fw d")
      (simp add: get_or_create_def signed_up_def lookup_update fun_upd_idem)
qed

lemma get_or_create_distinct:
  "keys_distinct (reg_entries r) \<Longrightarrow>
   keys_distinct (reg_entries (snd (get_or_create env pid dtype sn hw fw r)))"
  by (simp add: get_or_create_def Let_def del: keys_update split: option.splits prod.splits)

lemma keyed_lookup:
  "keys_distinct es \<Longrightarrow>
   list_all (\<lambda>(pid, d). P pid d) es \<longleftrightarrow> (\<forall>pid d. map_of es pid = Some d \<longrightarrow> P pid d)"
  by (auto simp: list_all_iff dest: map_of_SomeD)

lemma get_or_create_ok:
  assumes "registry_ok r" shows "registry_ok (snd (get_or_create env pid dtype sn hw fw r))"
proof -
  have dist: "keys_distinct (reg_entries r)" using assms by (simp add: registry_ok_def)
  then have keyed: "petkit_id d = k" if "map_of (reg_entries r) k = Some d" for k d
    using assms that unfolding registry_ok_def by (auto simp: list_all_iff)
  have "petkit_id (signed_up env pid dtype sn hw fw (reg_entries r)) = pid"
    by (auto simp: signed_up_def keyed split: option.splits simp del: map_of_eq_Some_iff)
  then show ?thesis
    using keyed get_or_create_distinct [OF dist]
    by (simp add: registry_ok_def keyed_lookup get_or_create_entries del: map_of_eq_Some_iff)
qed

lemma keeps_lookup:
  assumes "keys_distinct (reg_entries r)"
  shows "keeps_devices rel r r' \<longleftrightarrow>
    (\<forall>pid d. map_of (reg_entries r) pid = Some d \<longrightarrow>
       (\<exists>d'. map_of (reg_entries r') pid = Some d' \<and> rel d d'))"
  using assms by (fastforce simp: keeps_devices_def split: option.splits)

lemma keeps_trans:
  assumes rel: "\<And>d e f. rel d e \<Longrightarrow> rel e f \<Longrightarrow> rel d f"
    and rs: "keeps_devices rel r s" and st: "keeps_devices rel s t"
  shows "keeps_devices rel r t"
  unfolding keeps_devices_def
proof (intro ballI, clarify)
  fix pid d
  assume d: "(pid, d) \<in> set (reg_entries r)"
  from rs d obtain e where e: "map_of (reg_entries s) pid = Some e" "rel d e"
    unfolding keeps_devices_def by (fastforce split: option.splits)
  from st map_of_SomeD [OF e(1)] obtain f where "map_of (reg_entries t) pid = Some f" "rel e f"
    unfolding keeps_devices_def by (fastforce split: option.splits)
  with e show "case map_of (reg_entries t) pid of Some d' \<Rightarrow> rel d d' | None \<Rightarrow> False"
    by (auto intro: rel)
qed

lemma registration_keeps:
  "registry_ok r \<Longrightarrow> (\<And>d. rel d d) \<Longrightarrow> (\<And>d d'. same_identity d d' \<Longrightarrow> rel d d') \<Longrightarrow>
   keeps_devices rel r (snd (get_or_create env pid dtype sn hw fw r))"
  by (auto simp: registry_ok_def keeps_lookup get_or_create_entries signed_up_def refill_identity
      simp del: map_of_eq_Some_iff)

definition survived :: "device \<Rightarrow> device" where
  "survived d = merge_default_settings (after_restart d)"

lemma after_restart_id [simp]: "petkit_id (after_restart d) = petkit_id d"
  by (simp add: after_restart_def)

lemma restore_entry:
  "0 < petkit_id d \<Longrightarrow> petkit_id d \<notin> fst ` set es \<Longrightarrow>
   restore_device mint es (k, PDict (device_to_dict d)) = es @ [(petkit_id d, survived d)]"
proof -
  assume "0 < petkit_id d" and "petkit_id d \<notin> fst ` set es"
  moreover have "AList.update k v es = es @ [(k, v)]" if "k \<notin> fst ` set es" for k v
    and es :: devices
    using that by (induction es) auto
  ultimately show ?thesis by (simp add: restore_device_def from_to_dict survived_def)
qed

lemma restore_serialized:
  "\<forall>(pid, d) \<in> set es. petkit_id d = pid \<and> 0 < pid \<Longrightarrow> distinct (map fst (acc @ es)) \<Longrightarrow>
   foldl (restore_device mint) acc (map (\<lambda>(pid, d). (int_text pid, PDict (device_to_dict d))) es)
     = acc @ map (\<lambda>(pid, d). (pid, survived d)) es"
proof (induction es arbitrary: acc)
  case (Cons e es)
  obtain pid d where e: "e = (pid, d)" by (cases e)
  have "restore_device mint acc (int_text pid, PDict (device_to_dict d)) = acc @ [(pid, survived d)]"
    using Cons.prems restore_entry [of d acc mint "int_text pid"] by (auto simp: e)
  then show ?case using Cons.prems Cons.IH [of "acc @ [(pid, survived d)]"] by (simp add: e)
qed simp

lemma restore_document:
  "registry_ok r \<Longrightarrow> \<forall>pid \<in> set (map fst (reg_entries r)). 0 < pid \<Longrightarrow>
   restore_devices mint (serialize_devices (reg_entries r)) []
     = map (\<lambda>(pid, d). (pid, survived d)) (reg_entries r)"
  using restore_serialized [of "reg_entries r" "[]" mint]
  by (fastforce simp: restore_devices_def serialize_devices_def registry_ok_def list_all_iff)

lemma save_new_disk:
  "persist_path r = Some p \<Longrightarrow> ser (reg_entries r) = Some doc \<Longrightarrow>
   disk (reg_save ser True r) = Some doc \<and> \<not> reg_dirty (reg_save ser True r)"
  by (simp add: reg_save_def)

section \<open>Properties\<close>

definition sample_env :: env where
  "sample_env = \<lparr>env_loop = True, env_io = True,
     env_mint = \<lparr>minted_key = ''a1KEY'', minted_secret = ''s3cret'', minted_time = 0\<rparr>\<rparr>"

definition sample_registry :: device_registry where
  "sample_registry = snd (get_or_create sample_env 9 ''t5'' [] [] ''1.0''
     \<lparr>reg_entries = [], persist_path = Some ''devices.json'', reg_dirty = False, flusher = False,
      writers = [], disk = None\<rparr>)"

lemma sample_registry_ok: "registry_ok sample_registry"
  unfolding sample_registry_def by (rule get_or_create_ok) (simp add: registry_ok_def)

lemma sample_registry_device:
  "map_of (reg_entries sample_registry) 9 =
     Some (merge_default_settings (new_device (env_mint sample_env) ''t5'' 9 [] [] ''1.0'' []))"
  by (simp add: sample_registry_def get_or_create_entries signed_up_def)

text \<open>
  The registry file gives back every device: restoring the document of a well-formed registry
  whose ids are positive yields the same ids in the same order, each with the device that its own
  record restores to, completed with the default settings it lacked.
\<close>

theorem devices_document_roundtrip:
  assumes "registry_ok r" and "\<forall>pid \<in> set (map fst (reg_entries r)). 0 < pid"
  shows "restore_devices mint (serialize_devices (reg_entries r)) []
    = map (\<lambda>(pid, d). (pid, survived d)) (reg_entries r)"
  using assms by (rule restore_document)

theorem devices_document_roundtrip_witness:
  "map fst (restore_devices (\<lambda>_. env_mint sample_env) (serialize_devices (reg_entries sample_registry)) [])
   = [9]"
proof -
  have keys: "map fst (reg_entries sample_registry) = [9]"
    by (simp add: sample_registry_def get_or_create_def Let_def)
  then have "\<forall>pid \<in> set (map fst (reg_entries sample_registry)). 0 < pid" by simp
  from devices_document_roundtrip [OF sample_registry_ok this, of "\<lambda>_. env_mint sample_env"]
  have "map fst (restore_devices (\<lambda>_. env_mint sample_env) (serialize_devices (reg_entries sample_registry)) [])
    = map fst (reg_entries sample_registry)"
    by (simp add: comp_def split_def del: set_map)
  then show ?thesis using keys by simp
qed

text \<open>
  C10: a first contact survives a crash the moment it is answered: when the disk takes the write,
  the file loaded by the next process holds the new device under its id, with the credentials and
  the API secret the answer was built from, whatever is drawn for the others meanwhile.
\<close>

theorem registration_survives_crash:
  assumes "registry_ok r" and "\<forall>k \<in> set (map fst (reg_entries r)). 0 < k" and "0 < pid"
    and "map_of (reg_entries r) pid = None" and "persist_path r = Some path" and "env_io env"
    and "get_or_create env pid dtype sn hw fw r = (d, r')"
    and "json_able (serialize_devices (reg_entries r'))"
  shows "\<not> reg_dirty r'
    \<and> (\<exists>d'. get_device pid (load_devices mint (Some path) (disk r')) = Some d'
         \<and> mqtt_product_key d' = mqtt_product_key d \<and> mqtt_device_name d' = mqtt_device_name d
         \<and> mqtt_device_secret d' = mqtt_device_secret d \<and> api_secret d' = api_secret d)"
proof -
  let ?r = "r\<lparr>reg_entries := AList.update pid d (reg_entries r)\<rparr>"
  have r': "r' = reg_save dump_devices True ?r"
    using assms(4,6,7) by (auto simp: get_or_create_def Let_def)
  have ok: "registry_ok r'" using get_or_create_ok [OF assms(1)] assms(7) by (metis snd_conv)
  have keys: "\<forall>k \<in> set (map fst (reg_entries r')). 0 < k"
    using assms(2,3) by (auto simp: r' simp del: set_map)
  have "dump_devices (reg_entries ?r) = Some (serialize_devices (reg_entries r'))"
    using assms(8) by (simp add: r' dump_devices_def)
  with assms(5) have disk: "disk r' = Some (serialize_devices (reg_entries r')) \<and> \<not> reg_dirty r'"
    using save_new_disk [of ?r path dump_devices] by (simp add: r')
  have look: "map_of (reg_entries r') pid = Some d" by (simp add: r' lookup_update)
  have map: "map_of (map (\<lambda>(k, d). (k, survived d)) es) pid = map_option survived (map_of es pid)" for es
    by (induction es) auto
  have "get_device pid (load_devices mint (Some path) (disk r')) = Some (survived d)"
    using restore_document [OF ok keys, of mint]
    by (simp add: get_device_def load_devices_def disk map look)
  then show ?thesis
    using disk by (auto simp: survived_def after_restart_def)
qed

definition empty_registry :: device_registry where
  "empty_registry =
     \<lparr>reg_entries = [], persist_path = Some ''devices.json'', reg_dirty = False, flusher = False,
      writers = [], disk = None\<rparr>"

theorem registration_survives_crash_witness:
  "\<exists>d'. get_device 9 (load_devices (\<lambda>_. env_mint sample_env) (Some ''devices.json'')
       (disk (snd (get_or_create sample_env 9 ''k3'' [] [] [] empty_registry)))) = Some d'
     \<and> mqtt_device_secret d' = ''s3cret''"
proof -
  obtain d r' where g: "get_or_create sample_env 9 ''k3'' [] [] [] empty_registry = (d, r')"
    by (cases "get_or_create sample_env 9 ''k3'' [] [] [] empty_registry")
  then have d: "d = merge_default_settings (new_device (env_mint sample_env) ''k3'' 9 [] [] [] [])"
    and e: "reg_entries r' = [(9, d)]"
    by (auto simp: get_or_create_def empty_registry_def Let_def)
  have "json_able (serialize_devices [(9, merge_default_settings
      (new_device \<lparr>minted_key = ''a1KEY'', minted_secret = ''s3cret'', minted_time = 0\<rparr> ''k3'' 9 [] [] [] []))])"
    by code_simp
  then have "json_able (serialize_devices (reg_entries r'))" by (simp add: e d sample_env_def)
  with registration_survives_crash [OF _ _ _ _ _ _ g, of "''devices.json''" "\<lambda>_. env_mint sample_env"]
  obtain d' where "get_device 9 (load_devices (\<lambda>_. env_mint sample_env) (Some ''devices.json'') (disk r')) = Some d'"
    and "mqtt_device_secret d' = mqtt_device_secret d"
    by (auto simp: empty_registry_def registry_ok_def sample_env_def)
  moreover have "mqtt_device_secret d = ''s3cret''"
    by (simp add: d new_device_def device_post_init_def sample_env_def)
  ultimately show ?thesis by (simp add: g)
qed

text \<open>
  The broker's lookup answers with a registered device that has exactly the claimed product key
  and device name, and with nothing only when no registered device has; a device that has just
  signed up is always found under the credentials it was answered with.
\<close>

theorem by_mqtt_name_spec:
  "(case by_mqtt_name key name r of
      Some d \<Rightarrow> d \<in> set (all_devices r) \<and> mqtt_product_key d = key \<and> mqtt_device_name d = name
    | None \<Rightarrow> \<forall>d \<in> set (all_devices r). mqtt_product_key d \<noteq> key \<or> mqtt_device_name d \<noteq> name)
   \<and> (let (d, r') = get_or_create env pid dtype sn hw fw r
      in by_mqtt_name (mqtt_product_key d) (mqtt_device_name d) r' \<noteq> None)"
proof -
  obtain d r' where g: "get_or_create env pid dtype sn hw fw r = (d, r')" by fastforce
  then have "map_of (reg_entries r') pid = Some d"
    using get_or_create_entries [of env pid dtype sn hw fw r]
    by (auto simp: get_or_create_def signed_up_def Let_def split: option.splits prod.splits if_splits)
  then have "d \<in> set (map snd (reg_entries r'))" by (force dest: map_of_SomeD)
  then have "by_mqtt_name (mqtt_product_key d) (mqtt_device_name d) r' \<noteq> None"
    unfolding by_mqtt_name_def find_None_iff by blast
  moreover have "case by_mqtt_name key name r of
      Some d \<Rightarrow> d \<in> set (all_devices r) \<and> mqtt_product_key d = key \<and> mqtt_device_name d = name
    | None \<Rightarrow> \<forall>d \<in> set (all_devices r). mqtt_product_key d \<noteq> key \<or> mqtt_device_name d \<noteq> name"
    by (auto simp: by_mqtt_name_def all_devices_def find_None_iff find_Some_iff split: option.split)
  ultimately show ?thesis by (simp add: g)
qed

theorem by_mqtt_name_spec_witness:
  "by_mqtt_name ''a1KEY'' ''d_t5_9'' sample_registry \<noteq> None"
proof -
  have "int_text 9 = ''9''" by code_simp
  then have name: "map mqtt_product_key (all_devices sample_registry) = [''a1KEY'']
    \<and> map mqtt_device_name (all_devices sample_registry) = [''d_t5_9'']"
    by (simp add: all_devices_def sample_registry_def get_or_create_def Let_def new_device_def
        device_post_init_def derived_name_def sample_env_def)
  then show ?thesis
    using by_mqtt_name_spec [where key = "''a1KEY''" and name = "''d_t5_9''" and r = sample_registry]
    by (cases "by_mqtt_name ''a1KEY'' ''d_t5_9'' sample_registry") auto
qed

text \<open>
  A serial number that arrives late renames the device at the broker, so the name the broker
  issued credentials against is no longer known: the sign-up that fills a blank does rewrite one
  field of the identity.
\<close>

theorem late_serial_renames:
  assumes "map_of (reg_entries r) pid = Some d" and "serial_number d = []" and "sn \<noteq> []"
  shows "mqtt_device_name (fst (get_or_create env pid dtype sn hw fw r)) = ''d_'' @ device_type d @ ''_'' @ sn
    \<and> reg_dirty (snd (get_or_create (env\<lparr>env_loop := True\<rparr>) pid dtype sn hw fw r))
        = (persist_path r \<noteq> None \<or> reg_dirty r)"
  using assms by (auto simp: get_or_create_def refill_def Let_def mark_dirty_def ensure_flusher_def)

theorem late_serial_renames_witness:
  "mqtt_device_name (fst (get_or_create sample_env 9 ''t5'' ''SN1'' [] [] sample_registry)) = ''d_t5_SN1''"
  using late_serial_renames [OF sample_registry_device, where sn = "''SN1''" and env = sample_env
      and dtype = "''t5''" and hw = "[]" and fw = "[]"]
  by (simp add: new_device_def device_post_init_def)

end
