(* ===== verification/Ble_Registry.thy ===== *)
theory Ble_Registry
  imports Persist Ble_Device
begin

text \<open>
  The store of Bluetooth accessories (\<open>BLERegistry\<close> in \<open>devices/ble/registry.py\<close>): registration and
  update, the lookups by MAC and by parent, removal, the bindings read out of a cloud reply and
  their import, and the persisted document. The writer is the one of theory \<open>Persist\<close>.
\<close>

section \<open>The persisted form\<close>

definition state_value :: "(string \<times> pydict) list \<Rightarrow> pyval" where
  "state_value st = PDict (map (\<lambda>(k, d). (k, PDict d)) st)"

definition ble_to_dict :: "ble_device \<Rightarrow> pydict" where
  "ble_to_dict d =
     [(''ble_type'', PStr (ble_type d)), (''petkit_id'', PInt (ble_petkit_id d)),
      (''serial_number'', PStr (ble_serial_number d)), (''mac'', PStr (ble_mac d)),
      (''secret'', PStr (ble_secret d)), (''link_with'', PInt (ble_link_with d)),
      (''interval'', PInt (ble_interval d)), (''scan_type'', PInt (ble_scan_type d)),
      (''last_seen'', PFloat (Fin (ble_last_seen d))), (''state'', state_value (ble_state d)),
      (''config'', PDict (ble_config d)), (''settings'', PDict (ble_settings d))]"

text \<open>
  \<open>from_dict\<close>: a missing field takes its default, the two without one raise. The record is typed, so
  a value of another type than \<open>to_dict\<close> writes is a type error here.
\<close>

definition read_int :: "pydict \<Rightarrow> string \<Rightarrow> int \<Rightarrow> py_exc + int" where
  "read_int m k dflt =
     (case map_of m k of None \<Rightarrow> Inr dflt | Some (PInt n) \<Rightarrow> Inr n | _ \<Rightarrow> Inl TypeError)"

definition read_text :: "pydict \<Rightarrow> string \<Rightarrow> string \<Rightarrow> py_exc + string" where
  "read_text m k dflt =
     (case map_of m k of None \<Rightarrow> Inr dflt | Some (PStr s) \<Rightarrow> Inr s | _ \<Rightarrow> Inl TypeError)"

definition read_dict :: "pydict \<Rightarrow> string \<Rightarrow> py_exc + pydict" where
  "read_dict m k =
     (case map_of m k of None \<Rightarrow> Inr [] | Some (PDict d) \<Rightarrow> Inr d | _ \<Rightarrow> Inl TypeError)"

definition read_epoch :: "pydict \<Rightarrow> string \<Rightarrow> py_exc + rat" where
  "read_epoch m k =
     (case map_of m k of None \<Rightarrow> Inr 0 | Some (PFloat (Fin q)) \<Rightarrow> Inr q | _ \<Rightarrow> Inl TypeError)"

fun read_sections :: "pydict \<Rightarrow> py_exc + (string \<times> pydict) list" where
  "read_sections [] = Inr []"
| "read_sections ((k, PDict d) # m) = ebind (read_sections m) (\<lambda>st. Inr ((k, d) # st))"
| "read_sections (_ # m) = Inl TypeError"

definition ble_from_dict :: "pydict \<Rightarrow> py_exc + ble_device" where
  "ble_from_dict m =
     (if map_of m ''ble_type'' = None \<or> map_of m ''petkit_id'' = None then Inl TypeError
      else
        ebind (read_text m ''ble_type'' []) (\<lambda>ty.
        ebind (read_int m ''petkit_id'' 0) (\<lambda>pid.
        ebind (read_text m ''serial_number'' []) (\<lambda>sn.
        ebind (read_text m ''mac'' []) (\<lambda>hw.
        ebind (read_text m ''secret'' []) (\<lambda>sec.
        ebind (read_int m ''link_with'' 0) (\<lambda>link.
        ebind (read_int m ''interval'' 240) (\<lambda>iv.
        ebind (read_int m ''scan_type'' 0) (\<lambda>scan.
        ebind (read_epoch m ''last_seen'') (\<lambda>seen.
        ebind (read_dict m ''state'') (\<lambda>sts.
        ebind (read_sections sts) (\<lambda>st.
        ebind (read_dict m ''config'') (\<lambda>cfg.
        ebind (read_dict m ''settings'') (\<lambda>sets.
          Inr (ble_post_init
            \<lparr>ble_type = ty, ble_petkit_id = pid, ble_serial_number = sn, ble_mac = hw,
             ble_secret = sec, ble_link_with = link, ble_interval = iv, ble_scan_type = scan,
             ble_last_seen = seen, ble_state = st, ble_config = cfg,
             ble_settings = sets\<rparr>)))))))))))))))"

type_synonym accessories = "(int \<times> ble_device) list"
type_synonym ble_registry = "(accessories, pyval) persisted"

definition serialize_accessories :: "accessories \<Rightarrow> pyval" where
  "serialize_accessories es = PDict (map (\<lambda>(pid, d). (int_text pid, PDict (ble_to_dict d))) es)"

definition dump_accessories :: "accessories \<Rightarrow> pyval option" where
  "dump_accessories es =
     (if json_able (serialize_accessories es) then Some (serialize_accessories es) else None)"

definition restore_accessory :: "accessories \<Rightarrow> string \<times> pyval \<Rightarrow> accessories" where
  "restore_accessory es kv =
     (case snd kv of
        PDict data \<Rightarrow>
          (case ble_from_dict data of Inl _ \<Rightarrow> es | Inr d \<Rightarrow> AList.update (ble_petkit_id d) d es)
      | _ \<Rightarrow> es)"

definition restore_accessories :: "pyval \<Rightarrow> accessories \<Rightarrow> accessories" where
  "restore_accessories data es =
     (case data of PDict kvs \<Rightarrow> foldl restore_accessory es kvs | _ \<Rightarrow> es)"

section \<open>Lookups\<close>

definition get_by_mac :: "string \<Rightarrow> ble_registry \<Rightarrow> ble_device option" where
  "get_by_mac m r =
     (let wanted = normalize_mac m
      in if wanted = [] then None
         else find (\<lambda>d. normalize_mac (ble_mac d) = wanted) (map snd (reg_entries r)))"

definition get_linked :: "int \<Rightarrow> ble_registry \<Rightarrow> ble_device list" where
  "get_linked parent r = filter (\<lambda>d. ble_link_with d = parent) (map snd (reg_entries r))"

definition get_linked_k3 :: "int \<Rightarrow> ble_registry \<Rightarrow> ble_device option" where
  "get_linked_k3 parent r =
     find (\<lambda>d. ble_link_with d = parent \<and> ble_type d = ''k3'') (map snd (reg_entries r))"

definition non_k3_for_parent :: "int \<Rightarrow> ble_registry \<Rightarrow> ble_device list" where
  "non_k3_for_parent parent r =
     filter (\<lambda>d. ble_link_with d = parent \<and> ble_type d \<noteq> ''k3'') (map snd (reg_entries r))"

definition remove_accessory :: "bool \<Rightarrow> int \<Rightarrow> ble_registry \<Rightarrow> bool \<times> ble_registry" where
  "remove_accessory io pid r =
     (if \<not> has_key (reg_entries r) pid then (False, r)
      else (True, reg_save dump_accessories io
                    (r\<lparr>reg_entries := AList.delete pid (reg_entries r)\<rparr>)))"

section \<open>Registration\<close>

text \<open>The keyword arguments of \<open>register\<close>; \<open>None\<close> is an argument that is not passed.\<close>

record ble_fields =
  f_type :: "string option"
  f_id :: "int option"
  f_serial :: "string option"
  f_mac :: "string option"
  f_secret :: "string option"
  f_link :: "int option"
  f_interval :: "int option"
  f_scan :: "int option"
  f_config :: "pydict option"
  f_settings :: "pydict option"

definition k3_default_config :: pydict where
  "k3_default_config =
     [(''standard'', PList [PInt 5, PInt 30]), (''lightness'', PInt 100), (''lowVoltage'', PInt 5),
      (''refreshTotalTime'', PInt 11500), (''singleRefreshTime'', PInt 25), (''singleLightTime'', PInt 120)]"

definition dict_eq :: "pydict \<Rightarrow> pydict \<Rightarrow> bool" where
  "dict_eq a b = py_eq (PDict a) (PDict b)"

text \<open>
  One assignment of the update loop: an argument that is passed, truthy and different from the
  stored value overwrites it.
\<close>

definition overwrite :: "'a option \<Rightarrow> 'a \<Rightarrow> ('a \<Rightarrow> 'a \<Rightarrow> bool) \<Rightarrow> 'a \<Rightarrow> bool \<times> 'a" where
  "overwrite arg blank eq old =
     (case arg of Some v \<Rightarrow> if v \<noteq> blank \<and> \<not> eq old v then (True, v) else (False, old)
      | None \<Rightarrow> (False, old))"

definition update_fields :: "ble_fields \<Rightarrow> ble_device \<Rightarrow> bool \<times> ble_device" where
  "update_fields f d =
     (let (c1, ty) = overwrite (f_type f) [] (=) (ble_type d);
          (c2, pid) = overwrite (f_id f) 0 (=) (ble_petkit_id d);
          (c3, sn) = overwrite (f_serial f) [] (=) (ble_serial_number d);
          (c4, hw) = overwrite (f_mac f) [] (=) (ble_mac d);
          (c5, sec) = overwrite (f_secret f) [] (=) (ble_secret d);
          (c6, link) = overwrite (f_link f) 0 (=) (ble_link_with d);
          (c7, iv) = overwrite (f_interval f) 0 (=) (ble_interval d);
          (c8, scan) = overwrite (f_scan f) 0 (=) (ble_scan_type d);
          (c9, cfg) = overwrite (f_config f) [] dict_eq (ble_config d);
          (c10, sets) = overwrite (f_settings f) [] dict_eq (ble_settings d)
      in (c1 \<or> c2 \<or> c3 \<or> c4 \<or> c5 \<or> c6 \<or> c7 \<or> c8 \<or> c9 \<or> c10,
          d\<lparr>ble_type := ty, ble_petkit_id := pid, ble_serial_number := sn, ble_mac := hw,
            ble_secret := sec, ble_link_with := link, ble_interval := iv, ble_scan_type := scan,
            ble_config := cfg, ble_settings := sets\<rparr>))"

definition or_default :: "'a option \<Rightarrow> 'a \<Rightarrow> 'a" where
  "or_default x dflt = (case x of Some v \<Rightarrow> v | None \<Rightarrow> dflt)"

definition new_accessory :: "ble_fields \<Rightarrow> py_exc + ble_device" where
  "new_accessory f =
     (case (f_type f, f_id f) of
        (Some ty, Some pid) \<Rightarrow>
          Inr (ble_post_init
            \<lparr>ble_type = ty, ble_petkit_id = pid, ble_serial_number = or_default (f_serial f) [],
             ble_mac = or_default (f_mac f) [], ble_secret = or_default (f_secret f) [],
             ble_link_with = or_default (f_link f) 0, ble_interval = or_default (f_interval f) 240,
             ble_scan_type = or_default (f_scan f) 0, ble_last_seen = 0, ble_state = [],
             ble_config = or_default (f_config f) [], ble_settings = or_default (f_settings f) []\<rparr>)
      | _ \<Rightarrow> Inl TypeError)"

definition register ::
    "bool \<Rightarrow> bool \<Rightarrow> ble_fields \<Rightarrow> ble_registry \<Rightarrow> py_exc + ble_device \<times> ble_registry" where
  "register loop io f r =
     (let pid = or_default (f_id f) 0 in
      case map_of (reg_entries r) pid of
        Some d \<Rightarrow>
          (let (changed, d') = update_fields f d
           in if changed
              then Inr (d', mark_dirty dump_accessories loop io
                              (r\<lparr>reg_entries := AList.update pid d' (reg_entries r)\<rparr>))
              else Inr (d, r))
      | None \<Rightarrow>
          ebind (new_accessory f) (\<lambda>d.
            let d' = (if ble_type d = ''k3'' \<and> ble_config d = []
                      then d\<lparr>ble_config := k3_default_config\<rparr> else d)
            in Inr (d', reg_save dump_accessories io
                          (r\<lparr>reg_entries := AList.update pid d' (reg_entries r)\<rparr>))))"

section \<open>Bindings of the PetKit account\<close>

definition k3_setting_keys :: "string list" where
  "k3_setting_keys = [''liquidLackSwitch'', ''fixedTimeRefresh'']"

definition entry_get :: "pydict \<Rightarrow> string \<Rightarrow> pyval \<Rightarrow> pyval" where
  "entry_get d k dflt = (case map_of d k of Some v \<Rightarrow> v | None \<Rightarrow> dflt)"

text \<open>\<open>to_int(v, dflt) or dflt\<close>.\<close>

definition int_or :: "pyval \<Rightarrow> int \<Rightarrow> int" where
  "int_or v dflt =
     (case to_int v of Some n \<Rightarrow> if n = 0 then dflt else n | None \<Rightarrow> dflt)"

definition cloud_binding :: "(pyval \<Rightarrow> string) \<Rightarrow> pyval \<Rightarrow> int \<Rightarrow> string \<Rightarrow> ble_fields option" where
  "cloud_binding repr entry parent ty =
     (case entry of
        PDict e \<Rightarrow>
          (let m = normalize_mac (py_str repr (entry_get e ''mac'' (PStr [])));
               pid = int_or (entry_get e ''id'' PNone) 0;
               cloud_type = int_or (entry_get e ''type'' PNone) 0
           in if m = [] \<or> pid \<le> 0 then None
              else Some
                \<lparr>f_type = Some (if ty \<noteq> [] then ty
                    else (case map_of cloud_ble_types cloud_type of Some t \<Rightarrow> t | None \<Rightarrow> [])),
                 f_id = Some pid,
                 f_serial = (case map_of e ''sn'' of
                    Some (PStr sn) \<Rightarrow> if sn \<noteq> [] then Some sn else None | _ \<Rightarrow> None),
                 f_mac = Some m,
                 f_secret = Some (py_str repr (entry_get e ''secret'' (PStr []))),
                 f_link = Some parent,
                 f_interval = Some (int_or (entry_get e ''interval'' PNone) 240),
                 f_scan = (if cloud_type \<noteq> 0 then Some cloud_type else None),
                 f_config = None, f_settings = None\<rparr>)
      | _ \<Rightarrow> None)"

definition held_settings :: "pydict \<Rightarrow> pydict" where
  "held_settings s =
     concat (map (\<lambda>k. case map_of s k of Some v \<Rightarrow> [(k, v)] | None \<Rightarrow> []) k3_setting_keys)"

definition cloud_bindings ::
    "(pyval \<Rightarrow> string) \<Rightarrow> string \<Rightarrow> pyval \<Rightarrow> int \<Rightarrow> ble_fields list" where
  "cloud_bindings repr endpoint payload parent =
     (case payload of
        PDict p \<Rightarrow>
          (case map_of p ''result'' of
             Some (PDict result) \<Rightarrow>
               if endpoint = ''dev_ble_device'' then
                 (case map_of result ''list'' of
                    Some (PList entries) \<Rightarrow> List.map_filter (\<lambda>e. cloud_binding repr e parent []) entries
                  | _ \<Rightarrow> [])
               else
                 (case cloud_binding repr
                         (if endpoint = ''dev_device_info'' then entry_get result ''k3Device'' PNone
                          else PDict result) parent ''k3'' of
                    None \<Rightarrow> []
                  | Some b \<Rightarrow>
                      [b\<lparr>f_scan := None,
                         f_config :=
                           (case dig (PDict result) [''settings'', ''k3Config'', ''config''] PNone of
                              PDict c \<Rightarrow> if c \<noteq> [] then Some c else None | _ \<Rightarrow> None),
                         f_settings :=
                           (if endpoint = ''dev_k3_device_info'' then
                              (case map_of result ''settings'' of
                                 Some (PDict s) \<Rightarrow>
                                   if held_settings s \<noteq> [] then Some (held_settings s) else None
                               | _ \<Rightarrow> None)
                            else None)\<rparr>])
           | _ \<Rightarrow> [])
      | _ \<Rightarrow> [])"

datatype outcome = Imported | Updated | Unchanged | Refused_because string

definition same_dict :: "ble_device \<Rightarrow> ble_device \<Rightarrow> bool" where
  "same_dict d e = dict_eq (ble_to_dict d) (ble_to_dict e)"

text \<open>
  The second half of an import: the parameters the account is authoritative on are replaced whole.
\<close>

definition replace_config ::
    "bool \<Rightarrow> bool \<Rightarrow> int \<Rightarrow> pydict option \<Rightarrow> ble_device \<times> ble_registry \<Rightarrow> ble_device \<times> ble_registry" where
  "replace_config loop io pid value dr =
     (case (value, dr) of
        (Some v, (d, r)) \<Rightarrow>
          if v \<noteq> [] \<and> \<not> dict_eq (ble_config d) v
          then (d\<lparr>ble_config := v\<rparr>, mark_dirty dump_accessories loop io
                 (r\<lparr>reg_entries := AList.update pid (d\<lparr>ble_config := v\<rparr>) (reg_entries r)\<rparr>))
          else (d, r)
      | (None, dr) \<Rightarrow> dr)"

definition replace_settings ::
    "bool \<Rightarrow> bool \<Rightarrow> int \<Rightarrow> pydict option \<Rightarrow> ble_device \<times> ble_registry \<Rightarrow> ble_device \<times> ble_registry" where
  "replace_settings loop io pid value dr =
     (case (value, dr) of
        (Some v, (d, r)) \<Rightarrow>
          if v \<noteq> [] \<and> \<not> dict_eq (ble_settings d) v
          then (d\<lparr>ble_settings := v\<rparr>, mark_dirty dump_accessories loop io
                 (r\<lparr>reg_entries := AList.update pid (d\<lparr>ble_settings := v\<rparr>) (reg_entries r)\<rparr>))
          else (d, r)
      | (None, dr) \<Rightarrow> dr)"

definition apply_cloud_binding ::
    "bool \<Rightarrow> bool \<Rightarrow> ble_fields \<Rightarrow> ble_registry \<Rightarrow> py_exc + (ble_device option \<times> outcome) \<times> ble_registry" where
  "apply_cloud_binding loop io f r =
     (let pid = or_default (f_id f) 0;
          clash = get_by_mac (or_default (f_mac f) []) r
      in if pid \<le> 0 then Inr ((None, Refused_because ''no usable id''), r)
         else if or_default (f_type f) [] = [] then
           Inr ((None, Refused_because (''type '' @
                  (if or_default (f_scan f) 0 = 0 then ''?'' else int_text (or_default (f_scan f) 0))
                  @ '' has no parser here'')), r)
         else if clash \<noteq> None \<and> ble_petkit_id (the clash) \<noteq> pid then
           Inr ((None, Refused_because (''MAC already paired to id '' @ int_text (ble_petkit_id (the clash)))), r)
         else
           ebind (register loop io f r) (\<lambda>dr.
             let (d, r') = replace_settings loop io pid (f_settings f)
                             (replace_config loop io pid (f_config f) dr)
             in case map_of (reg_entries r) pid of
                  None \<Rightarrow> Inr ((Some d, Imported), r')
                | Some before \<Rightarrow>
                    Inr ((Some d, if same_dict before d then Unchanged else Updated), r')))"

section \<open>Well-formed registries\<close>

definition accessories_ok :: "accessories \<Rightarrow> bool" where
  "accessories_ok es \<longleftrightarrow>
     keys_distinct es \<and> list_all (\<lambda>(pid, d). ble_petkit_id d = pid) es
     \<and> (\<forall>(k, d) \<in> set es. \<forall>(k', d') \<in> set es.
          normalize_mac (ble_mac d) \<noteq> [] \<and> normalize_mac (ble_mac d) = normalize_mac (ble_mac d') \<longrightarrow> k = k')"

definition binding_ok :: "ble_fields \<Rightarrow> bool" where
  "binding_ok f \<longleftrightarrow>
     (case (f_mac f, f_id f, f_type f) of
        (Some m, Some pid, Some _) \<Rightarrow> canonical_mac m \<and> 0 < pid | _ \<Rightarrow> False)"

section \<open>Lemmas\<close>

lemma save_accessories [simp]:
  "reg_entries (reg_save ser io r) = reg_entries r"
  "reg_entries (mark_dirty ser loop io r) = reg_entries r"
  by (simp_all add: reg_save_def mark_dirty_def ensure_flusher_def split: option.splits)

text \<open>The three parts of the invariant, over lookups.\<close>

lemma accessories_ok_lookup:
  "accessories_ok es \<longleftrightarrow> keys_distinct es
     \<and> (\<forall>k d. map_of es k = Some d \<longrightarrow> ble_petkit_id d = k)
     \<and> (\<forall>k d k' d'. map_of es k = Some d \<and> map_of es k' = Some d' \<and> normalize_mac (ble_mac d) \<noteq> []
          \<and> normalize_mac (ble_mac d) = normalize_mac (ble_mac d') \<longrightarrow> k = k')"
  by (cases "keys_distinct es") (auto simp: accessories_ok_def list_all_iff; fastforce)+

lemma find_lookup: "find P (map snd es) = Some d \<Longrightarrow> keys_distinct es \<Longrightarrow> \<exists>k. map_of es k = Some d \<and> P d"
proof -
  assume f: "find P (map snd es) = Some d" and dist: "keys_distinct es"
  from f have "d \<in> set (map snd es)" and "P d" by (auto simp: find_Some_iff intro: nth_mem)
  then obtain k where "(k, d) \<in> set es" by auto
  with dist \<open>P d\<close> show ?thesis by auto
qed

lemma find_lookup_none: "find P (map snd es) = None \<Longrightarrow> map_of es k = Some d \<Longrightarrow> \<not> P d"
  by (fastforce simp: find_None_iff dest: map_of_SomeD)

lemma get_by_mac_unique:
  assumes "accessories_ok (reg_entries r)" and "map_of (reg_entries r) k = Some d"
    and "normalize_mac (ble_mac d) = normalize_mac m" and "normalize_mac m \<noteq> []"
  shows "get_by_mac m r = Some d"
proof -
  have dist: "keys_distinct (reg_entries r)" using assms(1) by (simp add: accessories_ok_def)
  obtain e where e: "find (\<lambda>d. normalize_mac (ble_mac d) = normalize_mac m) (map snd (reg_entries r)) = Some e"
    using find_lookup_none [OF _ assms(2), of "\<lambda>d. normalize_mac (ble_mac d) = normalize_mac m"] assms(3)
    by fastforce
  then obtain k' where k': "map_of (reg_entries r) k' = Some e" "normalize_mac (ble_mac e) = normalize_mac m"
    using find_lookup [OF _ dist] by blast
  then have "k = k'" using assms unfolding accessories_ok_lookup by metis
  then show ?thesis using assms k' e by (simp add: get_by_mac_def)
qed

lemma overwrite_value: "snd (overwrite (Some v) blank (=) old) = (if v = blank then old else v)"
  by (auto simp: overwrite_def)

lemma update_fields_id:
  "ble_petkit_id (snd (update_fields f d)) = snd (overwrite (f_id f) 0 (=) (ble_petkit_id d))"
  "ble_mac (snd (update_fields f d)) = snd (overwrite (f_mac f) [] (=) (ble_mac d))"
  by (simp_all add: update_fields_def Let_def split_beta)

lemma update_fields_unchanged: "\<not> fst (update_fields f d) \<Longrightarrow> snd (update_fields f d) = d"
proof -
  have keep: "\<not> fst (overwrite a b eq old) \<Longrightarrow> snd (overwrite a b eq old) = old" for a b eq and old :: 'a
    by (auto simp: overwrite_def split: option.splits if_splits)
  show "\<not> fst (update_fields f d) \<Longrightarrow> ?thesis"
    by (simp add: update_fields_def Let_def split_beta keep)
qed

lemma canonical_nonempty: "canonical_mac m \<Longrightarrow> m \<noteq> []"
  by (auto simp: canonical_mac_def)

lemma register_known:
  assumes "map_of (reg_entries r) pid = Some e" and "f_id f = Some pid"
  shows "\<exists>r'. register loop io f r = Inr (snd (update_fields f e), r')
    \<and> map_of (reg_entries r') = (map_of (reg_entries r))(pid \<mapsto> snd (update_fields f e))
    \<and> (keys_distinct (reg_entries r) \<longrightarrow> keys_distinct (reg_entries r'))"
  using assms update_fields_unchanged [of f e]
  by (cases "update_fields f e") (auto simp: register_def or_default_def lookup_update fun_upd_idem
      simp del: keys_update)

lemma register_fresh:
  assumes "map_of (reg_entries r) pid = None" and "f_id f = Some pid" and "f_type f = Some ty"
  shows "\<exists>d r'. register loop io f r = Inr (d, r') \<and> ble_petkit_id d = pid
    \<and> ble_mac d = (let m = or_default (f_mac f) [] in if normalize_mac m \<noteq> [] then normalize_mac m else m)
    \<and> map_of (reg_entries r') = (map_of (reg_entries r))(pid \<mapsto> d)
    \<and> (keys_distinct (reg_entries r) \<longrightarrow> keys_distinct (reg_entries r'))"
  using assms
  by (simp add: register_def or_default_def new_accessory_def lookup_update Let_def ble_post_init_def
      del: keys_update)

lemma register_binding:
  assumes "accessories_ok (reg_entries r)" and "binding_ok f"
    and "f_id f = Some pid" and "f_mac f = Some m"
  obtains d r' where "register loop io f r = Inr (d, r')" and "ble_petkit_id d = pid" and "ble_mac d = m"
    and "map_of (reg_entries r') = (map_of (reg_entries r))(pid \<mapsto> d)" and "keys_distinct (reg_entries r')"
proof -
  from assms obtain ty where f: "f_type f = Some ty" and m: "canonical_mac m" and pid: "0 < pid"
    by (auto simp: binding_ok_def split: option.splits)
  have dist: "keys_distinct (reg_entries r)" using assms(1) by (simp add: accessories_ok_def)
  show thesis
  proof (cases "map_of (reg_entries r) pid")
    case None
    then show thesis
      using register_fresh [OF None assms(3) f, of loop io] dist m assms(4)
      by (auto simp: or_default_def normalize_canonical canonical_nonempty intro: that)
  next
    case (Some e)
    then have "ble_petkit_id e = pid" using assms(1) unfolding accessories_ok_lookup by blast
    then show thesis
      using register_known [OF Some assms(3), of loop io] dist m pid assms(3,4)
      by (auto simp: update_fields_id overwrite_value canonical_nonempty intro: that)
  qed
qed

text \<open>Replacing the configuration or the settings touches neither id nor MAC.\<close>

definition stored :: "int \<Rightarrow> string \<Rightarrow> ble_registry \<Rightarrow> ble_device \<times> ble_registry \<Rightarrow> bool" where
  "stored pid m r dr \<longleftrightarrow>
     ble_petkit_id (fst dr) = pid \<and> ble_mac (fst dr) = m
     \<and> map_of (reg_entries (snd dr)) = (map_of (reg_entries r))(pid \<mapsto> fst dr)
     \<and> keys_distinct (reg_entries (snd dr))"

lemma stored_replace_config: "stored pid m r dr \<Longrightarrow> stored pid m r (replace_config loop io pid v dr)"
  by (auto simp: stored_def replace_config_def lookup_update split: option.split prod.split simp del: keys_update)

lemma stored_replace_settings: "stored pid m r dr \<Longrightarrow> stored pid m r (replace_settings loop io pid v dr)"
  by (auto simp: stored_def replace_settings_def lookup_update split: option.split prod.split simp del: keys_update)

lemma stored_ok:
  assumes ok: "accessories_ok (reg_entries r)" and st: "stored pid m r dr" and m: "canonical_mac m"
    and free: "\<And>k d. map_of (reg_entries r) k = Some d \<Longrightarrow> normalize_mac (ble_mac d) = m \<Longrightarrow> k = pid"
  shows "accessories_ok (reg_entries (snd dr)) \<and> get_by_mac m (snd dr) = Some (fst dr)"
proof -
  have n: "normalize_mac m = m" and ne: "m \<noteq> []"
    using m by (simp_all add: normalize_canonical canonical_nonempty)
  have mac: "ble_mac (fst dr) = m" and look: "map_of (reg_entries (snd dr)) = (map_of (reg_entries r))(pid \<mapsto> fst dr)"
    using st by (simp_all add: stored_def)
  have "k = k'" if "map_of (reg_entries (snd dr)) k = Some d" and "map_of (reg_entries (snd dr)) k' = Some d'"
    and "normalize_mac (ble_mac d) \<noteq> []" and "normalize_mac (ble_mac d) = normalize_mac (ble_mac d')" for k d k' d'
  proof (cases "k = pid"; cases "k' = pid")
    assume "k = pid" "k' \<noteq> pid"
    then show ?thesis using that free [of k' d'] mac n by (auto simp: look simp del: map_of_eq_Some_iff)
  next
    assume "k \<noteq> pid" "k' = pid"
    then show ?thesis using that free [of k d] mac n by (auto simp: look simp del: map_of_eq_Some_iff)
  next
    assume "k \<noteq> pid" "k' \<noteq> pid"
    then have "map_of (reg_entries r) k = Some d" and "map_of (reg_entries r) k' = Some d'"
      using that(1,2) by (simp_all add: look del: map_of_eq_Some_iff)
    then show ?thesis using that(3,4) ok unfolding accessories_ok_lookup by metis
  qed simp
  then have uniq: "\<forall>k d k' d'. map_of (reg_entries (snd dr)) k = Some d
      \<and> map_of (reg_entries (snd dr)) k' = Some d' \<and> normalize_mac (ble_mac d) \<noteq> []
      \<and> normalize_mac (ble_mac d) = normalize_mac (ble_mac d') \<longrightarrow> k = k'" by blast
  have old: "\<forall>k d. map_of (reg_entries r) k = Some d \<longrightarrow> ble_petkit_id d = k"
    using ok unfolding accessories_ok_lookup by blast
  have keyed: "\<forall>k d. map_of (reg_entries (snd dr)) k = Some d \<longrightarrow> ble_petkit_id d = k"
    using st old by (auto simp: stored_def simp del: map_of_eq_Some_iff split: if_splits)
  have ok': "accessories_ok (reg_entries (snd dr))"
    unfolding accessories_ok_lookup using st keyed uniq by (intro conjI) (simp_all only: stored_def)
  moreover have "get_by_mac m (snd dr) = Some (fst dr)"
    by (rule get_by_mac_unique [OF ok', of pid]) (simp_all add: look mac n ne del: map_of_eq_Some_iff)
  ultimately show ?thesis by simp
qed

text \<open>What an import does, and when it is accepted.\<close>

lemma import_outcome:
  assumes "accessories_ok (reg_entries r)" and "binding_ok f"
    and "f_id f = Some pid" and "f_mac f = Some m"
  shows "\<exists>dev out r'. apply_cloud_binding loop io f r = Inr ((dev, out), r')
    \<and> accessories_ok (reg_entries r')
    \<and> (dev = None \<longleftrightarrow> or_default (f_type f) [] = []
         \<or> (get_by_mac m r \<noteq> None \<and> ble_petkit_id (the (get_by_mac m r)) \<noteq> pid))
    \<and> (case dev of
         None \<Rightarrow> r' = r \<and> (\<exists>why. out = Refused_because why)
       | Some d \<Rightarrow> ble_petkit_id d = pid \<and> get_by_mac m r' = Some d
           \<and> (out = Imported \<longleftrightarrow> map_of (reg_entries r) pid = None))"
proof -
  have m: "canonical_mac m" and pid: "\<not> pid \<le> 0"
    using assms by (auto simp: binding_ok_def split: option.splits)
  let ?clash = "get_by_mac m r"
  show ?thesis
  proof (cases "or_default (f_type f) [] = [] \<or> (?clash \<noteq> None \<and> ble_petkit_id (the ?clash) \<noteq> pid)")
    case True
    then show ?thesis using assms(1,3,4) pid
      by (auto simp: apply_cloud_binding_def or_default_def Let_def)
  next
    case False
    obtain d r1 where reg: "register loop io f r = Inr (d, r1)" and "stored pid m r (d, r1)"
    proof -
    obtain d r1 where "register loop io f r = Inr (d, r1)" "ble_petkit_id d = pid" "ble_mac d = m"
        "map_of (reg_entries r1) = (map_of (reg_entries r))(pid \<mapsto> d)" "keys_distinct (reg_entries r1)"
        using assms by (rule register_binding)
      then show thesis by (intro that) (simp_all add: stored_def)
    qed
    then have st: "stored pid m r (replace_settings loop io pid (f_settings f)
        (replace_config loop io pid (f_config f) (d, r1)))" (is "stored pid m r ?dr")
      by (intro stored_replace_settings stored_replace_config)
    have free: "k = pid" if k: "map_of (reg_entries r) k = Some e" "normalize_mac (ble_mac e) = m" for k e
    proof -
      have "?clash = Some e"
        using k m by (intro get_by_mac_unique [OF assms(1) k(1)])
          (simp_all add: normalize_canonical canonical_nonempty)
      moreover have "ble_petkit_id e = k" using assms(1) k unfolding accessories_ok_lookup by blast
      ultimately show ?thesis using False by auto
    qed
    have "apply_cloud_binding loop io f r = Inr ((Some (fst ?dr),
        case map_of (reg_entries r) pid of None \<Rightarrow> Imported
        | Some before \<Rightarrow> if same_dict before (fst ?dr) then Unchanged else Updated), snd ?dr)"
    proof -
      have args: "or_default (f_id f) 0 = pid" "or_default (f_mac f) [] = m"
        by (simp_all add: assms(3,4) or_default_def)
      have g: "or_default (f_type f) [] \<noteq> []" "\<not> (?clash \<noteq> None \<and> ble_petkit_id (the ?clash) \<noteq> pid)"
        using False by blast+
      show ?thesis
        unfolding apply_cloud_binding_def Let_def args if_not_P [OF pid] if_not_P [OF g(1)] if_not_P [OF g(2)]
          reg ebind_simps by (simp add: split_beta split: option.split)
    qed
    then show ?thesis
      using stored_ok [OF assms(1) st m free] st False
      by (auto simp: stored_def split: option.split)
  qed
qed

section \<open>Properties\<close>

text \<open>
  C15: importing a binding of the account never gives two accessories one MAC. An import that is
  refused changes nothing and says why; one that is accepted leaves a well-formed registry in which
  the MAC leads to the imported accessory, under the account's id.
\<close>

theorem import_keeps_macs_unique:
  assumes "accessories_ok (reg_entries r)" and "binding_ok f"
    and "f_id f = Some pid" and "f_mac f = Some m"
  shows "\<exists>dev out r'. apply_cloud_binding loop io f r = Inr ((dev, out), r')
    \<and> accessories_ok (reg_entries r')
    \<and> (case dev of
         None \<Rightarrow> r' = r \<and> (\<exists>why. out = Refused_because why)
       | Some d \<Rightarrow> ble_petkit_id d = pid \<and> get_by_mac m r' = Some d
           \<and> (out = Imported \<longleftrightarrow> map_of (reg_entries r) pid = None))"
  using import_outcome [OF assms, of loop io] by blast

definition sample_binding :: ble_fields where
  "sample_binding =
     \<lparr>f_type = Some ''ctw3'', f_id = Some 7, f_serial = None, f_mac = Some ''AABBCCDDEE01'',
      f_secret = Some ''s'', f_link = Some 5, f_interval = Some 240, f_scan = Some 24,
      f_config = None, f_settings = None\<rparr>"

definition no_accessories :: ble_registry where
  "no_accessories = \<lparr>reg_entries = [], persist_path = None, reg_dirty = False, flusher = False,
     writers = [], disk = None\<rparr>"

theorem import_keeps_macs_unique_witness:
  "\<exists>d r'. apply_cloud_binding True True sample_binding no_accessories = Inr ((Some d, Imported), r')
     \<and> get_by_mac ''aa:bb:cc:dd:ee:01'' r' = Some d"
proof -
  have ok: "accessories_ok (reg_entries no_accessories)" "binding_ok sample_binding"
    by code_simp+
  have m: "normalize_mac ''aa:bb:cc:dd:ee:01'' = normalize_mac ''AABBCCDDEE01''" by code_simp
  have look: "get_by_mac ''aa:bb:cc:dd:ee:01'' = get_by_mac ''AABBCCDDEE01''"
    by (rule ext) (simp add: get_by_mac_def m)
  have accepted: "\<exists>d r'. apply_cloud_binding True True sample_binding no_accessories = Inr ((Some d, Imported), r')"
    by (simp add: apply_cloud_binding_def register_def new_accessory_def sample_binding_def no_accessories_def
        or_default_def get_by_mac_def replace_config_def replace_settings_def Let_def)
  show ?thesis
    using import_keeps_macs_unique [OF ok, of 7 "''AABBCCDDEE01''" True True] accepted
    by (auto simp: sample_binding_def look)
qed

text \<open>
  C36: whatever a proxied cloud reply holds, each binding read out of it has a canonical MAC, a positive id
  and as its parent the device whose request was answered; its import into a well-formed registry never
  raises, and is accepted exactly when its type is one the program knows and its MAC is not held by another
  accessory. A reply about a K3 gives at most one, of that type and without a scan type.
\<close>

theorem cloud_bindings_wellformed:
  assumes "accessories_ok (reg_entries r)"
  shows "list_all (\<lambda>b. binding_ok b \<and> f_link b = Some parent
       \<and> (\<exists>dev out r'. apply_cloud_binding loop io b r = Inr ((dev, out), r') \<and> accessories_ok (reg_entries r')
            \<and> (dev \<noteq> None \<longleftrightarrow> or_default (f_type b) [] \<noteq> []
                 \<and> (\<forall>d. get_by_mac (or_default (f_mac b) []) r = Some d \<longrightarrow> Some (ble_petkit_id d) = f_id b))))
     (cloud_bindings repr endpoint payload parent)
   \<and> (endpoint \<noteq> ''dev_ble_device'' \<longrightarrow>
        length (cloud_bindings repr endpoint payload parent) \<le> 1
        \<and> list_all (\<lambda>b. f_type b = Some ''k3'' \<and> f_scan b = None)
            (cloud_bindings repr endpoint payload parent))"
proof -
  have one: "binding_ok b \<and> f_link b = Some parent \<and> (ty \<noteq> [] \<longrightarrow> f_type b = Some ty)"
    if "cloud_binding repr e parent ty = Some b" for e ty b
    using that normalize_mac_canonical
    by (auto simp: cloud_binding_def binding_ok_def Let_def split: pyval.splits if_splits)
  have many: "list_all (\<lambda>b. binding_ok b \<and> f_link b = Some parent)
      (List.map_filter (\<lambda>e. cloud_binding repr e parent []) entries)" for entries
    using one by (auto simp: list_all_iff map_filter_def)
  have keep: "binding_ok (b\<lparr>f_scan := x, f_config := y, f_settings := z\<rparr>) = binding_ok b" for b x y z
    by (simp add: binding_ok_def)
  have k3: "binding_ok b \<and> f_link b = Some parent \<and> f_type b = Some ''k3''"
    if "cloud_binding repr e parent ''k3'' = Some b" for e b
    using one [OF that] by simp
  have shape: "list_all (\<lambda>b. binding_ok b \<and> f_link b = Some parent) (cloud_bindings repr endpoint payload parent)
   \<and> (endpoint \<noteq> ''dev_ble_device'' \<longrightarrow>
        length (cloud_bindings repr endpoint payload parent) \<le> 1
        \<and> list_all (\<lambda>b. f_type b = Some ''k3'' \<and> f_scan b = None)
            (cloud_bindings repr endpoint payload parent))"
    using many k3 by (auto simp: cloud_bindings_def keep split: pyval.split option.split)
  have "\<exists>dev out r'. apply_cloud_binding loop io b r = Inr ((dev, out), r') \<and> accessories_ok (reg_entries r')
            \<and> (dev \<noteq> None \<longleftrightarrow> or_default (f_type b) [] \<noteq> []
                 \<and> (\<forall>d. get_by_mac (or_default (f_mac b) []) r = Some d \<longrightarrow> Some (ble_petkit_id d) = f_id b))"
    if ok: "binding_ok b" for b
  proof -
    obtain pid m where b: "f_id b = Some pid" "f_mac b = Some m"
      using ok by (auto simp: binding_ok_def split: option.splits)
    then show ?thesis using import_outcome [OF assms ok b, of loop io] by (auto simp: or_default_def)
  qed
  then show ?thesis using shape by (auto simp: list_all_iff)
qed

theorem cloud_bindings_wellformed_witness:
  "\<exists>b d out r'. cloud_bindings (\<lambda>_. []) ''dev_device_info'' (PDict [(''result'',
      PDict [(''k3Device'', PDict [(''mac'', PStr ''aabbccddee01''), (''id'', PInt 3)])])]) 5 = [b]
    \<and> apply_cloud_binding True True b no_accessories = Inr ((Some d, out), r')"
proof -
  let ?bs = "cloud_bindings (\<lambda>_. []) ''dev_device_info'' (PDict [(''result'',
      PDict [(''k3Device'', PDict [(''mac'', PStr ''aabbccddee01''), (''id'', PInt 3)])])]) 5"
  have one: "length ?bs = 1" and "accessories_ok (reg_entries no_accessories)" by code_simp+
  obtain b where b: "?bs = [b]" using one by (cases ?bs) auto
  have "get_by_mac m no_accessories = None" for m by (simp add: get_by_mac_def no_accessories_def Let_def)
  then show ?thesis
    using cloud_bindings_wellformed [OF \<open>accessories_ok (reg_entries no_accessories)\<close>,
        where endpoint = "''dev_device_info''" and loop = True and io = True, of 5 "\<lambda>_. []" "PDict [(''result'',
      PDict [(''k3Device'', PDict [(''mac'', PStr ''aabbccddee01''), (''id'', PInt 3)])])]"] b
    by (auto simp: or_default_def)
qed

text \<open>
  The accessories of a parent are split between the two places it is told of them: each linked
  accessory is in the relay list or is of the K3 kind, never both; no K3 is ever in the relay list;
  and the K3 slot is filled exactly when some K3 is linked.
\<close>

theorem relay_list_excludes_k3:
  "set (get_linked parent r)
     = set (non_k3_for_parent parent r) \<union> {d \<in> set (get_linked parent r). ble_type d = ''k3''}
   \<and> list_all (\<lambda>d. ble_type d \<noteq> ''k3'' \<and> ble_link_with d = parent) (non_k3_for_parent parent r)
   \<and> (get_linked_k3 parent r = None \<longleftrightarrow> list_all (\<lambda>d. ble_type d \<noteq> ''k3'') (get_linked parent r))"
  by (auto simp: get_linked_def non_k3_for_parent_def get_linked_k3_def list_all_iff find_None_iff)

lemma read_sections_value: "read_sections (map (\<lambda>(k, d). (k, PDict d)) st) = Inr st"
  by (induction st) auto

lemma ble_from_to_dict: "ble_from_dict (ble_to_dict d) = Inr (ble_post_init d)"
  by (cases d) (simp add: ble_from_dict_def ble_to_dict_def read_text_def read_int_def read_dict_def
      read_epoch_def state_value_def read_sections_value)

lemma restore_accessory_entry:
  "ble_petkit_id d \<notin> fst ` set es \<Longrightarrow>
   restore_accessory es (k, PDict (ble_to_dict d)) = es @ [(ble_petkit_id d, ble_post_init d)]"
proof -
  have "AList.update k v es = es @ [(k, v)]" if "k \<notin> fst ` set es" for k v and es :: accessories
    using that by (induction es) auto
  moreover have "ble_petkit_id (ble_post_init d) = ble_petkit_id d"
    by (simp add: ble_post_init_def Let_def)
  moreover assume "ble_petkit_id d \<notin> fst ` set es"
  ultimately show ?thesis by (simp add: restore_accessory_def ble_from_to_dict)
qed

lemma restore_accessories_run:
  "\<forall>(pid, d) \<in> set es. ble_petkit_id d = pid \<Longrightarrow> distinct (map fst (acc @ es)) \<Longrightarrow>
   foldl restore_accessory acc (map (\<lambda>(pid, d). (int_text pid, PDict (ble_to_dict d))) es)
     = acc @ map (\<lambda>(pid, d). (pid, ble_post_init d)) es"
proof (induction es arbitrary: acc)
  case (Cons e es)
  obtain pid d where e: "e = (pid, d)" by (cases e)
  have "restore_accessory acc (int_text pid, PDict (ble_to_dict d)) = acc @ [(pid, ble_post_init d)]"
    using Cons.prems restore_accessory_entry [of d acc "int_text pid"] by (auto simp: e)
  then show ?case using Cons.prems Cons.IH [of "acc @ [(pid, ble_post_init d)]"] by (simp add: e)
qed simp

text \<open>
  The accessories' file gives back every accessory, its last reading, its liveness and its
  configuration included: only a MAC that was not yet in canonical form changes, to that form.
\<close>

theorem accessories_document_roundtrip:
  assumes "accessories_ok es"
  shows "restore_accessories (serialize_accessories es) [] = map (\<lambda>(pid, d). (pid, ble_post_init d)) es"
  using assms restore_accessories_run [of es "[]"]
  by (fastforce simp: restore_accessories_def serialize_accessories_def accessories_ok_def list_all_iff)

theorem accessories_document_roundtrip_witness:
  "restore_accessories (serialize_accessories [(77, sample_ble)]) [] = [(77, ble_post_init sample_ble)]"
proof -
  have "accessories_ok [(77, sample_ble)]" by code_simp
  from accessories_document_roundtrip [OF this] show ?thesis by simp
qed

text \<open>
  The canonical form is only the constructor's: updating an accessory that is already stored
  assigns the MAC as it is passed, so an update with the MAC as typed replaces the canonical one, and
  the parent is then told to scan for a text with separators in it.
\<close>

theorem register_update_bypasses_canonical_mac:
  "let r = no_accessories\<lparr>reg_entries := [(77, ble_post_init sample_ble)]\<rparr>;
       f = sample_binding\<lparr>f_id := Some 77, f_mac := Some ''aa:bb:cc:dd:ee:01''\<rparr>
   in case register True True f r of
        Inl _ \<Rightarrow> False
      | Inr (d, r') \<Rightarrow>
          ble_mac d = ''aa:bb:cc:dd:ee:01'' \<and> wire_mac d = ''aa:bb:cc:dd:ee:01''
          \<and> get_by_mac ''AABBCCDDEE01'' r' = Some d"
  by code_simp

end
