(* ===== verification/Topics.thy ===== *)
theory Topics
  imports Prelude
begin

text \<open>
  MQTT topics (\<open>mqtt/topics.py\<close>): the five regular expressions a topic is matched against, the
  builders of every topic the server or a device uses, the direction table, the filters a device is
  subscribed to on its behalf, and the re-addressing of a relayed topic.

  Each expression is anchored and its groups cannot contain a slash (the service name excepted), so
  matching is a comparison of the topic's segments; \<open>$\<close> also matches before a final newline.
\<close>

record parsed_topic =
  product_key :: string
  device_name :: string
  category :: string
  detail :: string

definition newline :: char where
  "newline = CHR 0x0A"

definition at_end :: "string \<Rightarrow> string \<Rightarrow> bool" where
  "at_end literal s \<longleftrightarrow> s = literal \<or> s = literal @ [newline]"

text \<open>\<open>(.+)$\<close>: a dot matches no newline, so one trailing newline is outside the group.\<close>

definition dotted_tail :: "string \<Rightarrow> string option" where
  "dotted_tail s =
     (let body = (if s \<noteq> [] \<and> last s = newline then butlast s else s)
      in if body = [] \<or> newline \<in> set body then None else Some body)"

section \<open>Parsing\<close>

definition match_event :: "string list \<Rightarrow> parsed_topic option" where
  "match_event segs =
     (case segs of
        [a, b, pk, dn, c, d, ev, e] \<Rightarrow>
          if a = [] \<and> b = ''sys'' \<and> pk \<noteq> [] \<and> dn \<noteq> [] \<and> c = ''thing'' \<and> d = ''event'' \<and> ev \<noteq> []
             \<and> at_end ''post'' e
          then Some \<lparr>product_key = pk, device_name = dn, category = ''event'', detail = ev\<rparr> else None
      | _ \<Rightarrow> None)"

definition match_service :: "string list \<Rightarrow> parsed_topic option" where
  "match_service segs =
     (case segs of
        a # b # pk # dn # c # d # s # ss \<Rightarrow>
          if a = [] \<and> b = ''sys'' \<and> pk \<noteq> [] \<and> dn \<noteq> [] \<and> c = ''thing'' \<and> d = ''service''
          then map_option
                 (\<lambda>name. \<lparr>product_key = pk, device_name = dn, category = ''service'', detail = name\<rparr>)
                 (dotted_tail (join_with ''/'' (s # ss)))
          else None
      | _ \<Rightarrow> None)"

definition match_user_get :: "string list \<Rightarrow> parsed_topic option" where
  "match_user_get segs =
     (case segs of
        [a, pk, dn, c, d] \<Rightarrow>
          if a = [] \<and> pk \<noteq> [] \<and> dn \<noteq> [] \<and> c = ''user'' \<and> at_end ''get'' d
          then Some \<lparr>product_key = pk, device_name = dn, category = ''user_get'', detail = ''get''\<rparr>
          else None
      | _ \<Rightarrow> None)"

definition match_ota :: "string \<Rightarrow> string list \<Rightarrow> parsed_topic option" where
  "match_ota word segs =
     (case segs of
        [a, b, c, d, pk, dn] \<Rightarrow>
          if a = [] \<and> b = ''ota'' \<and> c = ''device'' \<and> d = word \<and> pk \<noteq> [] \<and> dn \<noteq> []
          then Some \<lparr>product_key = pk, device_name = dn, category = ''ota'', detail = word\<rparr>
          else None
      | _ \<Rightarrow> None)"

definition parse_topic :: "string \<Rightarrow> parsed_topic option" where
  "parse_topic topic =
     (let segs = split_on CHR ''/'' topic in
      case match_event segs of Some p \<Rightarrow> Some p
      | None \<Rightarrow> (case match_service segs of Some p \<Rightarrow> Some p
      | None \<Rightarrow> (case match_user_get segs of Some p \<Rightarrow> Some p
      | None \<Rightarrow> (case match_ota ''inform'' segs of Some p \<Rightarrow> Some p
      | None \<Rightarrow> match_ota ''upgrade'' segs))))"

section \<open>Building\<close>

definition event_reply_topic :: "string \<Rightarrow> string \<Rightarrow> string \<Rightarrow> string" where
  "event_reply_topic pk dn ev = ''/sys/'' @ pk @ ''/'' @ dn @ ''/thing/event/'' @ ev @ ''/post_reply''"

definition service_topic :: "string \<Rightarrow> string \<Rightarrow> string \<Rightarrow> string" where
  "service_topic pk dn service = ''/sys/'' @ pk @ ''/'' @ dn @ ''/thing/service/'' @ service"

definition user_get_topic :: "string \<Rightarrow> string \<Rightarrow> string" where
  "user_get_topic pk dn = ''/'' @ pk @ ''/'' @ dn @ ''/user/get''"

definition ota_upgrade_topic :: "string \<Rightarrow> string \<Rightarrow> string" where
  "ota_upgrade_topic pk dn = ''/ota/device/upgrade/'' @ pk @ ''/'' @ dn"

definition event_post_topic :: "string \<Rightarrow> string \<Rightarrow> string \<Rightarrow> string" where
  "event_post_topic pk dn ev = ''/sys/'' @ pk @ ''/'' @ dn @ ''/thing/event/'' @ ev @ ''/post''"

definition ota_inform_topic :: "string \<Rightarrow> string \<Rightarrow> string" where
  "ota_inform_topic pk dn = ''/ota/device/inform/'' @ pk @ ''/'' @ dn"

definition rewrite_topic :: "string \<Rightarrow> string \<Rightarrow> string \<Rightarrow> string option" where
  "rewrite_topic topic to_pk to_dn =
     (case parse_topic topic of
        None \<Rightarrow> None
      | Some p \<Rightarrow>
          if category p = ''event'' then Some (event_post_topic to_pk to_dn (detail p))
          else if category p = ''service'' then Some (service_topic to_pk to_dn (detail p))
          else if category p = ''user_get'' then Some (user_get_topic to_pk to_dn)
          else if category p = ''ota'' then
            (if detail p = ''inform'' then Some (ota_inform_topic to_pk to_dn)
             else Some (ota_upgrade_topic to_pk to_dn))
          else None)"

section \<open>Direction\<close>

definition server_published :: "(string \<times> string option) list" where
  "server_published = [(''service'', None), (''user_get'', None), (''ota'', Some ''upgrade'')]"

definition is_server_published :: "parsed_topic \<Rightarrow> bool" where
  "is_server_published p \<longleftrightarrow>
     \<not> ends_with (detail p) ''_reply''
     \<and> list_ex (\<lambda>(cat, d). category p = cat \<and> (d = None \<or> d = Some (detail p))) server_published"

definition downstream_filters :: "string \<Rightarrow> string \<Rightarrow> string list" where
  "downstream_filters pk dn =
     [service_topic pk dn ''#'', event_reply_topic pk dn ''+'', user_get_topic pk dn]"

text \<open>MQTT's own rule for a filter: \<open>+\<close> stands for one level, a final \<open>#\<close> for any number.\<close>

fun levels_match :: "string list \<Rightarrow> string list \<Rightarrow> bool" where
  "levels_match [] ts = (ts = [])"
| "levels_match (f # fs) ts =
     (if f = ''#'' then fs = []
      else (case ts of
              [] \<Rightarrow> False
            | t # ts' \<Rightarrow> (f = ''+'' \<or> f = t) \<and> levels_match fs ts'))"

definition filter_matches :: "string \<Rightarrow> string \<Rightarrow> bool" where
  "filter_matches f t \<longleftrightarrow> levels_match (split_on CHR ''/'' f) (split_on CHR ''/'' t)"

section \<open>Lemmas\<close>

definition segment :: "string \<Rightarrow> bool" where
  "segment s \<longleftrightarrow> s \<noteq> [] \<and> CHR ''/'' \<notin> set s"

lemma split_on_slash: "CHR ''/'' \<notin> set w \<Longrightarrow> split_on CHR ''/'' (w @ CHR ''/'' # s) = w # split_on CHR ''/'' s"
  by (rule split_on_cons)

lemma split_event_post:
  "CHR ''/'' \<notin> set pk \<union> set dn \<union> set ev \<Longrightarrow>
   split_on CHR ''/'' (event_post_topic pk dn ev) = [[], ''sys'', pk, dn, ''thing'', ''event'', ev, ''post'']"
  by (simp add: event_post_topic_def split_on_slash split_on_single)

lemma split_event_reply:
  "CHR ''/'' \<notin> set pk \<union> set dn \<union> set ev \<Longrightarrow>
   split_on CHR ''/'' (event_reply_topic pk dn ev)
     = [[], ''sys'', pk, dn, ''thing'', ''event'', ev, ''post_reply'']"
  by (simp add: event_reply_topic_def split_on_slash split_on_single)

lemma split_service:
  "CHR ''/'' \<notin> set pk \<union> set dn \<Longrightarrow>
   split_on CHR ''/'' (service_topic pk dn service)
     = [[], ''sys'', pk, dn, ''thing'', ''service''] @ split_on CHR ''/'' service"
  by (simp add: service_topic_def split_on_slash)

lemma split_user_get:
  "CHR ''/'' \<notin> set pk \<union> set dn \<Longrightarrow>
   split_on CHR ''/'' (user_get_topic pk dn) = [[], pk, dn, ''user'', ''get'']"
  by (simp add: user_get_topic_def split_on_slash split_on_single)

lemma split_ota:
  "CHR ''/'' \<notin> set pk \<union> set dn \<Longrightarrow>
   split_on CHR ''/'' (ota_upgrade_topic pk dn) = [[], ''ota'', ''device'', ''upgrade'', pk, dn]
   \<and> split_on CHR ''/'' (ota_inform_topic pk dn) = [[], ''ota'', ''device'', ''inform'', pk, dn]"
  by (simp add: ota_upgrade_topic_def ota_inform_topic_def split_on_slash split_on_single)

lemmas split_topics = split_event_post split_event_reply split_service split_user_get split_ota
lemmas match_defs = match_event_def match_service_def match_user_get_def match_ota_def

text \<open>The topics the parser's answers stand for, and the builder that makes each.\<close>

definition topic_ok :: "parsed_topic \<Rightarrow> bool" where
  "topic_ok p \<longleftrightarrow>
     segment (product_key p) \<and> segment (device_name p)
     \<and> (category p = ''event'' \<and> segment (detail p)
        \<or> category p = ''service'' \<and> detail p \<noteq> [] \<and> newline \<notin> set (detail p)
        \<or> category p = ''user_get'' \<and> detail p = ''get''
        \<or> category p = ''ota'' \<and> (detail p = ''inform'' \<or> detail p = ''upgrade''))"

definition build_topic :: "parsed_topic \<Rightarrow> string" where
  "build_topic p =
     (if category p = ''event'' then event_post_topic (product_key p) (device_name p) (detail p)
      else if category p = ''service'' then service_topic (product_key p) (device_name p) (detail p)
      else if category p = ''user_get'' then user_get_topic (product_key p) (device_name p)
      else if detail p = ''inform'' then ota_inform_topic (product_key p) (device_name p)
      else ota_upgrade_topic (product_key p) (device_name p))"

lemma dotted_tail_plain: "s \<noteq> [] \<Longrightarrow> newline \<notin> set s \<Longrightarrow> dotted_tail s = Some s"
proof -
  assume "s \<noteq> []" and "newline \<notin> set s"
  then have "last s \<noteq> newline" by (metis last_in_set)
  with \<open>s \<noteq> []\<close> \<open>newline \<notin> set s\<close> show ?thesis by (simp add: dotted_tail_def)
qed

lemma dotted_tail_some: "dotted_tail s = Some d \<Longrightarrow> d \<noteq> [] \<and> newline \<notin> set d"
  by (auto simp: dotted_tail_def Let_def split: if_splits)

lemma parse_service:
  assumes "segment pk" and "segment dn" and "service \<noteq> []" and "newline \<notin> set service"
  shows "parse_topic (service_topic pk dn service)
    = Some \<lparr>product_key = pk, device_name = dn, category = ''service'', detail = service\<rparr>"
proof -
  obtain s ss where seg: "split_on CHR ''/'' service = s # ss"
    by (cases "split_on CHR ''/'' service") simp_all
  then have join: "join_with ''/'' (s # ss) = service" using join_split [of "CHR ''/''" service] by simp
  have "split_on CHR ''/'' (service_topic pk dn service)
      = [] # ''sys'' # pk # dn # ''thing'' # ''service'' # s # ss"
    using assms by (simp add: segment_def split_service seg)
  moreover have "match_event ([] # ''sys'' # pk # dn # ''thing'' # ''service'' # s # ss) = None"
    by (simp add: match_event_def split: list.split)
  moreover have "match_service ([] # ''sys'' # pk # dn # ''thing'' # ''service'' # s # ss)
      = Some \<lparr>product_key = pk, device_name = dn, category = ''service'', detail = service\<rparr>"
    using assms join dotted_tail_plain [of service] by (simp add: match_service_def segment_def)
  ultimately show ?thesis by (simp add: parse_topic_def)
qed

lemma parse_built: "topic_ok p \<Longrightarrow> parse_topic (build_topic p) = Some p"
  by (cases p) (auto simp: topic_ok_def build_topic_def parse_service segment_def split_topics
      parse_topic_def [of "event_post_topic pk dn ev" for pk dn ev]
      parse_topic_def [of "user_get_topic pk dn" for pk dn]
      parse_topic_def [of "ota_inform_topic pk dn" for pk dn]
      parse_topic_def [of "ota_upgrade_topic pk dn" for pk dn] match_defs at_end_def)

lemma matched_ok:
  assumes "\<forall>w \<in> set segs. CHR ''/'' \<notin> set w"
  shows "match_event segs = Some p \<Longrightarrow> topic_ok p"
    and "match_service segs = Some p \<Longrightarrow> topic_ok p"
    and "match_user_get segs = Some p \<Longrightarrow> topic_ok p"
    and "match_ota word segs = Some p \<Longrightarrow> word = ''inform'' \<or> word = ''upgrade'' \<Longrightarrow> topic_ok p"
  using assms by (auto simp: match_defs topic_ok_def segment_def dest: dotted_tail_some
      split: list.splits if_splits)

lemma parsed_ok:
  assumes "parse_topic t = Some p" shows "topic_ok p"
proof -
  have "\<forall>w \<in> set (split_on CHR ''/'' t). CHR ''/'' \<notin> set w" by (blast dest: split_on_parts)
  from matched_ok [OF this] assms show ?thesis
    by (auto simp: parse_topic_def Let_def split: option.splits)
qed

interpretation topic_wire: coding topic_ok build_topic parse_topic
  by unfold_locales (rule parse_built)

lemma rewrite_build:
  "parse_topic t = Some p \<Longrightarrow>
   rewrite_topic t pk dn = Some (build_topic (p\<lparr>product_key := pk, device_name := dn\<rparr>))"
  using parsed_ok [of t p] by (auto simp: rewrite_topic_def build_topic_def topic_ok_def)

section \<open>Properties\<close>

text \<open>
  C22: re-addressing a topic changes the identity and nothing else: a topic is rewritten exactly
  when it is one the parser knows, the result parses, for a well-formed new identity, to the same
  category and detail under that identity, and rewriting it back to the old identity gives a topic
  that parses as the original did.
\<close>

theorem rewrite_topic_readdresses:
  assumes "segment pk" and "segment dn"
  shows "(case parse_topic topic of
      None \<Rightarrow> rewrite_topic topic pk dn = None
    | Some p \<Rightarrow> (\<exists>t. rewrite_topic topic pk dn = Some t
         \<and> parse_topic t = Some (p\<lparr>product_key := pk, device_name := dn\<rparr>)
         \<and> (\<exists>u. rewrite_topic t (product_key p) (device_name p) = Some u \<and> parse_topic u = Some p)))"
proof (cases "parse_topic topic")
  case None
  then show ?thesis by (simp add: rewrite_topic_def)
next
  case (Some p)
  let ?q = "p\<lparr>product_key := pk, device_name := dn\<rparr>"
  have ok: "topic_ok p" using Some by (rule parsed_ok)
  then have q: "parse_topic (build_topic ?q) = Some ?q"
    using assms by (intro parse_built) (simp add: topic_ok_def)
  have "rewrite_topic (build_topic ?q) (product_key p) (device_name p) = Some (build_topic p)"
    using rewrite_build [OF q] by simp
  with q rewrite_build [OF Some] parse_built [OF ok] Some show ?thesis by auto
qed

theorem rewrite_topic_readdresses_witness:
  "\<exists>t. rewrite_topic ''/sys/a1/d_t5_9/thing/service/property/set'' ''k2'' ''d2'' = Some t
     \<and> parse_topic t = Some \<lparr>product_key = ''k2'', device_name = ''d2'', category = ''service'',
         detail = ''property/set''\<rparr>"
proof -
  have "parse_topic ''/sys/a1/d_t5_9/thing/service/property/set''
      = Some \<lparr>product_key = ''a1'', device_name = ''d_t5_9'', category = ''service'', detail = ''property/set''\<rparr>"
    by code_simp
  then show ?thesis
    using rewrite_topic_readdresses [of "''k2''" "''d2''" "''/sys/a1/d_t5_9/thing/service/property/set''"]
    by (auto simp: segment_def)
qed

text \<open>
  The directions do not cross. Every topic a handler builds parses back to its parts; what a
  device posts is never taken for the server's own, nor is a device's reply to a command, while
  every command, configuration push and firmware upgrade is; and the server's acknowledgement of an
  event is no topic the parser knows.
\<close>

theorem topic_directions:
  assumes "segment pk" and "segment dn" and "segment ev" and "service \<noteq> []" and "newline \<notin> set service"
  shows "map_option is_server_published (parse_topic (event_post_topic pk dn ev)) = Some False
    \<and> map_option is_server_published (parse_topic (ota_inform_topic pk dn)) = Some False
    \<and> map_option is_server_published (parse_topic (user_get_topic pk dn)) = Some True
    \<and> map_option is_server_published (parse_topic (ota_upgrade_topic pk dn)) = Some True
    \<and> map_option is_server_published (parse_topic (service_topic pk dn service))
        = Some (\<not> ends_with service ''_reply'')
    \<and> parse_topic (event_reply_topic pk dn ev) = None"
proof -
  let ?p = "\<lambda>cat d. \<lparr>product_key = pk, device_name = dn, category = cat, detail = d\<rparr>"
  have "parse_topic (event_post_topic pk dn ev) = Some (?p ''event'' ev)"
    using parse_built [of "?p ''event'' ev"] assms by (simp add: topic_ok_def build_topic_def)
  moreover have "parse_topic (ota_inform_topic pk dn) = Some (?p ''ota'' ''inform'')"
    using parse_built [of "?p ''ota'' ''inform''"] assms by (simp add: topic_ok_def build_topic_def)
  moreover have "parse_topic (user_get_topic pk dn) = Some (?p ''user_get'' ''get'')"
    using parse_built [of "?p ''user_get'' ''get''"] assms by (simp add: topic_ok_def build_topic_def)
  moreover have "parse_topic (ota_upgrade_topic pk dn) = Some (?p ''ota'' ''upgrade'')"
    using parse_built [of "?p ''ota'' ''upgrade''"] assms by (simp add: topic_ok_def build_topic_def)
  moreover have "parse_topic (event_reply_topic pk dn ev) = None"
    using assms by (simp add: parse_topic_def segment_def split_event_reply match_defs at_end_def newline_def)
  ultimately show ?thesis
    using parse_service [OF assms(1,2,4,5)]
    by (simp add: is_server_published_def server_published_def ends_with_def)
qed

theorem topic_directions_witness:
  "parse_topic (event_reply_topic ''a1'' ''d_t5_9'' ''property'') = None"
  using topic_directions [of "''a1''" "''d_t5_9''" "''property''" "''start''"]
  by (simp add: segment_def newline_def)

text \<open>
  The filters a device is subscribed to on its behalf cover every command, acknowledgement and
  configuration push addressed to it, match nothing it publishes itself, and leave out the firmware
  upgrade, so that none can reach it even by mistake.
\<close>

theorem downstream_filters_spec:
  assumes "segment pk" and "segment dn" and "segment ev"
    and "pk \<notin> {''#'', ''+'', ''ota''}" and "dn \<notin> {''#'', ''+''}"
  shows "list_ex (\<lambda>f. filter_matches f (service_topic pk dn service)) (downstream_filters pk dn)
    \<and> list_ex (\<lambda>f. filter_matches f (event_reply_topic pk dn ev)) (downstream_filters pk dn)
    \<and> list_ex (\<lambda>f. filter_matches f (user_get_topic pk dn)) (downstream_filters pk dn)
    \<and> \<not> list_ex (\<lambda>f. filter_matches f (ota_upgrade_topic pk dn)) (downstream_filters pk dn)
    \<and> \<not> list_ex (\<lambda>f. filter_matches f (event_post_topic pk dn ev)) (downstream_filters pk dn)"
  using assms
  by (simp add: downstream_filters_def filter_matches_def segment_def split_topics split_on_single)

theorem downstream_filters_spec_witness:
  "\<not> list_ex (\<lambda>f. filter_matches f (ota_upgrade_topic ''a1'' ''d_t5_9'')) (downstream_filters ''a1'' ''d_t5_9'')"
  using downstream_filters_spec [of "''a1''" "''d_t5_9''" "''property''" "''start''"]
  by (simp add: segment_def)

end
