(* ===== verification/Mqtt_Auth.thy ===== *)
theory Mqtt_Auth
  imports Device_Registry Topics
begin

text \<open>
  The broker's authentication plugin (\<open>mqtt/auth.py\<close>): the Aliyun client id, the signature a device
  must present, who is admitted, and what the plugin keeps of the live sessions: connecting,
  subscribing a device on its behalf, the packets it sees, and the end of a session, take-over
  included. The keyed hash is a parameter: digest name, key and message to the hexadecimal digest.
  Sessions are compared by identity, here by a number. The devices are those of the registry.
\<close>

section \<open>Client id and signature\<close>

record client =
  client_key :: string
  client_name :: string
  client_timestamp :: string
  client_params :: "(string \<times> string) list"

definition parse_params :: "string \<Rightarrow> (string \<times> string) list" where
  "parse_params s =
     fold (\<lambda>part params.
         case cut_at ''='' part of Some (k, v) \<Rightarrow> AList.update k v params | None \<Rightarrow> params)
       (split_on CHR '','' s) []"

text \<open>
  The pattern is \<open>^([^.]+)\.([^|]+)\|([^|]*)\|$\<close>: every group ends at the first separator.
\<close>

definition parse_client_id :: "string \<Rightarrow> client option" where
  "parse_client_id cid =
     (case cut_at ''.'' cid of
        Some (pk, rest) \<Rightarrow>
          (case cut_at ''|'' rest of
             Some (dn, rest') \<Rightarrow>
               (case cut_at ''|'' rest' of
                  Some (params, tail) \<Rightarrow>
                    if pk \<noteq> [] \<and> dn \<noteq> [] \<and> at_end [] tail
                    then Some \<lparr>client_key = pk, client_name = dn,
                           client_timestamp =
                             (case map_of (parse_params params) ''timestamp'' of
                                Some t \<Rightarrow> t | None \<Rightarrow> []),
                           client_params = parse_params params\<rparr>
                    else None
                | None \<Rightarrow> None)
           | None \<Rightarrow> None)
      | None \<Rightarrow> None)"

definition digests :: "(string \<times> string) list" where
  "digests = [(''hmacsha256'', ''sha256''), (''hmacsha1'', ''sha1''), (''hmacmd5'', ''md5'')]"

definition sign_content :: "string \<Rightarrow> string \<Rightarrow> string \<Rightarrow> string \<Rightarrow> string" where
  "sign_content cid dn pk ts =
     ''clientId'' @ cid @ ''deviceName'' @ dn @ ''productKey'' @ pk @ ''timestamp'' @ ts"

type_synonym hmac = "string \<Rightarrow> string \<Rightarrow> string \<Rightarrow> string"

definition compute_aliyun_sign ::
    "hmac \<Rightarrow> string \<Rightarrow> string \<Rightarrow> string \<Rightarrow> string \<Rightarrow> string \<Rightarrow> string \<Rightarrow> string" where
  "compute_aliyun_sign hmac secret cid dn pk ts signmethod =
     hmac (case map_of digests (str_lower signmethod) of Some a \<Rightarrow> a | None \<Rightarrow> ''sha256'')
       secret (sign_content cid dn pk ts)"

section \<open>The plugin's state\<close>

record session =
  session_id :: nat
  session_client :: string
  session_user :: string
  session_password :: string

record attempt =
  attempt_device :: "int option"
  attempt_client :: string
  attempt_user :: string
  attempt_method :: string
  attempt_ok :: bool

record auth =
  auth_registry :: "device_registry option"
  strict :: bool
  live_sessions :: "(int \<times> nat) list"
  attempts :: "attempt list"

definition put_device :: "device \<Rightarrow> auth \<Rightarrow> auth" where
  "put_device d a =
     a\<lparr>auth_registry :=
         map_option (\<lambda>r. r\<lparr>reg_entries := AList.update (petkit_id d) d (reg_entries r)\<rparr>)
           (auth_registry a)\<rparr>"

definition record_attempt :: "int option \<Rightarrow> session \<Rightarrow> string \<Rightarrow> bool \<Rightarrow> auth \<Rightarrow> auth" where
  "record_attempt device s signmethod ok a =
     a\<lparr>attempts := attempts a @
         [\<lparr>attempt_device = device, attempt_client = session_client s,
           attempt_user = session_user s, attempt_method = signmethod, attempt_ok = ok\<rparr>]\<rparr>"

definition mark_mqtt_connected :: "rat \<Rightarrow> device \<Rightarrow> session \<Rightarrow> auth \<Rightarrow> auth" where
  "mark_mqtt_connected now d s a =
     (put_device (d\<lparr>mqtt_connected := True, mqtt_connected_at := now, last_mqtt := now,
                    mqtt_subscriptions := []\<rparr>) a)
       \<lparr>live_sessions := AList.update (petkit_id d) (session_id s) (live_sessions a)\<rparr>"

definition device_for_client :: "string \<Rightarrow> auth \<Rightarrow> device option" where
  "device_for_client cid a =
     (case auth_registry a of
        None \<Rightarrow> None
      | Some r \<Rightarrow>
          (case parse_client_id cid of
             None \<Rightarrow> None
           | Some c \<Rightarrow> by_mqtt_name (client_key c) (client_name c) r))"

definition expected_sign :: "hmac \<Rightarrow> client \<Rightarrow> device \<Rightarrow> string" where
  "expected_sign hmac c d =
     compute_aliyun_sign hmac (mqtt_device_secret d) (client_key c @ ''.'' @ client_name c)
       (client_name c) (client_key c) (client_timestamp c)
       (case map_of (client_params c) ''signmethod'' of Some m \<Rightarrow> m | None \<Rightarrow> ''hmacsha256'')"

definition authenticate :: "hmac \<Rightarrow> rat \<Rightarrow> session \<Rightarrow> auth \<Rightarrow> bool \<times> auth" where
  "authenticate hmac now s a =
     (case auth_registry a of
        None \<Rightarrow> (True, a)
      | Some r \<Rightarrow>
          (case parse_client_id (session_client s) of
             None \<Rightarrow> (True, a)
           | Some c \<Rightarrow>
               (let signmethod = (case map_of (client_params c) ''signmethod'' of
                                    Some m \<Rightarrow> m | None \<Rightarrow> ''hmacsha256'')
                in case by_mqtt_name (client_key c) (client_name c) r of
                     None \<Rightarrow> (\<not> strict a, record_attempt None s signmethod False a)
                   | Some d \<Rightarrow>
                       if str_lower (session_password s) = str_lower (expected_sign hmac c d)
                       then (True, record_attempt (Some (petkit_id d)) s signmethod True
                               (mark_mqtt_connected now (d\<lparr>online := True\<rparr>) s a))
                       else if strict a
                       then (False, record_attempt (Some (petkit_id d)) s signmethod False a)
                       else (True, mark_mqtt_connected now (d\<lparr>online := True\<rparr>) s
                               (record_attempt (Some (petkit_id d)) s signmethod False a)))))"

text \<open>\<open>on_broker_client_connected\<close>; \<open>accepts\<close> is the broker's answer to one subscription.\<close>

definition server_subscribe :: "(string \<Rightarrow> bool) \<Rightarrow> device \<Rightarrow> auth \<Rightarrow> auth" where
  "server_subscribe accepts d a =
     (let added = filter accepts (downstream_filters (mqtt_product_key d) (mqtt_device_name d))
      in if added = [] then a
         else put_device (d\<lparr>mqtt_subscriptions := mqtt_subscriptions d
                @ filter (\<lambda>t. t \<notin> set (mqtt_subscriptions d)) added\<rparr>) a)"

definition client_connected :: "(string \<Rightarrow> bool) \<Rightarrow> string \<Rightarrow> auth \<Rightarrow> auth" where
  "client_connected accepts cid a =
     (case device_for_client cid a of None \<Rightarrow> a | Some d \<Rightarrow> server_subscribe accepts d a)"

text \<open>
  \<open>on_mqtt_packet_received\<close>; \<open>topics\<close> are the filters of a SUBSCRIBE, \<open>None\<close> for another packet or
  one whose list cannot be read.
\<close>

definition note_subscriptions :: "string list option \<Rightarrow> device \<Rightarrow> device" where
  "note_subscriptions topics d =
     (case topics of
        None \<Rightarrow> d
      | Some filters \<Rightarrow>
          (let fresh = filter (\<lambda>f. f \<notin> set (mqtt_subscriptions d)) filters
           in if fresh = [] then d
              else d\<lparr>mqtt_subscriptions := mqtt_subscriptions d @ fresh\<rparr>))"

definition packet_received :: "rat \<Rightarrow> nat \<Rightarrow> string list option \<Rightarrow> auth \<Rightarrow> auth" where
  "packet_received now sid topics a =
     (case find (\<lambda>(_, live). live = sid) (live_sessions a) of
        None \<Rightarrow> a
      | Some (pid, _) \<Rightarrow>
          (case Option.bind (auth_registry a) (get_device pid) of
             None \<Rightarrow> a
           | Some d \<Rightarrow> put_device (note_subscriptions topics (d\<lparr>last_mqtt := now\<rparr>)) a))"

definition client_disconnected :: "string \<Rightarrow> nat option \<Rightarrow> auth \<Rightarrow> auth" where
  "client_disconnected cid sid a =
     (case device_for_client cid a of
        None \<Rightarrow> a
      | Some d \<Rightarrow>
          if \<not> mqtt_connected d then a
          else (case (sid, map_of (live_sessions a) (petkit_id d)) of
                  (Some mine, Some live) \<Rightarrow>
                    if live \<noteq> mine then a
                    else (put_device (d\<lparr>mqtt_connected := False\<rparr>) a)
                           \<lparr>live_sessions := AList.delete (petkit_id d) (live_sessions a)\<rparr>
                | _ \<Rightarrow> (put_device (d\<lparr>mqtt_connected := False\<rparr>) a)
                         \<lparr>live_sessions := AList.delete (petkit_id d) (live_sessions a)\<rparr>))"

section \<open>The plugin as a machine\<close>

datatype auth_event =
    Connect rat session
  | Connected string "string list"
  | Packet rat nat "string list option"
  | Disconnected string "nat option"
  | Registered_device registration

text \<open>\<open>Connected cid refused\<close>: the filters the broker refuses are listed.\<close>

fun auth_step :: "hmac \<Rightarrow> auth \<Rightarrow> auth_event \<Rightarrow> auth" where
  "auth_step hmac a (Connect now s) = snd (authenticate hmac now s a)"
| "auth_step hmac a (Connected cid refused) = client_connected (\<lambda>f. f \<notin> set refused) cid a"
| "auth_step hmac a (Packet now sid topics) = packet_received now sid topics a"
| "auth_step hmac a (Disconnected cid sid) = client_disconnected cid sid a"
| "auth_step hmac a (Registered_device e) =
     a\<lparr>auth_registry := map_option (\<lambda>r. registers r e) (auth_registry a)\<rparr>"

text \<open>A device is marked connected only while the plugin holds a live session for it.\<close>

definition flags_live :: "(int \<times> nat) list \<Rightarrow> devices \<Rightarrow> bool" where
  "flags_live live es \<longleftrightarrow> list_all (\<lambda>(pid, d). mqtt_connected d \<longrightarrow> has_key live pid) es"

definition auth_ok :: "auth \<Rightarrow> bool" where
  "auth_ok a \<longleftrightarrow>
     (case auth_registry a of
        None \<Rightarrow> True | Some r \<Rightarrow> registry_ok r \<and> flags_live (live_sessions a) (reg_entries r))"

definition device_of :: "auth \<Rightarrow> int \<Rightarrow> device option" where
  "device_of a pid = Option.bind (auth_registry a) (get_device pid)"

section \<open>Lemmas\<close>

lemma registry_ok_update:
  "registry_ok r \<Longrightarrow> registry_ok (r\<lparr>reg_entries := AList.update (petkit_id d) d (reg_entries r)\<rparr>)"
proof -
  have "list_all (\<lambda>(pid, d). petkit_id d = pid) es \<Longrightarrow>
      list_all (\<lambda>(pid, d). petkit_id d = pid) (AList.update (petkit_id d) d es)" for es
    by (induction es) auto
  then show "registry_ok r \<Longrightarrow> ?thesis" by (simp add: registry_ok_def del: keys_update)
qed

lemma flags_live_update:
  "flags_live live es \<Longrightarrow> mqtt_connected d \<longrightarrow> has_key live pid \<Longrightarrow>
   flags_live live (AList.update pid d es)"
  by (induction es) (auto simp: flags_live_def)

lemma flags_live_more: "flags_live live es \<Longrightarrow> flags_live (AList.update pid s live) es"
  by (auto simp: flags_live_def list_all_iff)

lemma flags_live_less:
  assumes "flags_live live es" and "map_of es pid = Some d" and "\<not> mqtt_connected d" and "keys_distinct es"
  shows "flags_live (AList.delete pid live) es"
proof -
  have "e = d" if "(pid, e) \<in> set es" for e using assms(2,4) that by simp
  then show ?thesis
    using assms(1,3) by (force simp: flags_live_def list_all_iff delete_keys)
qed

lemma by_mqtt_name_key:
  assumes "registry_ok r" and "by_mqtt_name key name r = Some d"
  shows "map_of (reg_entries r) (petkit_id d) = Some d"
proof -
  have "d \<in> snd ` set (reg_entries r)"
    using assms(2) by (auto simp: by_mqtt_name_def find_Some_iff)
  then show ?thesis using assms(1) by (auto simp: registry_ok_def list_all_iff)
qed

lemma device_for_client_ok:
  assumes "auth_ok a" and "device_for_client cid a = Some d"
  obtains r where "auth_registry a = Some r" and "registry_ok r"
    and "flags_live (live_sessions a) (reg_entries r)" and "map_of (reg_entries r) (petkit_id d) = Some d"
  using assms by (auto simp: device_for_client_def auth_ok_def by_mqtt_name_key simp del: map_of_eq_Some_iff
      split: option.splits)

lemma put_device_simps [simp]:
  "live_sessions (put_device d a) = live_sessions a"
  "strict (put_device d a) = strict a"
  "attempts (put_device d a) = attempts a"
  "auth_registry (put_device d a) =
     map_option (\<lambda>r. r\<lparr>reg_entries := AList.update (petkit_id d) d (reg_entries r)\<rparr>) (auth_registry a)"
  by (simp_all add: put_device_def)

lemma auth_ok_put:
  "auth_ok a \<Longrightarrow> mqtt_connected d \<longrightarrow> has_key (live_sessions a) (petkit_id d) \<Longrightarrow> auth_ok (put_device d a)"
  by (auto simp: auth_ok_def registry_ok_update flags_live_update split: option.splits)

lemma connected_has_key:
  "auth_ok a \<Longrightarrow> device_of a pid = Some d \<Longrightarrow> mqtt_connected d \<Longrightarrow> has_key (live_sessions a) pid"
  by (auto simp: auth_ok_def device_of_def get_device_def flags_live_def list_all_iff
      split: option.splits bind_splits dest: map_of_SomeD)

lemma auth_ok_connect: "auth_ok a \<Longrightarrow> auth_ok (mark_mqtt_connected now d s a)"
  using registry_ok_update [of _ "d\<lparr>mqtt_connected := True, mqtt_connected_at := now, last_mqtt := now,
                    mqtt_subscriptions := []\<rparr>"]
  by (auto simp: mark_mqtt_connected_def auth_ok_def flags_live_more
      intro!: flags_live_update split: option.splits)

lemma auth_ok_record [simp]: "auth_ok (record_attempt p s m ok a) = auth_ok a"
  by (simp add: record_attempt_def auth_ok_def cong: option.case_cong)

lemma auth_ok_authenticate: "auth_ok a \<Longrightarrow> auth_ok (snd (authenticate hmac now s a))"
  by (auto simp: authenticate_def Let_def auth_ok_connect split: option.splits)

lemma note_subscriptions_simps [simp]:
  "petkit_id (note_subscriptions topics d) = petkit_id d"
  "mqtt_connected (note_subscriptions topics d) = mqtt_connected d"
  by (simp_all add: note_subscriptions_def Let_def split: option.split)

lemma auth_ok_subscribe: "auth_ok a \<Longrightarrow> auth_ok (client_connected accepts cid a)"
proof -
  assume ok: "auth_ok a"
  have "mqtt_connected d \<longrightarrow> has_key (live_sessions a) (petkit_id d)"
    if d: "device_for_client cid a = Some d" for d
  proof -
    obtain r where r: "auth_registry a = Some r" "map_of (reg_entries r) (petkit_id d) = Some d"
      using ok d by (rule device_for_client_ok)
    then have "device_of a (petkit_id d) = Some d" by (simp add: device_of_def get_device_def)
    then show ?thesis using connected_has_key [OF ok] by blast
  qed
  then show ?thesis
    using ok by (auto simp: client_connected_def server_subscribe_def Let_def
        split: option.splits intro!: auth_ok_put)
qed

lemma auth_ok_packet: "auth_ok a \<Longrightarrow> auth_ok (packet_received now sid topics a)"
proof -
  assume ok: "auth_ok a"
  have "petkit_id d = pid" if "Option.bind (auth_registry a) (get_device pid) = Some d" for pid d
    using ok that by (auto simp: auth_ok_def registry_ok_def get_device_def list_all_iff
        split: option.splits bind_splits dest: map_of_SomeD)
  then show ?thesis
    using ok connected_has_key [OF ok] by (auto simp: packet_received_def device_of_def
        split: option.splits intro!: auth_ok_put)
qed

lemma auth_ok_disconnect: "auth_ok a \<Longrightarrow> auth_ok (client_disconnected cid sid a)"
proof -
  assume ok: "auth_ok a"
  have drop: "auth_ok ((put_device (d\<lparr>mqtt_connected := False\<rparr>) a)
      \<lparr>live_sessions := AList.delete (petkit_id d) (live_sessions a)\<rparr>)"
    if d: "device_for_client cid a = Some d" for d
  proof -
    obtain r where r: "auth_registry a = Some r" "registry_ok r"
      "flags_live (live_sessions a) (reg_entries r)" "map_of (reg_entries r) (petkit_id d) = Some d"
      using ok d by (rule device_for_client_ok)
    let ?d = "d\<lparr>mqtt_connected := False\<rparr>"
    have "flags_live (live_sessions a) (AList.update (petkit_id d) ?d (reg_entries r))"
      using r(3) by (rule flags_live_update) simp
    then have "flags_live (AList.delete (petkit_id d) (live_sessions a))
        (AList.update (petkit_id d) ?d (reg_entries r))"
      by (rule flags_live_less [where d = ?d])
        (use r(2) in \<open>simp_all add: lookup_update registry_ok_def del: map_of_eq_Some_iff keys_update\<close>)
    then show ?thesis using r registry_ok_update [of r ?d] by (simp add: auth_ok_def)
  qed
  show ?thesis
    using ok drop by (auto simp: client_disconnected_def split: option.split)
qed

lemma refill_connected [simp]: "mqtt_connected (snd (refill sn hw fw d)) = mqtt_connected d"
  by (simp add: refill_def Let_def)

lemma new_device_connected [simp]:
  "\<not> mqtt_connected (merge_default_settings (new_device m dtype pid sn hw fw wt))"
  by (simp add: merge_default_settings_def Let_def new_device_def device_post_init_def
      split: option.split pyval.split)

lemma auth_ok_sign_up:
  assumes "auth_ok a"
  shows "auth_ok (a\<lparr>auth_registry := map_option (\<lambda>r. registers r e) (auth_registry a)\<rparr>)"
proof (cases "auth_registry a")
  case None
  then show ?thesis by (simp add: auth_ok_def)
next
  case (Some r)
  obtain env pid dtype sn hw fw where e: "e = Registration env pid dtype sn hw fw" by (cases e)
  have ok: "registry_ok r" and live: "flags_live (live_sessions a) (reg_entries r)"
    using assms Some by (simp_all add: auth_ok_def)
  have ok': "registry_ok (registers r e)" using ok by (simp add: e get_or_create_ok)
  have look: "mqtt_connected d \<longrightarrow> has_key (live_sessions a) k"
    if "map_of (reg_entries r) k = Some d" for k d
    using live map_of_SomeD [OF that] by (auto simp: flags_live_def list_all_iff)
  have "flags_live (live_sessions a) (reg_entries (registers r e))"
    using look ok' by (auto simp: flags_live_def keyed_lookup registry_ok_def e get_or_create_entries
        signed_up_def simp del: map_of_eq_Some_iff set_map split: option.splits if_splits)
  then show ?thesis using ok' Some by (simp add: auth_ok_def)
qed

lemma auth_step_ok: "auth_ok a \<Longrightarrow> auth_ok (auth_step hmac a e)"
  by (cases e) (simp_all add: auth_ok_authenticate auth_ok_subscribe auth_ok_packet
      auth_ok_disconnect auth_ok_sign_up del: registers.simps)

interpretation broker: machine "auth_step hmac" auth_ok for hmac
  by unfold_locales (rule auth_step_ok)

section \<open>Properties\<close>

text \<open>
  C14: under strict authentication a client with a device's client id gets on only when the
  registry holds a device with that product key and name, and the password is, letter case aside,
  the keyed hash of its secret over the bare client id; a client that is refused changes no device
  and no session, and every other device is untouched by one that gets on.
\<close>

theorem strict_admits_signed_devices:
  assumes "strict a" and "auth_registry a = Some r" and "auth_ok a"
    and "parse_client_id (session_client s) = Some c"
    and "authenticate hmac now s a = (admitted, a')"
  shows "(admitted \<longrightarrow> (\<exists>d. by_mqtt_name (client_key c) (client_name c) r = Some d
             \<and> str_lower (session_password s) = str_lower (expected_sign hmac c d)
             \<and> map_of (live_sessions a') (petkit_id d) = Some (session_id s)
             \<and> (\<exists>d'. device_of a' (petkit_id d) = Some d' \<and> mqtt_connected d' \<and> online d'
                  \<and> mqtt_subscriptions d' = [])
             \<and> (\<forall>pid. pid \<noteq> petkit_id d \<longrightarrow> device_of a' pid = device_of a pid)))
    \<and> (\<not> admitted \<longrightarrow> auth_registry a' = auth_registry a \<and> live_sessions a' = live_sessions a)"
proof (cases "by_mqtt_name (client_key c) (client_name c) r")
  case None
  then show ?thesis using assms by (auto simp: authenticate_def Let_def record_attempt_def)
next
  case (Some d)
  then show ?thesis using assms
    by (auto simp: authenticate_def Let_def record_attempt_def mark_mqtt_connected_def device_of_def
        get_device_def lookup_update simp del: map_of_eq_Some_iff split: if_splits)
qed

text \<open>
  C28: take-over. When a device connects again before the broker has torn its old session down, the
  teardown of the old session leaves the device connected on the new one, and the end of the new
  session disconnects it, whichever client ids with its name the two sessions used.
\<close>

theorem takeover_keeps_flag:
  assumes "auth_ok a" and "device_for_client cid a = Some d"
    and "map_of (live_sessions a) (petkit_id d) = Some new" and "old \<noteq> new"
  shows "client_disconnected cid (Some old) a = a
    \<and> (mqtt_connected d \<longrightarrow>
         map_option mqtt_connected (device_of (client_disconnected cid (Some new) a) (petkit_id d)) = Some False
         \<and> map_of (live_sessions (client_disconnected cid (Some new) a)) (petkit_id d) = None)"
proof -
  obtain r where "auth_registry a = Some r"
    using assms(1,2) by (rule device_for_client_ok)
  then show ?thesis using assms
    by (auto simp: client_disconnected_def device_of_def get_device_def lookup_update lookup_delete
        simp del: map_of_eq_Some_iff)
qed

text \<open>
  C27: through any sequence of connections, subscriptions, packets, disconnections and registrations, the
  registry stays well-formed, and a device marked as connected has a session recorded as live under its
  id. (Which disconnections clear it is another matter: see \<open>renamed_device_stays_connected\<close>.)
\<close>

theorem connected_device_has_session:
  assumes "auth_ok a" and "auth_registry (foldl (auth_step hmac) a es) = Some r"
  shows "registry_ok r
    \<and> (\<forall>pid d. device_of (foldl (auth_step hmac) a es) pid = Some d \<and> mqtt_connected d \<longrightarrow>
         map_of (live_sessions (foldl (auth_step hmac) a es)) pid \<noteq> None)"
proof -
  have ok: "auth_ok (foldl (auth_step hmac) a es)" by (rule broker.run_inv [OF assms(1)])
  then show ?thesis
    using connected_has_key [OF ok] assms(2) by (auto simp: auth_ok_def map_of_eq_None_iff)
qed

text \<open>One device in the registry, a hash that spells out its arguments, two sessions.\<close>

definition sample_hmac :: hmac where
  "sample_hmac alg key msg = alg @ key @ msg"

definition sample_auth :: auth where
  "sample_auth = \<lparr>auth_registry = Some sample_registry, strict = True, live_sessions = [], attempts = []\<rparr>"

definition sample_client :: string where
  "sample_client = ''a1KEY.d_t5_9|timestamp=5,signmethod=hmacsha256|''"

definition sample_session :: "nat \<Rightarrow> session" where
  "sample_session n =
     \<lparr>session_id = n, session_client = sample_client, session_user = ''d_t5_9&a1KEY'',
      session_password = ''SHA256s3cretclientIda1KEY.d_t5_9deviceNamed_t5_9productKeya1KEYtimestamp5''\<rparr>"

definition sample_parsed :: client where
  "sample_parsed = \<lparr>client_key = ''a1KEY'', client_name = ''d_t5_9'', client_timestamp = ''5'',
     client_params = [(''timestamp'', ''5''), (''signmethod'', ''hmacsha256'')]\<rparr>"

definition sample_device :: device where
  "sample_device = merge_default_settings (new_device (env_mint sample_env) ''t5'' 9 [] [] ''1.0'' [])"

lemma sample_parse: "parse_client_id sample_client = Some sample_parsed"
  by code_simp

lemma sample_auth_ok: "auth_ok sample_auth"
  using sample_registry_ok
  by (simp add: auth_ok_def sample_auth_def flags_live_def sample_registry_def get_or_create_def Let_def)

lemma sample_lookup: "by_mqtt_name ''a1KEY'' ''d_t5_9'' sample_registry = Some sample_device"
proof -
  have "int_text 9 = ''9''" by code_simp
  then show ?thesis
    by (simp add: by_mqtt_name_def sample_registry_def get_or_create_def Let_def sample_device_def
        new_device_def device_post_init_def derived_name_def sample_env_def)
qed

lemma sample_device_simps: "petkit_id sample_device = 9" "mqtt_device_secret sample_device = ''s3cret''"
  by (simp_all add: sample_device_def new_device_def device_post_init_def sample_env_def)

lemma sample_signed:
  "str_lower (session_password (sample_session n)) = str_lower (expected_sign sample_hmac sample_parsed sample_device)"
proof -
  have "expected_sign sample_hmac sample_parsed sample_device = ''sha256s3cretclientIda1KEY.d_t5_9deviceNamed_t5_9productKeya1KEYtimestamp5''"
    unfolding expected_sign_def compute_aliyun_sign_def sample_device_simps by code_simp
  moreover have "str_lower ''SHA256s3cretclientIda1KEY.d_t5_9deviceNamed_t5_9productKeya1KEYtimestamp5''
    = str_lower ''sha256s3cretclientIda1KEY.d_t5_9deviceNamed_t5_9productKeya1KEYtimestamp5''"
    by code_simp
  ultimately show ?thesis by (simp add: sample_session_def)
qed

definition sample_connected :: auth where
  "sample_connected = snd (authenticate sample_hmac 100 (sample_session 1) sample_auth)"

lemma sample_authenticate:
  "authenticate sample_hmac 100 (sample_session 1) sample_auth = (True, sample_connected)"
  using sample_signed [of 1]
  by (simp add: sample_connected_def authenticate_def sample_auth_def Let_def sample_session_def sample_parse
      sample_lookup sample_parsed_def)

theorem strict_admits_signed_devices_witness:
  "map_of (live_sessions sample_connected) 9 = Some 1
   \<and> (\<exists>d'. device_of sample_connected 9 = Some d' \<and> mqtt_connected d')"
proof -
  have "\<exists>d. by_mqtt_name ''a1KEY'' ''d_t5_9'' sample_registry = Some d
      \<and> map_of (live_sessions sample_connected) (petkit_id d) = Some 1
      \<and> (\<exists>d'. device_of sample_connected (petkit_id d) = Some d' \<and> mqtt_connected d')"
    using strict_admits_signed_devices [OF _ _ sample_auth_ok _ sample_authenticate]
    by (fastforce simp: sample_auth_def sample_session_def sample_parse sample_parsed_def)
  then show ?thesis by (auto simp: sample_lookup sample_device_simps)
qed

lemma sample_connected_simps:
  "auth_ok sample_connected" "live_sessions sample_connected = [(9, 1)]"
  "device_for_client sample_client sample_connected
     = Some (sample_device\<lparr>online := True, mqtt_connected := True, mqtt_connected_at := 100,
         last_mqtt := 100, mqtt_subscriptions := []\<rparr>)"
proof -
  show "auth_ok sample_connected"
    unfolding sample_connected_def using sample_auth_ok by (rule auth_ok_authenticate)
  have one: "reg_entries sample_registry = [(9, sample_device)]"
    by (simp add: sample_registry_def get_or_create_def Let_def sample_device_def)
  have c: "sample_connected = record_attempt (Some 9) (sample_session 1) ''hmacsha256'' True
      (mark_mqtt_connected 100 (sample_device\<lparr>online := True\<rparr>) (sample_session 1) sample_auth)"
    using sample_signed [of 1]
    by (simp add: sample_connected_def authenticate_def sample_auth_def Let_def sample_session_def
        sample_parse sample_lookup sample_parsed_def sample_device_simps)
  show "live_sessions sample_connected = [(9, 1)]"
    by (simp add: c record_attempt_def mark_mqtt_connected_def sample_auth_def sample_session_def
        sample_device_simps)
  show "device_for_client sample_client sample_connected
     = Some (sample_device\<lparr>online := True, mqtt_connected := True, mqtt_connected_at := 100,
         last_mqtt := 100, mqtt_subscriptions := []\<rparr>)"
    using sample_lookup
    by (simp add: c record_attempt_def mark_mqtt_connected_def sample_auth_def sample_device_simps
        device_for_client_def sample_parse sample_parsed_def by_mqtt_name_def one split: if_splits)
qed

theorem takeover_keeps_flag_witness:
  "client_disconnected sample_client (Some 0) sample_connected = sample_connected
   \<and> map_option mqtt_connected (device_of (client_disconnected sample_client (Some 1) sample_connected) 9)
       = Some False"
  using takeover_keeps_flag [OF sample_connected_simps(1,3), of 1 0]
  by (simp add: sample_connected_simps(2) sample_device_simps)

theorem connected_device_has_session_witness:
  "map_of (live_sessions (foldl (auth_step sample_hmac) sample_auth [Connect 100 (sample_session 1)])) 9 \<noteq> None"
proof -
  have "foldl (auth_step sample_hmac) sample_auth [Connect 100 (sample_session 1)] = sample_connected"
    by (simp add: sample_authenticate del: One_nat_def)
  moreover have "device_of sample_connected 9 = Some (sample_device\<lparr>online := True, mqtt_connected := True,
      mqtt_connected_at := 100, last_mqtt := 100, mqtt_subscriptions := []\<rparr>)"
    using device_for_client_ok [OF sample_connected_simps(1,3)]
    by (force simp: device_of_def get_device_def sample_device_simps)
  moreover obtain r where "auth_registry sample_connected = Some r"
    using device_for_client_ok [OF sample_connected_simps(1,3)] by blast
  ultimately show ?thesis
    using connected_device_has_session [OF sample_auth_ok, of sample_hmac "[Connect 100 (sample_session 1)]" r]
    by simp
qed

text \<open>
  A connected device whose serial number arrives late is renamed, so the end of the session it
  opened under its old name is not recognised: the device stays marked as connected.
\<close>

theorem renamed_device_stays_connected:
  "let a = auth_step sample_hmac sample_connected
             (Registered_device (Registration sample_env 9 ''t5'' ''SN1'' [] []));
       b = auth_step sample_hmac a (Disconnected sample_client (Some 1))
   in map_option mqtt_connected (device_of b 9) = Some True
      \<and> map_option mqtt_connected (device_of
           (auth_step sample_hmac sample_connected (Disconnected sample_client (Some 1))) 9) = Some False"
  by code_simp

text \<open>
  A digest name the plugin does not know selects SHA-256, so a password signed with SHA-256 is
  accepted under any unknown name: such a signature does match.
\<close>

lemma unknown_method_is_sha256:
  "map_of digests (str_lower m) = None \<Longrightarrow>
   compute_aliyun_sign hmac secret cid dn pk ts m = compute_aliyun_sign hmac secret cid dn pk ts ''hmacsha256''"
proof -
  have "str_lower ''hmacsha256'' = ''hmacsha256''" by code_simp
  then show "map_of digests (str_lower m) = None \<Longrightarrow> ?thesis"
    by (simp add: compute_aliyun_sign_def) (simp add: digests_def)
qed

end
