(* ===== verification/Heartbeat.thy ===== *)
theory Heartbeat
  imports Device Json
begin

text \<open>
  The heartbeat (\<open>http/handlers/heartbeat.py\<close>): the translation of a queued command into the flat
  object the HTTP channel carries, the liveness it records, the drain of the command queue into one
  answer, and the test that protects an answer that carries commands. The rules the module's header
  gives for the entries of an answer are a predicate on answers.

  The clock is read several times while one request is handled; each reading is an argument. Python's
  \<open>str\<close> of a value that is neither text nor a number is a parameter.
\<close>

section \<open>Content of one entry\<close>

definition msg_type_property_set :: int where "msg_type_property_set = 1"
definition msg_type_service_invoke :: int where "msg_type_service_invoke = 2"

text \<open>The content string: a queued text as it is, or the JSON text of a value.\<close>

datatype content = Raw string | Dumped pyval

definition dots_to_slashes :: "string \<Rightarrow> string" where
  "dots_to_slashes s = map (\<lambda>c. if c = CHR ''.'' then CHR ''/'' else c) s"

text \<open>\<open>_service_of\<close>: the service, and the command without the producer's marker.\<close>

definition service_of :: "(pyval \<Rightarrow> string) \<Rightarrow> pydict \<Rightarrow> string \<times> pydict" where
  "service_of repr cmd =
     (let service = (case map_of cmd ''_service_suffix'' of Some v \<Rightarrow> v | None \<Rightarrow> PStr []);
          cmd' = AList.delete ''_service_suffix'' cmd
      in (if truthy service then py_str repr service
          else (case cut_at ''thing.service.''
                       (py_str repr (case map_of cmd' ''method'' of Some v \<Rightarrow> v | None \<Rightarrow> PStr [])) of
                  Some (_, tail) \<Rightarrow> dots_to_slashes tail | None \<Rightarrow> []), cmd'))"

definition to_heartbeat_content :: "(pyval \<Rightarrow> string) \<Rightarrow> rat \<Rightarrow> pyval \<Rightarrow> content" where
  "to_heartbeat_content repr now cmd =
     (case cmd of
        PStr s \<Rightarrow> Raw s
      | PDict d \<Rightarrow>
          if has_key d ''msgType'' then
            Dumped (PDict (if has_key d ''timestamp'' then d
                           else AList.update ''timestamp'' (PInt (trunc now)) d))
          else
            (let (service, d') = service_of repr d;
                 params = (case map_of d' ''params'' of Some p \<Rightarrow> p | None \<Rightarrow> PDict d')
             in if service = ''property/set'' then
                  Dumped (PDict [(''msgType'', PInt msg_type_property_set), (''payload'', params),
                                 (''timestamp'', PInt (trunc now))])
                else
                  Dumped (PDict [(''msgType'', PInt msg_type_service_invoke), (''payload'', params),
                                 (''type'', PStr (if service = [] then ''start'' else service)),
                                 (''timestamp'', PInt (trunc now))]))
      | v \<Rightarrow> Dumped v)"

section \<open>Handling one poll\<close>

definition iot_status_grace :: rat where "iot_status_grace = 15"

definition note_iot_status :: "rat \<Rightarrow> string option \<Rightarrow> device \<Rightarrow> device" where
  "note_iot_status now raw d =
     (case raw of
        None \<Rightarrow> d
      | Some s \<Rightarrow>
          if \<not> mqtt_connected d then d
          else if (case to_bool (PStr s) of Some b \<Rightarrow> b | None \<Rightarrow> True) then d
          else if now - mqtt_connected_at d < iot_status_grace then d
          else d\<lparr>mqtt_connected := False\<rparr>)"

datatype entry =
    Idle int
  | Command int int content

text \<open>The readings of the clock, in the order the handler takes them.\<close>

record clock =
  at_start :: rat
  at_stamp :: rat
  at_status :: rat
  at_batch :: rat
  at_content :: rat

definition handle_heartbeat ::
    "(pyval \<Rightarrow> string) \<Rightarrow> clock \<Rightarrow> string option \<Rightarrow> device option \<Rightarrow> entry list \<times> device option" where
  "handle_heartbeat repr clock iot_status device =
     (let ts_ms = trunc (at_start clock * 1000) in
      case device of
        None \<Rightarrow> ([Idle ts_ms], None)
      | Some d \<Rightarrow>
          (let d' = note_iot_status (at_status clock) iot_status
                      (d\<lparr>last_heartbeat := at_stamp clock, online := True\<rparr>);
               (cmds, d'') = pop_commands d';
               ts = trunc (at_batch clock)
           in if cmds \<noteq> []
              then (map (\<lambda>(offset, cmd). Command (ts_ms + int offset * 1000) (ts + int offset)
                           (to_heartbeat_content repr (at_content clock) cmd))
                      (List.enumerate 0 cmds), Some d'')
              else ([Idle ts_ms], Some d'')))"

section \<open>An answer that carries commands\<close>

fun entry_value :: "(content \<Rightarrow> string) \<Rightarrow> entry \<Rightarrow> pyval" where
  "entry_value text (Idle t) = PDict [(''time'', PInt t)]"
| "entry_value text (Command t s c) =
     PDict [(''time'', PInt t), (''timestamp'', PInt s), (''content'', PStr (text c))]"

definition is_idle_marker :: "pyval \<Rightarrow> bool" where
  "is_idle_marker e =
     (case e of PDict d \<Rightarrow> list_all (\<lambda>k. k = ''time'' \<or> k = ''timestamp'') (map fst d) | _ \<Rightarrow> False)"

text \<open>\<open>carries_commands\<close>, of the decoded body; \<open>None\<close> when it does not parse.\<close>

definition carries_commands :: "pyval option \<Rightarrow> bool" where
  "carries_commands body =
     (case body of
        Some (PDict data) \<Rightarrow>
          (case map_of data ''result'' of
             Some (PList es) \<Rightarrow> list_ex (\<lambda>e. \<not> is_idle_marker e) es
           | _ \<Rightarrow> False)
      | _ \<Rightarrow> False)"

section \<open>The documented rules\<close>

text \<open>
  The rules for entries, from the module's header: \<open>timestamp\<close> is greater than the last one consumed;
  \<open>time / 1000 - timestamp\<close>, on unsigned 32-bit numbers, is below 61; the \<open>msgType\<close> of the content is
  one of the three there are. \<open>meets_rules\<close> takes the last consumed stamp.
\<close>

definition not_expired :: "int \<Rightarrow> int \<Rightarrow> bool" where
  "not_expired t s \<longleftrightarrow> (word_of_int (t div 1000) - word_of_int s :: 32 word) < 61"

definition msg_type_known :: "pyval \<Rightarrow> bool" where
  "msg_type_known v =
     (case v of
        PDict d \<Rightarrow> (case map_of d ''msgType'' of Some t \<Rightarrow> t \<in> {PInt 0, PInt 1, PInt 2} | None \<Rightarrow> False)
      | _ \<Rightarrow> False)"

definition dispatched :: "content \<Rightarrow> bool" where
  "dispatched c =
     (case c of
        Dumped v \<Rightarrow> msg_type_known v
      | Raw s \<Rightarrow> (case json_loads s of Inr v \<Rightarrow> msg_type_known v | Inl _ \<Rightarrow> False))"

fun meets_rules :: "int \<Rightarrow> entry list \<Rightarrow> bool" where
  "meets_rules consumed [] = True"
| "meets_rules consumed (Idle _ # es) = meets_rules consumed es"
| "meets_rules consumed (Command t s c # es) =
     (consumed < s \<and> not_expired t s \<and> dispatched c \<and> meets_rules s es)"

definition contents :: "entry list \<Rightarrow> content list" where
  "contents answer = concat (map (\<lambda>e. case e of Command _ _ c \<Rightarrow> [c] | Idle _ \<Rightarrow> []) answer)"

section \<open>Lemmas\<close>

lemma note_iot_status_simps [simp]:
  "command_queue (note_iot_status now raw d) = command_queue d"
  "online (note_iot_status now raw d) = online d"
  "last_heartbeat (note_iot_status now raw d) = last_heartbeat d"
  by (simp_all add: note_iot_status_def split: option.split)

lemma shifted_second: "(t + int n * 1000) div 1000 = t div 1000 + int n"
  by simp

lemma not_expired_same_second: "t div 1000 = s \<Longrightarrow> not_expired (t + int n * 1000) (s + int n)"
  by (simp add: not_expired_def)

lemma batch_meets_rules:
  assumes "t div 1000 = s" and "consumed < s + int k"
  shows "meets_rules consumed (map (\<lambda>(n, cmd). Command (t + int n * 1000) (s + int n) (f cmd)) (List.enumerate k cmds))
    \<longleftrightarrow> list_all (\<lambda>cmd. dispatched (f cmd)) cmds"
  using assms(2)
proof (induction cmds arbitrary: k consumed)
  case (Cons c cmds)
  then show ?case using not_expired_same_second [OF assms(1), of k] Cons.IH [of "s + int k" "Suc k"] by simp
qed simp

lemma batch_contents:
  "contents (map (\<lambda>(n, cmd). Command (t + int n * 1000) (s + int n) (f cmd)) (List.enumerate k cmds)) = map f cmds"
  by (induction cmds arbitrary: k) (simp_all add: contents_def)

lemma envelope_dispatched:
  "\<not> has_key e ''msgType'' \<Longrightarrow> dispatched (to_heartbeat_content repr now (PDict e))"
  by (simp add: to_heartbeat_content_def dispatched_def msg_type_known_def msg_type_property_set_def
      msg_type_service_invoke_def Let_def split: prod.split)

text \<open>A stamp ahead of its \<open>time\<close> wraps.\<close>

lemma ahead_expired:
  assumes "t div 1000 < s" and "s - t div 1000 \<le> 2 ^ 31"
  shows "\<not> not_expired t s"
proof -
  let ?d = "t div 1000 - s"
  have "word_of_int (t div 1000) - word_of_int s = (word_of_int ?d :: 32 word)" by simp
  moreover have "uint (word_of_int ?d :: 32 word) = ?d + 2 ^ 32"
  proof -
    have "?d mod 2 ^ 32 = (?d + 2 ^ 32) mod 2 ^ 32" by (simp only: mod_add_self2)
    also have "\<dots> = ?d + 2 ^ 32" using assms by (intro mod_pos_pos_trivial) simp_all
    finally show ?thesis by (simp only: uint_word_of_int len_num1 len_bit0) simp
  qed
  ultimately show ?thesis using assms(2) by (simp add: not_expired_def word_less_def)
qed

lemma div_between: "n * 1000 \<le> m \<Longrightarrow> m < (n + 1) * 1000 \<Longrightarrow> m div 1000 = (n :: int)"
  using int_div_pos_eq [of m 1000 n "m - 1000 * n"] by (simp add: algebra_simps)

lemma same_second: "trunc t = trunc u \<Longrightarrow> 0 \<le> t \<Longrightarrow> 0 \<le> u \<Longrightarrow> trunc (t * 1000) div 1000 = trunc u"
proof -
  assume "trunc t = trunc u" and "0 \<le> t" and "0 \<le> u"
  moreover have "\<lfloor>t * 1000\<rfloor> div 1000 = \<lfloor>t\<rfloor>" for t :: rat
  proof -
    have "\<lfloor>t\<rfloor> * 1000 \<le> \<lfloor>t * 1000\<rfloor>" by (simp add: le_floor_iff)
    moreover have "t * 1000 < of_int ((\<lfloor>t\<rfloor> + 1) * 1000)"
      using floor_correct [of t] by simp
    then have "\<lfloor>t * 1000\<rfloor> < (\<lfloor>t\<rfloor> + 1) * 1000" by (simp only: floor_less_iff)
    ultimately show ?thesis by (rule div_between)
  qed
  ultimately show ?thesis by (simp add: trunc_def)
qed

section \<open>Properties\<close>

text \<open>
  A poll drains the queue in one answer: every queued command goes out once, in order, its own
  content; the queue is empty afterwards, the device is online with a fresh liveness stamp, the
  stamps of the entries rise by one second each, and a device that had nothing queued gets the idle
  answer.
\<close>

theorem heartbeat_drains_queue:
  assumes "handle_heartbeat repr clock iot (Some d) = (answer, device)"
  shows "(\<exists>d'. device = Some d' \<and> command_queue d' = [] \<and> online d' \<and> last_heartbeat d' = at_stamp clock)
    \<and> (command_queue d = [] \<longrightarrow> answer = [Idle (trunc (at_start clock * 1000))])
    \<and> (command_queue d \<noteq> [] \<longrightarrow>
         length answer = length (command_queue d)
         \<and> (\<forall>n < length answer.
              answer ! n = Command (trunc (at_start clock * 1000) + int n * 1000)
                (trunc (at_batch clock) + int n)
                (to_heartbeat_content repr (at_content clock) (command_queue d ! n))))"
  using assms
  by (auto simp: handle_heartbeat_def pop_commands_def Let_def length_enumerate nth_enumerate_eq
      split: if_splits)

text \<open>
  C9: when the two readings of the clock that stamp an answer fall in the same second, and that second
  comes after the last consumed stamp, the answer carries the content of every queued command once
  and in order, and every entry meets the documented rules exactly when each content has one of the
  three message types, which each queued command envelope gets.
\<close>

theorem heartbeat_batch_meets_rules:
  assumes "handle_heartbeat repr clock iot (Some d) = (answer, device)"
    and "0 \<le> at_start clock" and "0 \<le> at_batch clock" and "trunc (at_start clock) = trunc (at_batch clock)"
    and "consumed < trunc (at_batch clock)"
  shows "contents answer = map (to_heartbeat_content repr (at_content clock)) (command_queue d)
    \<and> (meets_rules consumed answer \<longleftrightarrow> list_all dispatched (contents answer))
    \<and> (\<forall>e. PDict e \<in> set (command_queue d) \<and> \<not> has_key e ''msgType'' \<longrightarrow>
         dispatched (to_heartbeat_content repr (at_content clock) (PDict e)))"
proof (cases "command_queue d = []")
  case True
  then show ?thesis using assms(1) by (auto simp: handle_heartbeat_def pop_commands_def Let_def contents_def)
next
  case False
  let ?f = "to_heartbeat_content repr (at_content clock)"
  have "answer = map (\<lambda>(n, cmd). Command (trunc (at_start clock * 1000) + int n * 1000)
      (trunc (at_batch clock) + int n) (?f cmd)) (List.enumerate 0 (command_queue d))"
    using assms(1) False by (simp add: handle_heartbeat_def pop_commands_def Let_def)
  then show ?thesis
    using batch_meets_rules [OF same_second [OF assms(4,2,3)], of consumed 0 ?f "command_queue d"] assms(5)
    by (simp add: batch_contents envelope_dispatched list.pred_map comp_def)
qed

definition sample_clock :: "rat \<Rightarrow> clock" where
  "sample_clock t =
     \<lparr>at_start = 1000, at_stamp = 1000, at_status = 1000, at_batch = t, at_content = t\<rparr>"

definition polled_device :: device where
  "polled_device = (new_device \<lparr>minted_key = [], minted_secret = [], minted_time = 0\<rparr> ''d4'' 9 [] [] [] [])
     \<lparr>command_queue := [PStr ''a'', PDict [(''method'', PStr ''thing.service.start''), (''params'', PInt 1)]]\<rparr>"

definition sample_answer :: "rat \<Rightarrow> entry list" where
  "sample_answer t = fst (handle_heartbeat (\<lambda>_. []) (sample_clock t) None (Some polled_device))"

theorem heartbeat_drains_queue_witness: "length (sample_answer 1000) = 2"
proof -
  obtain answer device
    where h: "handle_heartbeat (\<lambda>_. []) (sample_clock 1000) None (Some polled_device) = (answer, device)"
    by fastforce
  have "command_queue polled_device \<noteq> []" and "length (command_queue polled_device) = 2"
    by (simp_all add: polled_device_def)
  moreover have "sample_answer 1000 = answer" by (simp add: sample_answer_def h)
  ultimately show ?thesis using heartbeat_drains_queue [OF h] by simp
qed

definition enveloped_device :: device where
  "enveloped_device = polled_device\<lparr>command_queue :=
     [PDict [(''method'', PStr ''thing.service.start''), (''params'', PInt 1)],
      PDict [(''method'', PStr ''thing.service.property.set''), (''params'', PInt 2)]]\<rparr>"

theorem heartbeat_batch_meets_rules_witness:
  "meets_rules 999 (fst (handle_heartbeat (\<lambda>_. []) (sample_clock 1000) None (Some enveloped_device)))
   \<and> length (contents (fst (handle_heartbeat (\<lambda>_. []) (sample_clock 1000) None (Some enveloped_device)))) = 2"
proof -
  obtain answer device
    where h: "handle_heartbeat (\<lambda>_. []) (sample_clock 1000) None (Some enveloped_device) = (answer, device)"
    by fastforce
  have "trunc (at_start (sample_clock 1000)) = 1000" "trunc (at_batch (sample_clock 1000)) = 1000"
    by (simp_all add: sample_clock_def trunc_def)
  then have "contents answer = map (to_heartbeat_content (\<lambda>_. []) 1000) (command_queue enveloped_device)
    \<and> (meets_rules 999 answer \<longleftrightarrow> list_all dispatched (contents answer))
    \<and> (\<forall>e. PDict e \<in> set (command_queue enveloped_device) \<and> \<not> has_key e ''msgType'' \<longrightarrow>
         dispatched (to_heartbeat_content (\<lambda>_. []) 1000 (PDict e)))"
    using heartbeat_batch_meets_rules [OF h, of 999] by (simp add: sample_clock_def)
  then have "meets_rules 999 answer \<and> length (contents answer) = 2" by (simp add: enveloped_device_def)
  then show ?thesis unfolding h by simp
qed

text \<open>
  C37: when the clock passes a second boundary between the two readings, whatever is queued, every entry
  of the answer has a stamp ahead of its time, so that its unsigned age wraps and the entry is expired
  by the documented rule; and the queue is empty all the same.
\<close>

theorem heartbeat_loses_commands:
  assumes "handle_heartbeat repr clock iot (Some d) = (answer, device)" and "command_queue d \<noteq> []"
    and "0 \<le> at_start clock" and "0 \<le> at_batch clock"
    and "trunc (at_start clock) < trunc (at_batch clock)"
    and "trunc (at_batch clock) - trunc (at_start clock) \<le> 2 ^ 31"
  shows "list_all (\<lambda>e. case e of Command t s c \<Rightarrow> \<not> not_expired t s | Idle _ \<Rightarrow> False) answer
    \<and> length answer = length (command_queue d) \<and> map_option command_queue device = Some []"
proof -
  have sec: "trunc (at_start clock * 1000) div 1000 = trunc (at_start clock)"
    using same_second [OF refl assms(3,3)] .
  then have "\<not> not_expired (trunc (at_start clock * 1000) + int n * 1000) (trunc (at_batch clock) + int n)" for n
    using assms(5,6) by (intro ahead_expired) simp_all
  then show ?thesis
    using assms(1,2) by (auto simp: handle_heartbeat_def pop_commands_def Let_def list_all_iff length_enumerate)
qed

theorem heartbeat_loses_commands_witness:
  "let (answer, device) = handle_heartbeat (\<lambda>_. [])
         \<lparr>at_start = 9999 / 10, at_stamp = 1000, at_status = 1000, at_batch = 1000, at_content = 1000\<rparr>
         None (Some enveloped_device)
   in \<not> meets_rules 0 answer \<and> map_option command_queue device = Some []"
proof -
  let ?clock = "\<lparr>at_start = 9999 / 10, at_stamp = 1000, at_status = 1000, at_batch = 1000, at_content = 1000\<rparr>"
  obtain answer device
    where h: "handle_heartbeat (\<lambda>_. []) ?clock None (Some enveloped_device) = (answer, device)"
    by fastforce
  have "trunc (at_start ?clock) = 999" "trunc (at_batch ?clock) = 1000" by (simp_all add: trunc_def floor_eq_iff)
  then have "list_all (\<lambda>e. case e of Command t s c \<Rightarrow> \<not> not_expired t s | Idle _ \<Rightarrow> False) answer"
    and "length answer = 2" and q: "map_option command_queue device = Some []"
    using heartbeat_loses_commands [OF h] by (simp_all add: enveloped_device_def)
  then have "\<not> meets_rules 0 answer" by (cases answer) (auto split: entry.splits)
  then show ?thesis using q unfolding h by simp
qed

text \<open>
  A batch of more commands than there are seconds to the next poll runs its stamps past the next
  one's: the first entry of the next answer is not greater than the last of this one, so by the
  documented rule it counts as consumed.
\<close>

lemma long_batch_hides_next:
  assumes "handle_heartbeat repr clock iot (Some d) = (answer, device)" and "command_queue d \<noteq> []"
    and "handle_heartbeat repr clock' iot' (Some d') = (answer', device')" and "command_queue d' \<noteq> []"
    and "trunc (at_batch clock') < trunc (at_batch clock) + int (length (command_queue d))"
  shows "\<exists>t s c t' s' c'. last answer = Command t s c \<and> hd answer' = Command t' s' c' \<and> s' \<le> s"
proof -
  let ?k = "length (command_queue d) - 1"
  have n: "length answer = length (command_queue d)"
    and "answer ! ?k = Command (trunc (at_start clock * 1000) + int ?k * 1000) (trunc (at_batch clock) + int ?k)
      (to_heartbeat_content repr (at_content clock) (command_queue d ! ?k))"
    using heartbeat_drains_queue [OF assms(1)] assms(2) by auto
  moreover have "answer \<noteq> []" using n assms(2) by auto
  ultimately have l: "last answer = Command (trunc (at_start clock * 1000) + int ?k * 1000)
      (trunc (at_batch clock) + int ?k) (to_heartbeat_content repr (at_content clock) (command_queue d ! ?k))"
    by (simp add: last_conv_nth)
  have "length answer' = length (command_queue d')"
    and "answer' ! 0 = Command (trunc (at_start clock' * 1000)) (trunc (at_batch clock'))
      (to_heartbeat_content repr (at_content clock') (command_queue d' ! 0))"
    using heartbeat_drains_queue [OF assms(3)] assms(4) by auto
  moreover from this(1) have "answer' \<noteq> []" using assms(4) by auto
  ultimately have "hd answer' = Command (trunc (at_start clock' * 1000)) (trunc (at_batch clock'))
      (to_heartbeat_content repr (at_content clock') (command_queue d' ! 0))"
    by (simp add: hd_conv_nth)
  moreover have "trunc (at_batch clock') \<le> trunc (at_batch clock) + int ?k"
    using assms(2,5) by (cases "command_queue d") auto
  ultimately show ?thesis using l by blast
qed

text \<open>
  A lost session is believed only from a device that reports it, only while we think it
  connected, and only once the grace period since its last connection is over; no report ever sets
  the flag, and a value that cannot be read changes nothing.
\<close>

theorem iot_status_only_clears:
  "mqtt_connected (note_iot_status now raw d) \<longleftrightarrow>
     mqtt_connected d
     \<and> \<not> ((\<exists>s. raw = Some s \<and> to_bool (PStr s) = Some False)
          \<and> iot_status_grace \<le> now - mqtt_connected_at d)"
  by (auto simp: note_iot_status_def split: option.splits)

text \<open>
  An answer is protected exactly when it delivers something: the decoded body of a heartbeat
  answer carries commands if and only if the queue was not empty.
\<close>

theorem carries_commands_iff:
  "carries_commands (Some (PDict [(''result'',
       PList (map (entry_value text) (fst (handle_heartbeat repr clock iot (Some d)))))]))
   \<longleftrightarrow> command_queue d \<noteq> []"
proof (cases "command_queue d")
  case Nil
  then show ?thesis
    by (simp add: handle_heartbeat_def pop_commands_def Let_def carries_commands_def is_idle_marker_def)
next
  case (Cons c cs)
  then show ?thesis
    by (simp add: handle_heartbeat_def pop_commands_def Let_def carries_commands_def is_idle_marker_def)
qed

text \<open>
  Every queued envelope is translated to what the firmware dispatches: a property set becomes
  type 1 with the parameters as its payload and no service name, any other becomes type 2 under the
  name of its service, the producer's marker is never sent, and a command already in the flat form
  keeps its fields.
\<close>

theorem heartbeat_content_spec:
  assumes "keys_distinct cmd"
  shows "(has_key cmd ''msgType'' \<longrightarrow>
       (\<exists>out. to_heartbeat_content repr now (PDict cmd) = Dumped (PDict out)
          \<and> map_of out = (map_of cmd)(''timestamp'' :=
              (case map_of cmd ''timestamp'' of None \<Rightarrow> Some (PInt (trunc now)) | v \<Rightarrow> v))))
    \<and> (\<not> has_key cmd ''msgType'' \<longrightarrow>
       (\<exists>out service. to_heartbeat_content repr now (PDict cmd) = Dumped (PDict out)
          \<and> service = fst (service_of repr cmd)
          \<and> map_of out ''msgType'' = Some (PInt (if service = ''property/set'' then 1 else 2))
          \<and> map_of out ''type'' = (if service = ''property/set'' then None
                else Some (PStr (if service = [] then ''start'' else service)))
          \<and> (\<forall>params. map_of cmd ''params'' = Some params \<longrightarrow> map_of out ''payload'' = Some params)
          \<and> (map_of cmd ''params'' = None \<longrightarrow>
               (\<exists>payload. map_of out ''payload'' = Some (PDict payload)
                  \<and> map_of payload = (map_of cmd)(''_service_suffix'' := None)))))"
proof (cases "has_key cmd ''msgType''")
  case True
  then have c: "to_heartbeat_content repr now (PDict cmd) = Dumped (PDict
      (if has_key cmd ''timestamp'' then cmd else AList.update ''timestamp'' (PInt (trunc now)) cmd))"
    by (simp only: to_heartbeat_content_def pyval.case if_True)
  show ?thesis
  proof (cases "map_of cmd ''timestamp''")
    case None
    then have "\<not> has_key cmd ''timestamp''" by (simp add: map_of_eq_None_iff)
    then show ?thesis using True None by (simp only: c) (simp add: lookup_update)
  next
    case (Some v)
    then have "has_key cmd ''timestamp''" by (force dest: map_of_SomeD)
    then show ?thesis using True by (simp only: c Some) (simp add: Some fun_upd_idem del: map_of_eq_Some_iff)
  qed
next
  case False
  obtain service d' where sv: "service_of repr cmd = (service, d')" by fastforce
  then have d': "map_of d' = (map_of cmd)(''_service_suffix'' := None)"
    by (auto simp: service_of_def Let_def lookup_delete)
  show ?thesis
    using False by (auto simp: to_heartbeat_content_def sv d' msg_type_property_set_def
        msg_type_service_invoke_def split: option.splits)
qed

theorem heartbeat_content_spec_witness:
  "\<exists>out. to_heartbeat_content (\<lambda>_. []) 5
      (PDict [(''_service_suffix'', PStr ''property/set''), (''params'', PDict [(''lightMode'', PInt 0)])])
    = Dumped (PDict out) \<and> map_of out ''msgType'' = Some (PInt 1) \<and> map_of out ''type'' = None"
proof -
  let ?c = "[(''_service_suffix'', PStr ''property/set''), (''params'', PDict [(''lightMode'', PInt 0)])]"
  have "keys_distinct ?c" by simp
  moreover have "fst (service_of (\<lambda>_. []) ?c) = ''property/set''" by (simp add: service_of_def Let_def)
  ultimately show ?thesis using heartbeat_content_spec [of ?c "\<lambda>_. []" 5] by auto
qed

end
