(* ===== verification/Retention.thy ===== *)
theory Retention
  imports Coerce
begin

text \<open>
  The retention sweeper (\<open>media/retention.py\<close>): the size and age caps and their validation, the
  selection of what expires, the sweeps of a media category, of a directory tree and of everything,
  with the four queries of \<open>events/store.py\<close> they use. The store and the file system are explicit
  state; which files the operating system lets the process unlink is an argument.
\<close>

section \<open>Caps\<close>

type_synonym caps = "(string \<times> pydict) list"

definition default_retention :: caps where
  "default_retention =
     [(''fullVideo'', [(''max_mb'', PInt 1024), (''max_days'', PInt 7)]),
      (''eventImage'', [(''max_mb'', PInt 512), (''max_days'', PInt 30)]),
      (''highLight'', [(''max_mb'', PInt 512), (''max_days'', PInt 30)]),
      (''dynamicVideo'', [(''max_mb'', PInt 512), (''max_days'', PInt 7)]),
      (''cloudDouble'', [(''max_mb'', PInt 256), (''max_days'', PInt 3)]),
      (''wasteCheck'', [(''max_mb'', PInt 512), (''max_days'', PInt 30)]),
      (''healthPic'', [(''max_mb'', PInt 256), (''max_days'', PInt 90)]),
      (''events'', [(''max_days'', PInt 180)]),
      (''blocked'', [(''max_days'', PInt 365)]),
      (''deviceLog'', [(''max_mb'', PInt 18), (''max_days'', PInt 1)]),
      (''rawUpload'', [(''max_mb'', PInt 2048), (''max_days'', PInt 2)]),
      (''thumbnail'', [(''max_mb'', PInt 256), (''max_days'', PInt 30)])]"

definition raw_min_age_sec :: rat where "raw_min_age_sec = 3600"
definition raw_category :: string where "raw_category = ''rawUpload''"
definition thumbnail_category :: string where "thumbnail_category = ''thumbnail''"
definition device_log_category :: string where "device_log_category = ''deviceLog''"

definition media_categories :: "string list" where
  "media_categories = [''fullVideo'', ''eventImage'', ''highLight'', ''dynamicVideo'', ''cloudDouble'',
     ''wasteCheck'', ''healthPic'']"

text \<open>\<open>RetentionConfig.load\<close>, of the decoded file.\<close>

definition load_caps :: "pyval \<Rightarrow> caps" where
  "load_caps stored =
     (case stored of
        PDict d \<Rightarrow>
          fold (\<lambda>(key, val) caps.
              case (map_of caps key, val) of
                (Some old, PDict v) \<Rightarrow> AList.update key (dict_merge old v) caps
              | _ \<Rightarrow> caps) d default_retention
      | _ \<Rightarrow> default_retention)"

text \<open>One field of \<open>RetentionConfig.update\<close>: a positive finite number, or no cap.\<close>

definition cap_value :: "pyval \<Rightarrow> pyval" where
  "cap_value v = (case to_float v of Some (Fin q) \<Rightarrow> if 0 < q then PFloat (Fin q) else PNone | _ \<Rightarrow> PNone)"

definition update_field :: "pydict \<Rightarrow> string \<Rightarrow> pydict \<Rightarrow> pydict" where
  "update_field val field cap =
     (case map_of val field of Some v \<Rightarrow> AList.update field (cap_value v) cap | None \<Rightarrow> cap)"

definition update_caps :: "pydict \<Rightarrow> caps \<Rightarrow> caps" where
  "update_caps patch caps =
     fold (\<lambda>(key, val) caps.
         case (map_of caps key, val) of
           (Some old, PDict v) \<Rightarrow>
             AList.update key (update_field v ''max_days'' (update_field v ''max_mb'' old)) caps
         | _ \<Rightarrow> caps) patch caps"

text \<open>
  \<open>int(v * n)\<close> for a decoded value: the product of a float is rounded, and one that overflows is an
  infinity, which \<open>int\<close> refuses; a repeated text is no number, a repeated list no argument of \<open>int\<close>.
\<close>

fun int_product :: "pyval \<Rightarrow> int \<Rightarrow> py_exc + int" where
  "int_product (PInt k) n = Inr (k * n)"
| "int_product (PBool b) n = Inr (if b then n else 0)"
| "int_product (PFloat (Fin q)) n =
     (case round_b64 (q * of_int n) of Fin r \<Rightarrow> Inr (trunc r) | _ \<Rightarrow> Inl OverflowError)"
| "int_product (PFloat NaN) n = Inl ValueError"
| "int_product (PFloat _) n = Inl OverflowError"
| "int_product (PStr _) n = Inl ValueError"
| "int_product (PBytes _) n = Inl ValueError"
| "int_product _ n = Inl TypeError"

definition cap_of :: "caps \<Rightarrow> string \<Rightarrow> string \<Rightarrow> int \<Rightarrow> py_exc + int option" where
  "cap_of caps category field n =
     (case Option.bind (map_of caps category) (\<lambda>c. map_of c field) of
        None \<Rightarrow> Inr None
      | Some v \<Rightarrow> if truthy v then ebind (int_product v n) (\<lambda>i. Inr (Some i)) else Inr None)"

definition max_bytes :: "caps \<Rightarrow> string \<Rightarrow> py_exc + int option" where
  "max_bytes caps category = cap_of caps category ''max_mb'' (1024 * 1024)"

definition max_age_sec :: "caps \<Rightarrow> string \<Rightarrow> py_exc + int option" where
  "max_age_sec caps category = cap_of caps category ''max_days'' 86400"

section \<open>What expires\<close>

text \<open>\<open>_select_expired\<close>: the loop over the items oldest first, with the running total.\<close>

fun expire_loop ::
    "int option \<Rightarrow> int option \<Rightarrow> rat \<Rightarrow> int \<Rightarrow> ((int \<times> rat option) \<times> 'a) list \<Rightarrow> 'a list \<times> int" where
  "expire_loop cap age now left [] = ([], 0)"
| "expire_loop cap age now left (((sz, created), item) # rest) =
     (let over_size = (case cap of None \<Rightarrow> False | Some c \<Rightarrow> c < left);
          over_age = (case (age, created) of
                        (Some a, Some t) \<Rightarrow> of_int a < now - t | _ \<Rightarrow> False)
      in if \<not> (over_size \<or> over_age) then expire_loop cap age now left rest
         else (let (expired, freed) = expire_loop cap age now (left - sz) rest
               in (item # expired, sz + freed)))"

definition select_expired ::
    "(int \<times> rat option) list \<Rightarrow> 'a list \<Rightarrow> int option \<Rightarrow> int option \<Rightarrow> rat \<Rightarrow> 'a list \<times> int" where
  "select_expired sizes_and_times items cap age now =
     expire_loop cap age now (sum_list (map fst sizes_and_times))
       (zip (rev sizes_and_times) (rev items))"

section \<open>The store and the files\<close>

record media_row =
  media_id :: int
  media_category :: string
  media_path :: "string option"
  media_size :: "int option"
  media_created :: rat
  media_ready :: bool

record disk_file =
  file_path :: string
  file_size :: int
  file_mtime :: rat

record store =
  media :: "media_row list"
  events :: "rat option list"
  blocked :: "rat list"
  files :: "disk_file list"
  directories :: "string list"

definition media_for_retention :: "string \<Rightarrow> store \<Rightarrow> media_row list" where
  "media_for_retention category st =
     sort_key (\<lambda>m. - media_created m) (filter (\<lambda>m. media_category m = category \<and> media_ready m) (media st))"

definition delete_media :: "int \<Rightarrow> store \<Rightarrow> store" where
  "delete_media i st = st\<lparr>media := filter (\<lambda>m. media_id m \<noteq> i) (media st)\<rparr>"

definition prune_events :: "rat \<Rightarrow> store \<Rightarrow> int \<times> store" where
  "prune_events before st =
     (let gone = (\<lambda>t. case t of Some t \<Rightarrow> t < before | None \<Rightarrow> False)
      in (int (length (filter gone (events st))), st\<lparr>events := filter (\<lambda>t. \<not> gone t) (events st)\<rparr>))"

definition prune_blocked_attempts :: "rat \<Rightarrow> store \<Rightarrow> int \<times> store" where
  "prune_blocked_attempts before st =
     (int (length (filter (\<lambda>t. t < before) (blocked st))),
      st\<lparr>blocked := filter (\<lambda>t. \<not> t < before) (blocked st)\<rparr>)"

definition unlink_all :: "(string \<Rightarrow> bool) \<Rightarrow> string list \<Rightarrow> store \<Rightarrow> store" where
  "unlink_all removable paths st =
     st\<lparr>files := filter (\<lambda>f. \<not> (file_path f \<in> set paths \<and> removable (file_path f))) (files st)\<rparr>"

section \<open>The sweeps\<close>

record swept =
  deleted :: int
  freed_bytes :: int

definition delete_media_files :: "(string \<Rightarrow> bool) \<Rightarrow> media_row list \<Rightarrow> store \<Rightarrow> store" where
  "delete_media_files removable rows st =
     (if rows = [] then st
      else fold (\<lambda>m. delete_media (media_id m)) rows
             (unlink_all removable
                (List.map_filter (\<lambda>m. case media_path m of Some p \<Rightarrow> if p \<noteq> [] then Some p else None
                                        | None \<Rightarrow> None) rows) st))"

definition row_size :: "media_row \<Rightarrow> int" where
  "row_size m = (case media_size m of Some n \<Rightarrow> n | None \<Rightarrow> 0)"

definition sweep_category ::
    "(string \<Rightarrow> bool) \<Rightarrow> caps \<Rightarrow> rat \<Rightarrow> string \<Rightarrow> store \<Rightarrow> py_exc + swept \<times> store" where
  "sweep_category removable caps now category st =
     (let rows = media_for_retention category st
      in ebind (max_bytes caps category) (\<lambda>cap.
         ebind (max_age_sec caps category) (\<lambda>age.
           let (expired, freed) =
                 select_expired (map (\<lambda>m. (row_size m, Some (media_created m))) rows) rows cap age now
           in Inr (\<lparr>deleted = int (length expired), freed_bytes = freed\<rparr>,
                   delete_media_files removable expired st))))"

text \<open>
  \<open>_sweep_directory_sync\<close>: the files under a root newest first, the expired ones by index, less
  those the age floor protects.
\<close>

definition under :: "string \<Rightarrow> disk_file \<Rightarrow> bool" where
  "under dir f \<longleftrightarrow> starts_with (file_path f) (dir @ ''/'')"

definition sweep_directory_sync ::
    "(string \<Rightarrow> bool) \<Rightarrow> string \<Rightarrow> int option \<Rightarrow> int option \<Rightarrow> rat \<Rightarrow> rat \<Rightarrow> store \<Rightarrow> swept \<times> store" where
  "sweep_directory_sync removable dir cap age now min_age st =
     (let entries = sort_key (\<lambda>f. - file_mtime f) (filter (under dir) (files st));
          (expired, _) = select_expired (map (\<lambda>f. (file_size f, Some (file_mtime f))) entries)
                           entries cap age now;
          doomed = filter (\<lambda>f. \<not> (min_age \<noteq> 0 \<and> now - min_age < file_mtime f)) expired
      in (\<lparr>deleted = int (length doomed), freed_bytes = sum_list (map file_size doomed)\<rparr>,
          unlink_all removable (map file_path doomed) st))"

definition sweep_directory ::
    "(string \<Rightarrow> bool) \<Rightarrow> caps \<Rightarrow> rat \<Rightarrow> string \<Rightarrow> string \<Rightarrow> rat \<Rightarrow> store \<Rightarrow> py_exc + swept \<times> store" where
  "sweep_directory removable caps now dir category min_age st =
     (if dir = [] \<or> dir \<notin> set (directories st) then Inr (\<lparr>deleted = 0, freed_bytes = 0\<rparr>, st)
      else ebind (max_bytes caps category) (\<lambda>cap.
           ebind (max_age_sec caps category) (\<lambda>age.
             Inr (sweep_directory_sync removable dir cap age now min_age st))))"

record summary =
  by_category :: "(string \<times> swept) list"
  removed_events :: int
  removed_blocked :: int

text \<open>The categories one after the other, stopping at the first that raises.\<close>

fun sweep_categories ::
    "(string \<Rightarrow> bool) \<Rightarrow> caps \<Rightarrow> rat \<Rightarrow> string list \<Rightarrow> store \<Rightarrow> (py_exc + (string \<times> swept) list) \<times> store" where
  "sweep_categories removable caps now [] st = (Inr [], st)"
| "sweep_categories removable caps now (c # cs) st =
     (case sweep_category removable caps now c st of
        Inl e \<Rightarrow> (Inl e, st)
      | Inr (s, st') \<Rightarrow>
          (let (res, st'') = sweep_categories removable caps now cs st'
           in (ebind res (\<lambda>ss. Inr ((c, s) # ss)), st'')))"

text \<open>\<open>sweep_all\<close>; a step that raises leaves what the earlier ones did.\<close>

definition prune_by ::
    "int option \<Rightarrow> (rat \<Rightarrow> store \<Rightarrow> int \<times> store) \<Rightarrow> rat \<Rightarrow> store \<Rightarrow> int \<times> store" where
  "prune_by age prune now st =
     (case age of Some a \<Rightarrow> if a \<noteq> 0 then prune (now - of_int a) st else (0, st) | None \<Rightarrow> (0, st))"

definition sweep_all ::
    "(string \<Rightarrow> bool) \<Rightarrow> caps \<Rightarrow> rat \<Rightarrow> string \<Rightarrow> string \<Rightarrow> string \<Rightarrow> store \<Rightarrow> (py_exc + summary) \<times> store" where
  "sweep_all removable caps now log_root raw_root thumb_root st =
     (case sweep_categories removable caps now media_categories st of
        (Inl e, st1) \<Rightarrow> (Inl e, st1)
      | (Inr cats, st1) \<Rightarrow>
     (case max_age_sec caps ''events'' of Inl e \<Rightarrow> (Inl e, st1) | Inr ev_age \<Rightarrow>
     (let (n_events, st2) = prune_by ev_age prune_events now st1 in
     (case max_age_sec caps ''blocked'' of Inl e \<Rightarrow> (Inl e, st2) | Inr bl_age \<Rightarrow>
     (let (n_blocked, st3) = prune_by bl_age prune_blocked_attempts now st2 in
     (case sweep_directory removable caps now log_root device_log_category 0 st3 of
        Inl e \<Rightarrow> (Inl e, st3)
      | Inr (logs, st4) \<Rightarrow>
     (case sweep_directory removable caps now raw_root raw_category raw_min_age_sec st4 of
        Inl e \<Rightarrow> (Inl e, st4)
      | Inr (raw, st5) \<Rightarrow>
     (case sweep_directory removable caps now thumb_root thumbnail_category 0 st5 of
        Inl e \<Rightarrow> (Inl e, st5)
      | Inr (thumbs, st6) \<Rightarrow>
          (Inr \<lparr>by_category = cats @ [(device_log_category, logs), (raw_category, raw),
                  (thumbnail_category, thumbs)],
                removed_events = n_events, removed_blocked = n_blocked\<rparr>, st6)))))))))"

section \<open>Lemmas on the selection\<close>

definition too_old :: "int option \<Rightarrow> rat \<Rightarrow> rat \<Rightarrow> bool" where
  "too_old age now t \<longleftrightarrow> (case age of Some a \<Rightarrow> of_int a < now - t | None \<Rightarrow> False)"

definition fits_cap :: "int option \<Rightarrow> int \<Rightarrow> bool" where
  "fits_cap cap n \<longleftrightarrow> (case cap of Some c \<Rightarrow> n \<le> c | None \<Rightarrow> True)"

lemma too_old_mono: "\<not> too_old age now t \<Longrightarrow> t \<le> u \<Longrightarrow> \<not> too_old age now u"
  by (auto simp: too_old_def split: option.splits)

text \<open>The loop, one item at a time, on items of which the time is known.\<close>

lemma expire_loop_keep:
  "fits_cap cap n \<Longrightarrow> \<not> too_old age now t \<Longrightarrow>
   expire_loop cap age now n (((sz, Some t), x) # rest) = expire_loop cap age now n rest"
  by (auto simp: fits_cap_def too_old_def Let_def split: option.splits)

lemma expire_loop_drop:
  "\<not> (fits_cap cap n \<and> \<not> too_old age now t) \<Longrightarrow>
   expire_loop cap age now n (((sz, Some t), x) # rest)
     = (x # fst (expire_loop cap age now (n - sz) rest), sz + snd (expire_loop cap age now (n - sz) rest))"
  by (auto simp: fits_cap_def too_old_def Let_def split_beta split: option.splits)

declare expire_loop.simps(2) [simp del]

lemma expire_loop_none:
  "fits_cap cap n \<Longrightarrow> \<forall>x \<in> set xs. \<not> too_old age now (time x) \<Longrightarrow>
   expire_loop cap age now n (map (\<lambda>x. ((sz x, Some (time x)), x)) xs) = ([], 0)"
  by (induction xs) (simp_all add: expire_loop_keep)

lemma expire_loop_prefix:
  assumes "sorted (map time xs)" and "\<And>c. cap = Some c \<Longrightarrow> 0 \<le> c"
  shows "\<exists>k \<le> length xs.
     expire_loop cap age now (sum_list (map sz xs)) (map (\<lambda>x. ((sz x, Some (time x)), x)) xs)
       = (take k xs, sum_list (map sz (take k xs)))
     \<and> fits_cap cap (sum_list (map sz (drop k xs)))
     \<and> (\<forall>x \<in> set (drop k xs). \<not> too_old age now (time x))
     \<and> (0 < k \<longrightarrow> \<not> fits_cap cap (sum_list (map sz (drop (k - 1) xs))) \<or> too_old age now (time (xs ! (k - 1))))"
  using assms(1)
proof (induction xs)
  case Nil
  then show ?case using assms(2) by (auto simp: fits_cap_def split: option.splits)
next
  case (Cons x xs)
  let ?sum = "\<lambda>xs. sum_list (map sz xs)"
  show ?case
  proof (cases "fits_cap cap (?sum (x # xs)) \<and> \<not> too_old age now (time x)")
    case True
    then have "\<forall>y \<in> set xs. \<not> too_old age now (time y)"
      using Cons.prems too_old_mono [of age now "time x"] by auto
    then show ?thesis
      using True expire_loop_none [of cap "?sum (x # xs)" xs age now time]
      by (intro exI [of _ 0]) (auto simp: expire_loop_keep)
  next
    case False
    obtain k where k: "k \<le> length xs"
      "expire_loop cap age now (?sum xs) (map (\<lambda>x. ((sz x, Some (time x)), x)) xs) = (take k xs, ?sum (take k xs))"
      "fits_cap cap (?sum (drop k xs))" "\<forall>x \<in> set (drop k xs). \<not> too_old age now (time x)"
      "0 < k \<longrightarrow> \<not> fits_cap cap (?sum (drop (k - 1) xs)) \<or> too_old age now (time (xs ! (k - 1)))"
      using Cons by auto
    show ?thesis
    proof (intro exI [of _ "Suc k"] conjI)
      show "expire_loop cap age now (?sum (x # xs)) (map (\<lambda>x. ((sz x, Some (time x)), x)) (x # xs))
          = (take (Suc k) (x # xs), ?sum (take (Suc k) (x # xs)))"
        using False k(2) by (simp add: expire_loop_drop)
      show "0 < Suc k \<longrightarrow> \<not> fits_cap cap (?sum (drop (Suc k - 1) (x # xs)))
          \<or> too_old age now (time ((x # xs) ! (Suc k - 1)))"
        using False k(5) by (cases k) auto
    qed (use k in auto)
  qed
qed

text \<open>The same newest first: what survives is a prefix, and the shortest cut that fits the caps.\<close>

lemma select_expired_split:
  assumes "sorted (map (\<lambda>x. - time x) xs)" and "\<And>c. cap = Some c \<Longrightarrow> 0 \<le> c"
  shows "\<exists>k \<le> length xs.
     select_expired (map (\<lambda>x. (sz x, Some (time x))) xs) xs cap age now
       = (rev (drop k xs), sum_list (map sz (drop k xs)))
     \<and> fits_cap cap (sum_list (map sz (take k xs)))
     \<and> (\<forall>x \<in> set (take k xs). \<not> too_old age now (time x))
     \<and> (k < length xs \<longrightarrow> \<not> fits_cap cap (sum_list (map sz (take (Suc k) xs))) \<or> too_old age now (time (xs ! k)))"
proof -
  let ?n = "length xs"
  have "sorted (map time (rev xs))"
    using assms(1) by (simp add: sorted_iff_nth_mono rev_nth)
  obtain k where k: "k \<le> ?n"
    and run: "expire_loop cap age now (sum_list (map sz (rev xs))) (map (\<lambda>x. ((sz x, Some (time x)), x)) (rev xs))
       = (take k (rev xs), sum_list (map sz (take k (rev xs))))"
    and fits: "fits_cap cap (sum_list (map sz (drop k (rev xs))))"
    and young: "\<forall>x \<in> set (drop k (rev xs)). \<not> too_old age now (time x)"
    and tight: "0 < k \<longrightarrow> \<not> fits_cap cap (sum_list (map sz (drop (k - 1) (rev xs))))
        \<or> too_old age now (time (rev xs ! (k - 1)))"
    using expire_loop_prefix [where time = time and xs = "rev xs" and cap = cap and sz = sz
        and age = age and now = now, OF \<open>sorted (map time (rev xs))\<close> assms(2)]
    unfolding length_rev by blast
  have zip: "zip (rev (map (\<lambda>x. (sz x, Some (time x))) xs)) (rev xs)
      = map (\<lambda>x. ((sz x, Some (time x)), x)) (rev xs)"
    by (simp add: rev_map zip_map1 zip_same_conv_map)
  have sum: "sum_list (map fst (map (\<lambda>x. (sz x, Some (time x))) xs)) = sum_list (map sz (rev xs))"
    by (simp add: comp_def rev_map [symmetric] sum_list_rev)
  have rev_sum: "sum_list (map sz (rev ys)) = sum_list (map sz ys)" for ys
    by (simp add: rev_map [symmetric] sum_list_rev)
  show ?thesis
  proof (intro exI [of _ "?n - k"] conjI)
    show "select_expired (map (\<lambda>x. (sz x, Some (time x))) xs) xs cap age now
       = (rev (drop (?n - k) xs), sum_list (map sz (drop (?n - k) xs)))"
      unfolding select_expired_def zip sum run by (simp add: take_rev rev_sum)
    show "fits_cap cap (sum_list (map sz (take (?n - k) xs)))"
      using fits by (simp add: drop_rev rev_sum)
    show "\<forall>x \<in> set (take (?n - k) xs). \<not> too_old age now (time x)"
      using young by (simp add: drop_rev)
    show "?n - k < ?n \<longrightarrow> \<not> fits_cap cap (sum_list (map sz (take (Suc (?n - k)) xs)))
        \<or> too_old age now (time (xs ! (?n - k)))"
    proof
      assume "?n - k < ?n"
      then have "0 < k" by simp
      moreover from this k have "?n - (k - 1) = Suc (?n - k)" and "rev xs ! (k - 1) = xs ! (?n - k)"
        by (auto simp: rev_nth)
      ultimately show "\<not> fits_cap cap (sum_list (map sz (take (Suc (?n - k)) xs)))
        \<or> too_old age now (time (xs ! (?n - k)))"
        using tight by (simp add: drop_rev rev_sum)
    qed
  qed simp
qed

section \<open>Lemmas on the caps\<close>

text \<open>A cap the sweeper can read: absent, or a positive number.\<close>

definition cap_ok :: "pyval \<Rightarrow> bool" where
  "cap_ok v = (case v of PNone \<Rightarrow> True | PInt n \<Rightarrow> 0 < n | PFloat (Fin q) \<Rightarrow> 0 < q | _ \<Rightarrow> False)"

definition caps_ok :: "caps \<Rightarrow> bool" where
  "caps_ok caps \<longleftrightarrow>
     map fst caps = map fst default_retention
     \<and> list_all (\<lambda>(_, c). list_all (\<lambda>(f, v). (f = ''max_mb'' \<or> f = ''max_days'') \<and> cap_ok v) c) caps"

lemma cap_value_ok: "cap_ok (cap_value v)"
  by (simp add: cap_ok_def cap_value_def split: option.split pyfloat.split)

lemma list_all_update: "list_all P d \<Longrightarrow> P (k, v) \<Longrightarrow> list_all P (AList.update k v d)"
  by (induction d) auto

lemma update_field_ok:
  "list_all (\<lambda>(f, v). (f = ''max_mb'' \<or> f = ''max_days'') \<and> cap_ok v) c \<Longrightarrow> field = ''max_mb'' \<or> field = ''max_days'' \<Longrightarrow>
   list_all (\<lambda>(f, v). (f = ''max_mb'' \<or> f = ''max_days'') \<and> cap_ok v) (update_field val field c)"
  by (auto simp: update_field_def cap_value_ok split: option.split intro!: list_all_update)

definition update_entry :: "string \<times> pyval \<Rightarrow> caps \<Rightarrow> caps" where
  "update_entry kv caps =
     (case kv of (key, val) \<Rightarrow>
        (case (map_of caps key, val) of
           (Some old, PDict v) \<Rightarrow>
             AList.update key (update_field v ''max_days'' (update_field v ''max_mb'' old)) caps
         | _ \<Rightarrow> caps))"

lemma update_caps_fold: "update_caps patch caps = fold update_entry patch caps"
  unfolding update_caps_def by (rule arg_cong [where f = "\<lambda>f. fold f patch caps"])
    (simp add: fun_eq_iff update_entry_def)

lemma update_entry_ok: "caps_ok caps \<Longrightarrow> caps_ok (update_entry kv caps)"
proof -
  assume ok: "caps_ok caps"
  obtain key val where kv: "kv = (key, val)" by (cases kv)
  have "caps_ok (AList.update key (update_field v ''max_days'' (update_field v ''max_mb'' old)) caps)"
    if old: "map_of caps key = Some old" for old v
  proof -
    have key: "has_key caps key" using map_of_SomeD [OF old] by force
    have "list_all (\<lambda>(f, v). (f = ''max_mb'' \<or> f = ''max_days'') \<and> cap_ok v) old"
      using ok map_of_SomeD [OF old] by (auto simp: caps_ok_def list_all_iff)
    then show ?thesis using ok key
      by (auto simp: caps_ok_def update_field_ok intro!: list_all_update simp del: set_map)
  qed
  then show "caps_ok (update_entry kv caps)"
    using ok by (auto simp: update_entry_def kv split: option.split pyval.split)
qed

interpretation panel: machine "\<lambda>caps kv. update_entry kv caps" caps_ok
  by unfold_locales (rule update_entry_ok)

lemma update_caps_ok: "caps_ok caps \<Longrightarrow> caps_ok (update_caps patch caps)"
  using panel.run_inv [of caps patch] by (simp add: update_caps_fold foldl_conv_fold)

text \<open>What an edit leaves in a field.\<close>

definition new_value :: "pydict \<Rightarrow> string \<Rightarrow> string \<Rightarrow> pyval option" where
  "new_value patch category field =
     (case map_of patch category of Some (PDict v) \<Rightarrow> map_of v field | _ \<Rightarrow> None)"

definition edited :: "pydict \<Rightarrow> string \<Rightarrow> string \<Rightarrow> pyval option \<Rightarrow> pyval option" where
  "edited patch category field old =
     (case new_value patch category field of Some x \<Rightarrow> Some (cap_value x) | None \<Rightarrow> old)"

text \<open>A field after an edit: the positive finite number the new value converts to, or no cap.\<close>

definition field_follows :: "pydict \<Rightarrow> string \<Rightarrow> string \<Rightarrow> pyval option \<Rightarrow> pyval option \<Rightarrow> bool" where
  "field_follows patch category field old new \<longleftrightarrow>
     (case new_value patch category field of
        None \<Rightarrow> new = old
      | Some v \<Rightarrow>
          if \<exists>q. to_float v = Some (Fin q) \<and> 0 < q
          then \<exists>q. to_float v = Some (Fin q) \<and> new = Some (PFloat (Fin q))
          else new = Some PNone)"

lemma edited_follows: "field_follows patch category field old (edited patch category field old)"
proof -
  have "if \<exists>q. to_float v = Some (Fin q) \<and> 0 < q
      then \<exists>q. to_float v = Some (Fin q) \<and> cap_value v = PFloat (Fin q) else cap_value v = PNone" for v
    by (auto simp: cap_value_def split: option.splits pyfloat.splits)
  from this [of "the (new_value patch category field)"] show ?thesis
    by (auto simp: field_follows_def edited_def split: option.split if_splits)
qed

lemma update_entry_other: "category \<noteq> key \<Longrightarrow> map_of (update_entry (key, val) caps) category = map_of caps category"
  by (simp add: update_entry_def lookup_update split: option.split pyval.split)

lemma update_fold_other: "\<not> has_key patch category \<Longrightarrow> map_of (fold update_entry patch caps) category = map_of caps category"
  by (induction patch arbitrary: caps) (auto simp: update_entry_other)

lemma update_caps_lookup:
  "keys_distinct patch \<Longrightarrow>
   map_of (update_caps patch caps) category =
     (case map_of patch category of None \<Rightarrow> map_of caps category
      | Some val \<Rightarrow> map_of (update_entry (category, val) caps) category)"
  unfolding update_caps_fold
proof (induction patch arbitrary: caps)
  case (Cons kv patch)
  obtain key val where kv: "kv = (key, val)" by (cases kv)
  show ?case
  proof (cases "key = category")
    case True
    then show ?thesis using Cons.prems update_fold_other [where patch = patch and category = category] by (simp add: kv)
  next
    case False
    have "map_of (update_entry (category, v) (update_entry (key, val) caps)) category
        = map_of (update_entry (category, v) caps) category" for v
      using update_entry_other [of category key val caps] False
      by (simp add: update_entry_def [of "(category, v)"] lookup_update split: option.split pyval.split)
    then show ?thesis using Cons False update_entry_other [of category key val caps] by (simp add: kv split: option.split)
  qed
qed simp

lemma update_entry_field:
  assumes "map_of caps category = Some old" and "map_of patch category = Some val"
  shows "\<exists>c. map_of (update_entry (category, val) caps) category = Some c
    \<and> (\<forall>field \<in> {''max_mb'', ''max_days''}. map_of c field = edited patch category field (map_of old field))"
  using assms
  by (cases val) (auto simp: update_entry_def edited_def new_value_def update_field_def lookup_update split: option.split)

lemma default_retention_ok: "caps_ok default_retention"
  by (simp add: caps_ok_def default_retention_def cap_ok_def)

lemma round_half_even_nonneg: "0 \<le> q \<Longrightarrow> 0 \<le> round_half_even q"
  by (simp add: round_half_even_def Let_def)

lemma round_b64_nonneg: "round_b64 q = Fin r \<Longrightarrow> 0 \<le> q \<Longrightarrow> 0 \<le> r"
proof -
  assume r: "round_b64 q = Fin r" and q: "0 \<le> q"
  have pos: "0 < pow2 e" for e by (simp add: pow2_def)
  have "0 \<le> of_int (round_half_even (\<bar>q\<bar> / pow2 e)) * pow2 e" for e
    using pos [of e] by (intro mult_nonneg_nonneg) (simp_all add: round_half_even_nonneg)
  then show "0 \<le> r" using r q by (auto simp: round_b64_def Let_def split: if_splits)
qed

lemma int_product_positive:
  "cap_ok v \<Longrightarrow> 0 \<le> n \<Longrightarrow> int_product v n = Inr i \<Longrightarrow> 0 \<le> i"
proof -
  have "0 \<le> trunc r" if "round_b64 (q * of_int n) = Fin r" "0 < q" "0 \<le> n" for q r
    using round_b64_nonneg [OF that(1)] that by (simp add: trunc_def)
  then show "cap_ok v \<Longrightarrow> 0 \<le> n \<Longrightarrow> int_product v n = Inr i \<Longrightarrow> 0 \<le> i"
    by (cases v; auto simp: cap_ok_def split: pyfloat.splits)
qed

lemma cap_of_nonneg:
  "caps_ok caps \<Longrightarrow> 0 \<le> n \<Longrightarrow> cap_of caps category field n = Inr (Some i) \<Longrightarrow> 0 \<le> i"
proof -
  assume ok: "caps_ok caps" and n: "0 \<le> n" and cap: "cap_of caps category field n = Inr (Some i)"
  obtain c v where c: "map_of caps category = Some c" and v: "map_of c field = Some v"
    and i: "int_product v n = Inr i"
    using cap by (auto simp: cap_of_def ebind_Inr_iff split: option.splits bind_splits if_splits)
  have "cap_ok v"
    using ok map_of_SomeD [OF c] map_of_SomeD [OF v] by (auto simp: caps_ok_def list_all_iff)
  then show "0 \<le> i" using n i by (rule int_product_positive)
qed

text \<open>A power of two beyond the range of a float rounds to infinity.\<close>

lemma bit_len_pow2: "bit_len (2 ^ n) = Suc n"
  by (induction n) (simp_all add: bit_len.simps)

lemma floor_log2_pow2: "floor_log2 (2 ^ n) = int n"
proof -
  have q: "quotient_of (2 ^ n :: rat) = (2 ^ n, 1)"
    using quotient_of_int [of "2 ^ n"] by (simp add: Rat.of_int_def)
  have b: "nat (2 ^ n) = 2 ^ n" by (simp add: nat_power_eq)
  have one: "bit_len (Suc 0) = Suc 0" using bit_len_pow2 [of 0] by simp
  have "\<not> pow2 (int (Suc n) - 1 + 1) \<le> (2 ^ n :: rat)" by (simp add: pow2_def)
  then show ?thesis
    by (simp add: floor_log2_def q b one bit_len_pow2 pow2_def Let_def)
qed

lemma round_b64_overflow: "1024 \<le> n \<Longrightarrow> round_b64 (2 ^ n) = PosInf"
proof -
  assume n: "1024 \<le> n"
  let ?e = "int n - 52"
  have e: "max (int n - 52) (- 1074) = ?e" using n by simp
  have pow: "pow2 ?e = 2 ^ (n - 52)" using n by (simp add: pow2_def nat_diff_distrib)
  have "(2 :: rat) ^ (52 + (n - 52)) = 2 ^ 52 * 2 ^ (n - 52)" by (rule power_add)
  then have split: "(2 :: rat) ^ n = 2 ^ 52 * 2 ^ (n - 52)" using n by simp
  have div: "(2 :: rat) ^ n / pow2 ?e = of_int (2 ^ 52)" by (simp add: pow split)
  have half: "round_half_even (of_int z) = z" for z by (simp add: round_half_even_def)
  have "of_int (round_half_even (2 ^ n / pow2 ?e)) * pow2 ?e = (2 ^ n :: rat)"
    unfolding div half by (simp add: pow split)
  moreover have "(2 :: rat) ^ 1024 \<le> 2 ^ n" using n by (rule power_increasing) simp
  ultimately show ?thesis by (simp add: round_b64_def floor_log2_pow2 Let_def e)
qed

section \<open>Lemmas on the store\<close>

lemma deleted_media_fold:
  "media (fold (\<lambda>m. delete_media (media_id m)) rows st)
     = filter (\<lambda>m. media_id m \<notin> media_id ` set rows) (media st)"
  by (induction rows arbitrary: st) (auto simp: delete_media_def intro!: filter_cong)

lemma deleted_media_rev:
  "media (delete_media_files removable (rev rows) st) = filter (\<lambda>m. media_id m \<notin> media_id ` set rows) (media st)"
  by (simp add: delete_media_files_def deleted_media_fold unlink_all_def)

lemma row_of_category:
  "m \<in> set (media_for_retention category st) \<longleftrightarrow> m \<in> set (media st) \<and> media_category m = category \<and> media_ready m"
  by (auto simp: media_for_retention_def)

lemma same_row: "distinct (map media_id ms) \<Longrightarrow> m \<in> set ms \<Longrightarrow> n \<in> set ms \<Longrightarrow> media_id m = media_id n \<Longrightarrow> m = n"
  by (meson distinct_map inj_onD)

lemma kept_prefix:
  assumes "distinct (map media_id (media st))"
    and "media st' = filter (\<lambda>m. media_id m \<notin> media_id ` set (drop k (media_for_retention category st))) (media st)"
  shows "media_for_retention category st' = take k (media_for_retention category st)"
proof -
  let ?rows = "media_for_retention category st"
  have ids: "media_id m \<in> media_id ` set (drop k ?rows) \<longleftrightarrow> m \<in> set (drop k ?rows)" if "m \<in> set (media st)" for m
  proof
    assume "media_id m \<in> media_id ` set (drop k ?rows)"
    then obtain n where n: "n \<in> set (drop k ?rows)" "media_id m = media_id n" by blast
    then have "n \<in> set (media st)" using row_of_category in_set_dropD by metis
    then show "m \<in> set (drop k ?rows)" using same_row [OF assms(1) that _ n(2)] n(1) by simp
  qed simp
  have "media_for_retention category st'
      = sort_key (\<lambda>m. - media_created m) (filter (\<lambda>m. m \<notin> set (drop k ?rows))
          (filter (\<lambda>m. media_category m = category \<and> media_ready m) (media st)))"
    unfolding media_for_retention_def [of category st'] assms(2) filter_filter using ids
    by (intro arg_cong [where f = "sort_key _"] filter_cong refl) blast
  also have "\<dots> = filter (\<lambda>m. m \<notin> set (drop k ?rows)) ?rows"
    by (simp add: media_for_retention_def filter_sort)
  also have "\<dots> = take k ?rows"
  proof -
    have dist: "distinct (take k ?rows @ drop k ?rows)"
      using assms(1) by (simp add: media_for_retention_def distinct_map)
    have "filter (\<lambda>m. m \<notin> set (drop k ?rows)) (take k ?rows @ drop k ?rows) = take k ?rows"
      using dist by (auto simp: filter_id_conv filter_empty_conv simp del: append_take_drop_id)
    then show ?thesis by simp
  qed
  finally show ?thesis .
qed

lemma others_kept:
  assumes "distinct (map media_id (media st))"
    and "media st' = filter (\<lambda>m. media_id m \<notin> media_id ` set (drop k (media_for_retention category st))) (media st)"
  shows "filter (\<lambda>m. \<not> (media_category m = category \<and> media_ready m)) (media st')
      = filter (\<lambda>m. \<not> (media_category m = category \<and> media_ready m)) (media st)"
proof -
  have "media_id m \<notin> media_id ` set (drop k (media_for_retention category st))"
    if "m \<in> set (media st)" "\<not> (media_category m = category \<and> media_ready m)" for m
  proof
    assume "media_id m \<in> media_id ` set (drop k (media_for_retention category st))"
    then obtain n where n: "n \<in> set (media_for_retention category st)" "media_id m = media_id n"
      using in_set_dropD by fastforce
    then have "m = n" using same_row [OF assms(1) that(1)] by (simp add: row_of_category)
    then show False using n that(2) by (simp add: row_of_category)
  qed
  then show ?thesis unfolding assms(2) filter_filter by (intro filter_cong) auto
qed

lemma expired_subset: "set (fst (expire_loop cap age now n xs)) \<subseteq> snd ` set xs"
proof (induction xs arbitrary: n)
  case (Cons x xs)
  obtain sz t i where x: "x = ((sz, t), i)" by (cases x) auto
  have "fst (expire_loop cap age now n (x # xs))
      \<in> {fst (expire_loop cap age now n xs), i # fst (expire_loop cap age now (n - sz) xs)}"
    by (simp add: x expire_loop.simps Let_def split_beta)
  then show ?case using Cons.IH [of n] Cons.IH [of "n - sz"] by (auto simp: x)
qed simp

lemma expired_items:
  assumes "length sts = length xs"
  shows "set (fst (select_expired sts xs cap age now)) \<subseteq> set xs"
proof -
  have "snd ` set (zip (rev sts) (rev xs)) \<subseteq> set xs" by (auto dest: set_zip_rightD)
  then show ?thesis
    using expired_subset [of cap age now "sum_list (map fst sts)" "zip (rev sts) (rev xs)"]
    unfolding select_expired_def by blast
qed

section \<open>Properties\<close>

text \<open>
  C13: sweeping one media category keeps exactly its newest files, as many as the caps allow. The
  rows that stay are a prefix of the category newest first; together they fit the size cap, none of
  them is over age, and one more would not have done; the bytes reported as freed are those of the
  rows dropped, and rows of other categories, and uploads still pending, are never touched.
\<close>

theorem sweep_category_keeps_newest:
  assumes "sweep_category removable caps now category st = Inr (res, st')"
    and "caps_ok caps" and "distinct (map media_id (media st))"
    and "max_bytes caps category = Inr cap" and "max_age_sec caps category = Inr age"
  shows "\<exists>k. let rows = media_for_retention category st in
     k \<le> length rows
     \<and> media_for_retention category st' = take k rows
     \<and> fits_cap cap (sum_list (map row_size (take k rows)))
     \<and> (\<forall>m \<in> set (take k rows). \<not> too_old age now (media_created m))
     \<and> (k < length rows \<longrightarrow> \<not> fits_cap cap (sum_list (map row_size (take (Suc k) rows)))
          \<or> too_old age now (media_created (rows ! k)))
     \<and> deleted res = int (length rows - k) \<and> freed_bytes res = sum_list (map row_size (drop k rows))
     \<and> filter (\<lambda>m. \<not> (media_category m = category \<and> media_ready m)) (media st')
         = filter (\<lambda>m. \<not> (media_category m = category \<and> media_ready m)) (media st)"
proof -
  let ?rows = "media_for_retention category st"
  have sorted: "sorted (map (\<lambda>m. - media_created m) ?rows)" by (simp add: media_for_retention_def)
  have cap: "\<And>c. cap = Some c \<Longrightarrow> 0 \<le> c"
    using cap_of_nonneg [OF assms(2), where n = "1024 * 1024" and field = "''max_mb''"] assms(4)
    by (auto simp: max_bytes_def)
  obtain k where k: "k \<le> length ?rows"
    and sel: "select_expired (map (\<lambda>m. (row_size m, Some (media_created m))) ?rows) ?rows cap age now
       = (rev (drop k ?rows), sum_list (map row_size (drop k ?rows)))"
    and fits: "fits_cap cap (sum_list (map row_size (take k ?rows)))"
    and young: "\<forall>m \<in> set (take k ?rows). \<not> too_old age now (media_created m)"
    and tight: "k < length ?rows \<longrightarrow> \<not> fits_cap cap (sum_list (map row_size (take (Suc k) ?rows)))
          \<or> too_old age now (media_created (?rows ! k))"
    using select_expired_split [where time = media_created and sz = row_size, OF sorted cap] by blast
  have res: "res = \<lparr>deleted = int (length (drop k ?rows)), freed_bytes = sum_list (map row_size (drop k ?rows))\<rparr>"
    and st': "st' = delete_media_files removable (rev (drop k ?rows)) st"
    using assms(1,4,5) sel by (auto simp: sweep_category_def Let_def)
  have gone: "media st' = filter (\<lambda>m. media_id m \<notin> media_id ` set (drop k ?rows)) (media st)"
    unfolding st' by (rule deleted_media_rev)
  have "media_for_retention category st' = take k ?rows"
    by (rule kept_prefix [OF assms(3) gone])
  moreover have "filter (\<lambda>m. \<not> (media_category m = category \<and> media_ready m)) (media st')
      = filter (\<lambda>m. \<not> (media_category m = category \<and> media_ready m)) (media st)"
    by (rule others_kept [OF assms(3) gone])
  ultimately show ?thesis using k fits young tight by (auto simp: Let_def res)
qed

definition sample_row :: "int \<Rightarrow> int \<Rightarrow> rat \<Rightarrow> media_row" where
  "sample_row i n t = \<lparr>media_id = i, media_category = ''fullVideo'', media_path = Some ''/m/a.mp4'',
     media_size = Some n, media_created = t, media_ready = True\<rparr>"

definition sample_store :: store where
  "sample_store = \<lparr>media = [sample_row 1 900000000 10, sample_row 2 900000000 20, sample_row 3 1 0],
     events = [], blocked = [], files = [], directories = []\<rparr>"

theorem sweep_category_keeps_newest_witness:
  "\<exists>res st'. sweep_category (\<lambda>_. True) default_retention 100 ''fullVideo'' sample_store = Inr (res, st')
     \<and> filter (\<lambda>m. \<not> (media_category m = ''fullVideo'' \<and> media_ready m)) (media st') = []"
proof -
  have cap: "max_bytes default_retention ''fullVideo'' = Inr (Some 1073741824)"
    and age: "max_age_sec default_retention ''fullVideo'' = Inr (Some 604800)"
    by (simp_all add: max_bytes_def max_age_sec_def cap_of_def default_retention_def)
  obtain res st' where run: "sweep_category (\<lambda>_. True) default_retention 100 ''fullVideo'' sample_store = Inr (res, st')"
    by (cases "sweep_category (\<lambda>_. True) default_retention 100 ''fullVideo'' sample_store")
      (auto simp: sweep_category_def cap age Let_def split: prod.splits)
  have "distinct (map media_id (media sample_store))" by (simp add: sample_store_def sample_row_def)
  from sweep_category_keeps_newest [OF run default_retention_ok this cap age] run
  show ?thesis by (auto simp: Let_def sample_store_def sample_row_def)
qed

text \<open>
  A directory sweep deletes only files of its own tree, only ones the system lets it delete, and
  never one younger than the floor, whatever the caps say; every file it leaves is as it was.
\<close>

theorem sweep_directory_respects_floor:
  assumes "sweep_directory_sync removable dir cap age now min_age st = (res, st')"
  shows "(\<forall>f \<in> set (files st'). f \<in> set (files st))
    \<and> (\<forall>f \<in> set (files st). f \<notin> set (files st') \<longrightarrow>
         removable (file_path f)
         \<and> (\<exists>g \<in> set (files st). file_path g = file_path f \<and> under dir g
              \<and> (min_age \<noteq> 0 \<longrightarrow> file_mtime g \<le> now - min_age)))"
proof -
  define entries where "entries = sort_key (\<lambda>f. - file_mtime f) (filter (under dir) (files st))"
  define expired where "expired = fst (select_expired (map (\<lambda>f. (file_size f, Some (file_mtime f))) entries)
    entries cap age now)"
  define doomed where "doomed = filter (\<lambda>f. \<not> (min_age \<noteq> 0 \<and> now - min_age < file_mtime f)) expired"
  have st': "st' = unlink_all removable (map file_path doomed) st"
    using assms by (auto simp: sweep_directory_sync_def Let_def split_beta entries_def expired_def doomed_def)
  have "set expired \<subseteq> set entries"
    unfolding expired_def by (rule expired_items) simp
  then have "\<forall>g \<in> set doomed. g \<in> set (files st) \<and> under dir g
      \<and> (min_age \<noteq> 0 \<longrightarrow> file_mtime g \<le> now - min_age)"
    by (auto simp: doomed_def entries_def)
  then show ?thesis unfolding st' unlink_all_def by force
qed

theorem sweep_directory_respects_floor_witness:
  "let f = \<lparr>file_path = ''/raw/a'', file_size = 900, file_mtime = 9000\<rparr>;
       st = \<lparr>media = [], events = [], blocked = [], files = [f], directories = [''/raw'']\<rparr>
   in f \<in> set (files (snd (sweep_directory_sync (\<lambda>_. True) ''/raw'' (Some 0) None 10000 3600 st)))"
proof -
  let ?f = "\<lparr>file_path = ''/raw/a'', file_size = 900, file_mtime = 9000\<rparr>"
  let ?st = "\<lparr>media = [], events = [], blocked = [], files = [?f], directories = [''/raw'']\<rparr>"
  obtain res st' where "sweep_directory_sync (\<lambda>_. True) ''/raw'' (Some 0) None 10000 3600 ?st = (res, st')"
    by fastforce
  from sweep_directory_respects_floor [OF this] this show ?thesis by (auto simp: Let_def)
qed

text \<open>
  C39: the panel's edits keep every cap absent or positive: whatever the body of the request, the
  categories are the shipped ones and no limit computed from a cap is negative. A field that is edited
  holds the positive finite number its new value converts to, or no cap when it converts to none; a
  field that is not edited keeps its value.
\<close>

theorem update_caps_safe:
  assumes "caps_ok caps" and "keys_distinct patch"
  shows "caps_ok (update_caps patch caps)
    \<and> (\<forall>category n. max_bytes (update_caps patch caps) category = Inr (Some n) \<longrightarrow> 0 \<le> n)
    \<and> (\<forall>category n. max_age_sec (update_caps patch caps) category = Inr (Some n) \<longrightarrow> 0 \<le> n)
    \<and> (\<forall>category old. map_of caps category = Some old \<longrightarrow>
         (\<exists>c. map_of (update_caps patch caps) category = Some c
            \<and> (\<forall>field \<in> {''max_mb'', ''max_days''}.
                 field_follows patch category field (map_of old field) (map_of c field))))"
proof (intro conjI allI impI)
  show ok: "caps_ok (update_caps patch caps)" by (rule update_caps_ok [OF assms(1)])
  show "0 \<le> n" if "max_bytes (update_caps patch caps) category = Inr (Some n)" for category n
    using cap_of_nonneg [OF ok, where n = "1024 * 1024" and field = "''max_mb''"] that by (simp add: max_bytes_def)
  show "0 \<le> n" if "max_age_sec (update_caps patch caps) category = Inr (Some n)" for category n
    using cap_of_nonneg [OF ok, where n = 86400 and field = "''max_days''"] that by (simp add: max_age_sec_def)
  fix category old assume old: "map_of caps category = Some old"
  have "\<exists>c. map_of (update_caps patch caps) category = Some c
      \<and> (\<forall>field \<in> {''max_mb'', ''max_days''}. map_of c field = edited patch category field (map_of old field))"
    using update_caps_lookup [OF assms(2), of caps category] update_entry_field [OF old, of patch] old
    by (cases "map_of patch category") (auto simp: edited_def new_value_def)
  then show "\<exists>c. map_of (update_caps patch caps) category = Some c
      \<and> (\<forall>field \<in> {''max_mb'', ''max_days''}.
           field_follows patch category field (map_of old field) (map_of c field))"
    by (metis edited_follows)
qed

definition sample_patch :: pydict where
  "sample_patch = [(''fullVideo'', PDict [(''max_mb'', PInt (- 5)), (''x'', PNone)]), (''y'', PDict [])]"

theorem update_caps_safe_witness:
  "\<exists>c. map_of (update_caps sample_patch default_retention) ''fullVideo'' = Some c \<and> map_of c ''max_mb'' = Some PNone"
proof -
  obtain old where old: "map_of default_retention ''fullVideo'' = Some old" by (simp add: default_retention_def)
  have "keys_distinct sample_patch" by (simp add: sample_patch_def)
  then obtain c where c: "map_of (update_caps sample_patch default_retention) ''fullVideo'' = Some c"
    "field_follows sample_patch ''fullVideo'' ''max_mb'' (map_of old ''max_mb'') (map_of c ''max_mb'')"
    using update_caps_safe [OF default_retention_ok] old by blast
  have "to_float (PInt (- 5)) = Some (Fin (- 5))" by code_simp
  moreover have "new_value sample_patch ''fullVideo'' ''max_mb'' = Some (PInt (- 5))"
    by (simp add: sample_patch_def new_value_def)
  ultimately have "map_of c ''max_mb'' = Some PNone"
    using c(2) by (simp add: field_follows_def del: to_float.simps split: if_splits)
  then show ?thesis using c(1) by blast
qed

text \<open>
  C40: the validation does not bound a cap from above. A finite cap of \<open>2 ^ 1010\<close> megabytes is
  stored, its product with the bytes of a megabyte is infinite, and the sweep raises before it has
  deleted anything, on this pass and on every later one.
\<close>

theorem huge_cap_stops_sweeping:
  "let caps = update_caps [(''fullVideo'', PDict [(''max_mb'', PFloat (Fin (2 ^ 1010)))])] default_retention
   in max_bytes caps ''fullVideo'' = Inl OverflowError
      \<and> sweep_all removable caps now log_dir raw_dir thumb_dir st = (Inl OverflowError, st)"
proof -
  let ?caps = "update_caps [(''fullVideo'', PDict [(''max_mb'', PFloat (Fin (2 ^ 1010)))])] default_retention"
  have field: "Option.bind (map_of ?caps ''fullVideo'') (\<lambda>c. map_of c ''max_mb'') = Some (PFloat (Fin (2 ^ 1010)))"
    by (simp add: update_caps_def default_retention_def update_field_def cap_value_def)
  have "(2 :: rat) ^ 1010 * of_int (1024 * 1024) = 2 ^ 1010 * 2 ^ 20" by simp
  also have "\<dots> = 2 ^ 1030" by (simp flip: power_add)
  finally have prod: "(2 :: rat) ^ 1010 * of_int (1024 * 1024) = 2 ^ 1030" .
  have bytes: "max_bytes ?caps ''fullVideo'' = Inl OverflowError"
    unfolding max_bytes_def cap_of_def field
    by (simp only: option.case truthy.simps int_product.simps prod round_b64_overflow) simp
  then have "sweep_all removable ?caps now log_dir raw_dir thumb_dir st = (Inl OverflowError, st)"
    by (simp add: sweep_all_def media_categories_def sweep_category_def Let_def)
  with bytes show ?thesis by (simp only: Let_def simp_thms)
qed

text \<open>
  Only the panel validates. A negative cap that is read from the file is kept, and the sweep then
  deletes every file of the category.
\<close>

theorem loaded_negative_cap_deletes_all:
  "let caps = load_caps (PDict [(''fullVideo'', PDict [(''max_mb'', PInt (- 1))])])
   in max_bytes caps ''fullVideo'' = Inr (Some (- 1048576))
      \<and> (case sweep_category (\<lambda>_. True) caps 100 ''fullVideo'' sample_store of
           Inl _ \<Rightarrow> False
         | Inr (res, st) \<Rightarrow> deleted res = 3 \<and> media st = [])"
  by code_simp

text \<open>
  What a directory sweep reports as freed is what it set out to delete: a file the system refuses
  to unlink is counted, though it is still there.
\<close>

theorem freed_counts_failed_unlinks:
  "let f = \<lparr>file_path = ''/d/a'', file_size = 7, file_mtime = 0\<rparr>;
       st = \<lparr>media = [], events = [], blocked = [], files = [f], directories = [''/d'']\<rparr>
   in case sweep_directory_sync (\<lambda>_. False) ''/d'' (Some 0) None 10 0 st of
        (res, st') \<Rightarrow> freed_bytes res = 7 \<and> files st' = [f]"
  by code_simp

end
