(* ===== verification/Codes.thy ===== *)
theory Codes
  imports Device
begin

text \<open>
  The protocol tables of \<open>events/codes.py\<close>: one row per event code, in the numeric HTTP namespace
  of each device category and in the MQTT namespace all categories share, and the lookups that
  read them (\<open>category_of\<close>, \<open>lookup\<close>, \<open>codes_for\<close>, the derived code sets, \<open>work_modes_for\<close>,
  \<open>error_flag_label\<close>). A table is an association list in the order of the source. A row keeps
  every field a lookup reads; the provenance texts \<open>firmware\<close> and \<open>note\<close>, which the code only
  prints, are left out.
\<close>

section \<open>Device families, grades, kinds and roles\<close>

definition ANY_DEVICE :: "string set" where
  "ANY_DEVICE = set (device_types_litter @ device_types_feeder @ device_types_water_fountain
     @ device_types_purifier)"

definition LITTER :: "string set" where "LITTER = set device_types_litter"

definition FEEDER :: "string set" where "FEEDER = set device_types_feeder"

definition FOUNTAIN :: "string set" where "FOUNTAIN = set device_types_water_fountain"

definition PURIFIER :: "string set" where "PURIFIER = set device_types_purifier"

definition LITTER_NEXT_GEN :: "string set" where "LITTER_NEXT_GEN = {''t5'', ''t6'', ''t7''}"

definition FOUNTAIN_NEXT_GEN :: "string set" where "FOUNTAIN_NEXT_GEN = {''w7h''}"

definition LITTER_N60 :: "string set" where "LITTER_N60 = {''t5'', ''t6'', ''t7''}"

definition LITTER_T6_PLUS :: "string set" where "LITTER_T6_PLUS = {''t6'', ''t7''}"

definition FEEDER_CAMERA :: "string set" where "FEEDER_CAMERA = {''d4h'', ''d4sh''}"

definition CONFIRMED :: string where "CONFIRMED = ''confirmed''"

definition INFERRED :: string where "INFERRED = ''inferred''"

definition UNVERIFIED :: string where "UNVERIFIED = ''unverified''"

definition CONFLICTED :: string where "CONFLICTED = ''conflicted''"

definition KIND_TOILET :: string where "KIND_TOILET = ''toilet_visit''"

definition KIND_CLEANING :: string where "KIND_CLEANING = ''cleaning''"

definition KIND_PET :: string where "KIND_PET = ''pet''"

definition KIND_MOTION :: string where "KIND_MOTION = ''motion''"

definition KIND_ERROR :: string where "KIND_ERROR = ''error''"

definition KIND_FEEDING :: string where "KIND_FEEDING = ''feeding''"

definition KIND_DRINKING :: string where "KIND_DRINKING = ''drinking''"

definition KIND_SYSTEM :: string where "KIND_SYSTEM = ''system''"

definition KIND_OTHER :: string where "KIND_OTHER = ''other''"

definition EVENT_KINDS :: "string set" where
  "EVENT_KINDS = {KIND_TOILET, KIND_CLEANING, KIND_PET, KIND_MOTION, KIND_ERROR,
     KIND_FEEDING, KIND_DRINKING, KIND_SYSTEM, KIND_OTHER}"

definition ROLE_VISIT_SUMMARY :: string where "ROLE_VISIT_SUMMARY = ''visit_summary''"

definition ROLE_START :: string where "ROLE_START = ''start''"

definition ROLE_DONE :: string where "ROLE_DONE = ''done''"

definition ROLE_STEP :: string where "ROLE_STEP = ''step''"

definition ROLE_STOP :: string where "ROLE_STOP = ''stop''"

definition ROLE_ERROR_START :: string where "ROLE_ERROR_START = ''error_start''"

definition ROLE_ERROR_OVER :: string where "ROLE_ERROR_OVER = ''error_over''"

definition ROLE_DETECTION :: string where "ROLE_DETECTION = ''detection''"

record event_code =
  kind :: string
  label :: string
  grade :: string
  detail :: bool
  anchor :: bool
  role :: string
  done_word :: string
  mode_from :: string
  families :: "string set"
  state_label :: "(string \<times> string \<times> string) option"

text \<open>A row with the defaults of the source's dataclass.\<close>

definition event_code :: "string \<Rightarrow> string \<Rightarrow> event_code" where
  "event_code k l = \<lparr>kind = k, label = l, grade = CONFIRMED, detail = False, anchor = False,
     role = [], done_word = [], mode_from = [], families = ANY_DEVICE, state_label = None\<rparr>"

section \<open>The HTTP codes, per device category\<close>

definition LITTER_HTTP_CODES :: "(string \<times> event_code) list" where
  "LITTER_HTTP_CODES =
  [(''1'', (event_code KIND_ERROR ''Error'')\<lparr>anchor := True, role := ROLE_ERROR_START,
      families := LITTER_NEXT_GEN\<rparr>),
   (''2'', (event_code KIND_ERROR ''Error cleared'')\<lparr>role := ROLE_ERROR_OVER,
      families := LITTER_NEXT_GEN\<rparr>),
   (''3'', (event_code KIND_CLEANING ''Mechanism started'')\<lparr>detail := True, role := ROLE_START,
      mode_from := ''action'', families := LITTER_NEXT_GEN\<rparr>),
   (''4'', (event_code KIND_CLEANING ''Mechanism step'')\<lparr>grade := CONFLICTED, detail := True,
      role := ROLE_STEP, mode_from := ''action'', families := LITTER_NEXT_GEN\<rparr>),
   (''5'', (event_code KIND_CLEANING ''Cleaning done'')\<lparr>role := ROLE_DONE,
      done_word := ''cleaning'', families := LITTER\<rparr>),
   (''6'', (event_code KIND_CLEANING ''Litter emptied'')\<lparr>grade := UNVERIFIED, role := ROLE_DONE,
      done_word := ''litter empty'', families := LITTER\<rparr>),
   (''7'', (event_code KIND_CLEANING ''Reset done'')\<lparr>role := ROLE_DONE, done_word := ''reset'',
      families := LITTER\<rparr>),
   (''8'', (event_code KIND_CLEANING ''Deodorizing'')\<lparr>role := ROLE_DONE,
      done_word := ''deodorizing'', families := LITTER\<rparr>),
   (''9'', (event_code KIND_TOILET ''Weight check'')\<lparr>detail := True, role := ROLE_STEP,
      families := LITTER_NEXT_GEN\<rparr>),
   (''10'', (event_code KIND_TOILET ''Toilet visit'')\<lparr>anchor := True, role := ROLE_VISIT_SUMMARY,
      families := LITTER\<rparr>),
   (''11'', (event_code KIND_CLEANING ''Litter correction done'')\<lparr>grade := UNVERIFIED,
      role := ROLE_DONE, done_word := ''litter correction'', families := LITTER_NEXT_GEN\<rparr>),
   (''13'', (event_code KIND_CLEANING ''Mechanism step'')\<lparr>grade := INFERRED, detail := True,
      role := ROLE_STEP, mode_from := ''action'', families := LITTER_NEXT_GEN\<rparr>),
   (''14'', (event_code KIND_CLEANING ''Motor stop requested'')\<lparr>detail := True,
      role := ROLE_STOP, mode_from := ''action'', families := LITTER_NEXT_GEN\<rparr>),
   (''15'', (event_code KIND_CLEANING ''Motor stop paused'')\<lparr>detail := True, role := ROLE_STOP,
      mode_from := ''action'', families := LITTER_NEXT_GEN\<rparr>),
   (''16'', (event_code KIND_CLEANING ''Motor stop resumed'')\<lparr>detail := True, role := ROLE_STOP,
      mode_from := ''action'', families := LITTER_NEXT_GEN\<rparr>),
   (''17'', (event_code KIND_CLEANING ''Light cycle'')\<lparr>detail := True, role := ROLE_DONE,
      done_word := ''light cycle'', families := LITTER_NEXT_GEN,
      state_label := Some (''lightState'', ''light on'', ''light off'')\<rparr>),
   (''18'', (event_code KIND_CLEANING ''Litter correction'')\<lparr>grade := UNVERIFIED, detail := True,
      role := ROLE_STEP, families := LITTER_NEXT_GEN\<rparr>),
   (''20'', (event_code KIND_PET ''Appeared'')\<lparr>anchor := True,
      families := LITTER_NEXT_GEN\<rparr>),
   (''21'', (event_code KIND_CLEANING ''Deodorant reset done'')\<lparr>grade := UNVERIFIED,
      role := ROLE_DONE, done_word := ''deodorant reset'', families := LITTER_N60\<rparr>),
   (''24'', (event_code KIND_PET ''Detection result'')\<lparr>detail := True, role := ROLE_DETECTION,
      families := LITTER_NEXT_GEN\<rparr>),
   (''51'', (event_code KIND_SYSTEM ''BLE relay started'')\<lparr>detail := True,
      families := LITTER_NEXT_GEN\<rparr>),
   (''53'', (event_code KIND_SYSTEM ''BLE relay data'')\<lparr>detail := True,
      families := LITTER_NEXT_GEN\<rparr>)]"

definition FEEDER_HTTP_CODES :: "(string \<times> event_code) list" where
  "FEEDER_HTTP_CODES =
  [(''2'', (event_code KIND_FEEDING ''Feeding done'')\<lparr>anchor := True, role := ROLE_DONE,
      done_word := ''feeding'', families := FEEDER\<rparr>),
   (''3'', (event_code KIND_FEEDING ''Feeding started'')\<lparr>detail := True, role := ROLE_START,
      families := FEEDER\<rparr>),
   (''4'', (event_code KIND_FEEDING ''Feeding done'')\<lparr>anchor := True, role := ROLE_DONE,
      done_word := ''feeding'', families := FEEDER\<rparr>),
   (''5'', (event_code KIND_FEEDING ''Eating started'')\<lparr>grade := INFERRED, detail := True,
      role := ROLE_START, families := FEEDER_CAMERA\<rparr>),
   (''7'', (event_code KIND_MOTION ''Motion detected'')\<lparr>anchor := True,
      families := FEEDER_CAMERA\<rparr>),
   (''8'', (event_code KIND_PET ''Pet detected'')\<lparr>grade := INFERRED, anchor := True,
      families := FEEDER_CAMERA\<rparr>)]"

definition FOUNTAIN_HTTP_CODES :: "(string \<times> event_code) list" where
  "FOUNTAIN_HTTP_CODES =
  [(''5'', (event_code KIND_DRINKING ''Drinking started'')\<lparr>detail := True, role := ROLE_START,
      families := FOUNTAIN_NEXT_GEN\<rparr>),
   (''6'', (event_code KIND_DRINKING ''Drinking done'')\<lparr>anchor := True, role := ROLE_DONE,
      done_word := ''drinking'', families := FOUNTAIN_NEXT_GEN\<rparr>),
   (''20'', (event_code KIND_PET ''Appeared'')\<lparr>anchor := True,
      families := FOUNTAIN_NEXT_GEN\<rparr>),
   (''24'', (event_code KIND_PET ''Detection result'')\<lparr>detail := True, role := ROLE_DETECTION,
      families := FOUNTAIN_NEXT_GEN\<rparr>)]"

definition HTTP_CODES_BY_CATEGORY :: "(string \<times> (string \<times> event_code) list) list" where
  "HTTP_CODES_BY_CATEGORY =
     [(''litter'', LITTER_HTTP_CODES), (''feeder'', FEEDER_HTTP_CODES),
      (''fountain'', FOUNTAIN_HTTP_CODES), (''purifier'', [])]"

definition DEFAULT_HTTP_CATEGORY :: string where "DEFAULT_HTTP_CATEGORY = ''litter''"

definition category_device_types :: "(string \<times> string set) list" where
  "category_device_types =
     [(''litter'', LITTER), (''feeder'', FEEDER), (''fountain'', FOUNTAIN), (''purifier'', PURIFIER)]"

text \<open>An absent device type and an empty one are both unrecognised.\<close>

definition category_of :: "string option \<Rightarrow> string option" where
  "category_of dt =
     (case dt of
        None \<Rightarrow> None
      | Some t \<Rightarrow> if t = [] then None
          else map_option fst (find (\<lambda>(name, members). str_lower t \<in> members) category_device_types))"

section \<open>The MQTT topics\<close>

definition MQTT_EVENT_TOPICS :: "(string \<times> event_code) list" where
  "MQTT_EVENT_TOPICS =
  [(''work_start'', (event_code KIND_CLEANING ''Work started'')\<lparr>role := ROLE_START,
      mode_from := ''action'', families := LITTER \<union> FOUNTAIN_NEXT_GEN\<rparr>),
   (''work_suspend'', (event_code KIND_CLEANING ''Work paused'')\<lparr>detail := True,
      role := ROLE_STOP, families := LITTER\<rparr>),
   (''work_continue'', (event_code KIND_CLEANING ''Work resumed'')\<lparr>detail := True,
      role := ROLE_STOP, families := LITTER\<rparr>),
   (''clean_over'', (event_code KIND_CLEANING ''Cleaning done'')\<lparr>role := ROLE_DONE,
      done_word := ''cleaning'', families := LITTER\<rparr>),
   (''dump_over'', (event_code KIND_CLEANING ''Dumping done'')\<lparr>role := ROLE_DONE,
      done_word := ''litter empty'', families := LITTER\<rparr>),
   (''reset_over'', (event_code KIND_CLEANING ''Reset done'')\<lparr>role := ROLE_DONE,
      done_word := ''reset'', families := LITTER\<rparr>),
   (''smooth_over'', (event_code KIND_CLEANING ''Leveling done'')\<lparr>grade := CONFIRMED,
      role := ROLE_DONE, done_word := ''leveling'', families := LITTER_NEXT_GEN\<rparr>),
   (''correct_over'', (event_code KIND_CLEANING ''Litter correction done'')\<lparr>grade := UNVERIFIED,
      role := ROLE_DONE, done_word := ''litter correction'', families := LITTER_NEXT_GEN\<rparr>),
   (''sand_correct_over'', (event_code KIND_CLEANING ''Litter level corrected'')\<lparr>
      grade := UNVERIFIED, role := ROLE_DONE, done_word := ''litter correction'',
      families := LITTER_NEXT_GEN\<rparr>),
   (''light_over'', (event_code KIND_CLEANING ''Light cycle done'')\<lparr>grade := CONFIRMED,
      detail := True, role := ROLE_DONE, done_word := ''light cycle'', families := LITTER_NEXT_GEN,
      state_label := Some (''lightState'', ''light on'', ''light off'')\<rparr>),
   (''spray_over'', (event_code KIND_CLEANING ''Deodorizing done'')\<lparr>grade := CONFIRMED,
      role := ROLE_DONE, done_word := ''deodorizing'', families := LITTER_N60\<rparr>),
   (''liquid_reset_over'', (event_code KIND_CLEANING ''Deodorant reset done'')\<lparr>
      grade := CONFIRMED, role := ROLE_DONE, done_word := ''deodorant reset'',
      families := LITTER_N60\<rparr>),
   (''melt_over'', (event_code KIND_CLEANING ''Melt cycle done'')\<lparr>grade := CONFIRMED,
      role := ROLE_DONE, done_word := ''melt cycle'', families := LITTER_T6_PLUS\<rparr>),
   (''package_over'', (event_code KIND_CLEANING ''Bagging done'')\<lparr>grade := CONFIRMED,
      role := ROLE_DONE, done_word := ''bagging'', families := LITTER_T6_PLUS\<rparr>),
   (''pet_in'', (event_code KIND_TOILET ''Pet entered'')\<lparr>detail := True, role := ROLE_START,
      families := LITTER\<rparr>),
   (''pet_out'', (event_code KIND_TOILET ''Pet left'')\<lparr>anchor := True,
      role := ROLE_VISIT_SUMMARY, families := LITTER\<rparr>),
   (''pet_discern'', (event_code KIND_PET ''Detection result'')\<lparr>detail := True,
      role := ROLE_DETECTION, families := LITTER_NEXT_GEN \<union> FOUNTAIN_NEXT_GEN\<rparr>),
   (''pet_wander'', (event_code KIND_PET ''Pet nearby'')\<lparr>grade := UNVERIFIED, anchor := True,
      families := LITTER_T6_PLUS\<rparr>),
   (''wander_over'', (event_code KIND_PET ''Pet left the area'')\<lparr>grade := UNVERIFIED,
      detail := True, families := LITTER_T6_PLUS\<rparr>),
   (''stop_start'', (event_code KIND_CLEANING ''Motor stop requested'')\<lparr>grade := CONFIRMED,
      detail := True, role := ROLE_STOP, families := LITTER_NEXT_GEN\<rparr>),
   (''stop_suspend'', (event_code KIND_CLEANING ''Motor stop paused'')\<lparr>grade := CONFIRMED,
      detail := True, role := ROLE_STOP, families := LITTER_NEXT_GEN\<rparr>),
   (''stop_continue'', (event_code KIND_CLEANING ''Motor stop resumed'')\<lparr>grade := CONFIRMED,
      detail := True, role := ROLE_STOP, families := LITTER_NEXT_GEN\<rparr>),
   (''feed_start'', (event_code KIND_FEEDING ''Feeding started'')\<lparr>detail := True,
      role := ROLE_START, families := FEEDER\<rparr>),
   (''feed_over'', (event_code KIND_FEEDING ''Feeding done'')\<lparr>anchor := True, role := ROLE_DONE,
      done_word := ''feeding'', families := FEEDER\<rparr>),
   (''feed_stop'', (event_code KIND_FEEDING ''Feeding cancelled'')\<lparr>role := ROLE_STOP,
      families := FEEDER\<rparr>),
   (''eat_start'', (event_code KIND_FEEDING ''Eating started'')\<lparr>detail := True,
      role := ROLE_START, families := FEEDER_CAMERA\<rparr>),
   (''eat_over'', (event_code KIND_FEEDING ''Eating done'')\<lparr>anchor := True, role := ROLE_DONE,
      done_word := ''eating'', families := FEEDER_CAMERA\<rparr>),
   (''drink_start'', (event_code KIND_DRINKING ''Drinking started'')\<lparr>detail := True,
      role := ROLE_START, families := FOUNTAIN_NEXT_GEN\<rparr>),
   (''add_water_over'', (event_code KIND_CLEANING ''Refill done'')\<lparr>grade := INFERRED,
      anchor := True, role := ROLE_DONE, done_word := ''refilling'',
      families := FOUNTAIN_NEXT_GEN\<rparr>),
   (''drink_over'', (event_code KIND_DRINKING ''Drinking done'')\<lparr>grade := CONFIRMED,
      anchor := True, role := ROLE_DONE, done_word := ''drinking'',
      families := FOUNTAIN_NEXT_GEN\<rparr>),
   (''flush_over'', (event_code KIND_CLEANING ''Flush done'')\<lparr>anchor := True, role := ROLE_DONE,
      done_word := ''flushing'', families := FOUNTAIN_NEXT_GEN\<rparr>),
   (''water_change_over'', (event_code KIND_CLEANING ''Water change done'')\<lparr>anchor := True,
      role := ROLE_DONE, done_word := ''changing the water'', families := FOUNTAIN_NEXT_GEN\<rparr>),
   (''move_detect'', (event_code KIND_MOTION ''Motion detected'')\<lparr>anchor := True,
      families := FEEDER_CAMERA \<union> LITTER_NEXT_GEN\<rparr>),
   (''pet_detect'', (event_code KIND_PET ''Pet detected'')\<lparr>anchor := True,
      families := FEEDER_CAMERA \<union> LITTER_NEXT_GEN \<union> FOUNTAIN_NEXT_GEN\<rparr>),
   (''cvr_event'', (event_code KIND_MOTION ''Recording event'')\<lparr>grade := UNVERIFIED,
      anchor := True, families := LITTER_NEXT_GEN \<union> FEEDER_CAMERA\<rparr>),
   (''appeared'', (event_code KIND_PET ''Appeared'')\<lparr>grade := UNVERIFIED, anchor := True,
      families := LITTER_NEXT_GEN\<rparr>),
   (''error_start'', (event_code KIND_ERROR ''Error'')\<lparr>anchor := True,
      role := ROLE_ERROR_START\<rparr>),
   (''error_over'', (event_code KIND_ERROR ''Error cleared'')\<lparr>role := ROLE_ERROR_OVER\<rparr>),
   (''property'', (event_code KIND_SYSTEM ''State update'')\<lparr>detail := True\<rparr>),
   (''property_post'', (event_code KIND_SYSTEM ''State update'')\<lparr>detail := True,
      families := FEEDER_CAMERA\<rparr>),
   (''data_get'', (event_code KIND_SYSTEM ''Config requested'')\<lparr>detail := True\<rparr>),
   (''ble_response'', (event_code KIND_SYSTEM ''BLE response'')\<lparr>detail := True\<rparr>),
   (''ble_relay_start'', (event_code KIND_SYSTEM ''BLE relay started'')\<lparr>grade := CONFIRMED,
      detail := True\<rparr>),
   (''ble_relay_over'', (event_code KIND_SYSTEM ''BLE relay finished'')\<lparr>grade := CONFIRMED,
      detail := True\<rparr>)]"

definition MQTT_TRANSPORT_TOPICS :: "string set" where
  "MQTT_TRANSPORT_TOPICS = {''property'', ''property_post'', ''data_get'', ''ble_response'',
     ''ble_relay_start'', ''ble_relay_over''}"

section \<open>Work modes and fault flags\<close>

definition WORK_MODES :: "(int \<times> string) list" where
  "WORK_MODES =
  [(0, ''cleaning''),
   (1, ''dumping''),
   (2, ''odor removal''),
   (3, ''resetting''),
   (4, ''leveling''),
   (5, ''calibrating''),
   (6, ''reset deodorant''),
   (7, ''light cycle''),
   (8, ''reset max deodorant''),
   (9, ''maintenance'')]"

definition SAND_TYPES :: "(int \<times> string) list" where
  "SAND_TYPES =
  [(1, ''clay/ore''),
   (2, ''tofu''),
   (3, ''mixed'')]"

definition FOUNTAIN_W7H_WORK_MODES :: "(int \<times> string) list" where
  "FOUNTAIN_W7H_WORK_MODES =
  [(1, ''flush''),
   (2, ''refill''),
   (5, ''water change'')]"

definition work_modes_for :: "string option \<Rightarrow> (int \<times> string) list" where
  "work_modes_for dt =
     (if str_lower (case dt of Some t \<Rightarrow> t | None \<Rightarrow> []) \<in> FOUNTAIN_NEXT_GEN
      then FOUNTAIN_W7H_WORK_MODES else WORK_MODES)"

definition FEED_SRC :: "(int \<times> string) list" where
  "FEED_SRC =
  [(1, ''scheduled''),
   (3, ''manual (app)''),
   (4, ''manual (button)'')]"

definition FEED_RESULT :: "(int \<times> string) list" where
  "FEED_RESULT =
  [(0, ''completed''),
   (3, ''blocked (outlet obstructed)''),
   (7, ''failed (error 7)''),
   (8, ''failed (nothing dispensed)''),
   (9, ''skipped (hoppers empty)''),
   (10, ''skipped (bowl not empty)''),
   (11, ''failed (empty run)'')]"

definition FOUNTAIN_W7H_ERROR_FLAGS :: "(string \<times> string) list" where
  "FOUNTAIN_W7H_ERROR_FLAGS =
  [(''DC'', ''DC power fault''),
   (''mcu'', ''MCU communication fault''),
   (''rtc'', ''Clock fault''),
   (''cameraL'', ''Camera offline''),
   (''cameraE'', ''Camera error''),
   (''taryD'', ''Tray detection fault''),
   (''taryL'', ''Tray missing''),
   (''taryF'', ''Tray full''),
   (''taryO'', ''Tray removed''),
   (''ptcL'', ''Heater not detected''),
   (''ptcM'', ''Heater fault''),
   (''valveL'', ''Valve did not arrive''),
   (''valveE'', ''Valve error''),
   (''valveN'', ''Valve timeout''),
   (''cycL'', ''Circulation pump stalled''),
   (''cycM'', ''Circulation pump fault''),
   (''repL'', ''Refill pump stalled''),
   (''repM'', ''Refill pump fault''),
   (''tankCU'', ''Clean water tank not installed''),
   (''tankDU'', ''Waste tank not installed''),
   (''tankCL'', ''Clean water tank low''),
   (''tankDF'', ''Waste tank full''),
   (''ptcU'', ''Heater not installed''),
   (''cameraN'', ''Camera fault (cameraN)''),
   (''tankL'', ''Tank level low (tankL)'')]"

definition FEEDER_CAMERA_ERROR_FLAGS :: "(string \<times> string) list" where
  "FEEDER_CAMERA_ERROR_FLAGS =
  [(''DC'', ''DC power fault''),
   (''sys'', ''System fault''),
   (''rtc_c'', ''Clock fault''),
   (''moto'', ''Motor fault''),
   (''blk_f'', ''Food outlet blocked''),
   (''blk_d'', ''Dispensing blocked''),
   (''camera'', ''Camera fault''),
   (''serial'', ''Serial communication fault'')]"

definition ERROR_FLAGS :: "(string set \<times> (string \<times> string) list) list" where
  "ERROR_FLAGS =
     [(FEEDER_CAMERA, FEEDER_CAMERA_ERROR_FLAGS), (FOUNTAIN_NEXT_GEN, FOUNTAIN_W7H_ERROR_FLAGS)]"

definition error_flag_label :: "string \<Rightarrow> string option \<Rightarrow> string" where
  "error_flag_label flag dt =
     (let codename = str_lower (case dt of Some t \<Rightarrow> t | None \<Rightarrow> [])
      in case find (\<lambda>(members, table). codename \<in> members) ERROR_FLAGS of
           Some (members, table) \<Rightarrow> (case map_of table flag of Some l \<Rightarrow> l | None \<Rightarrow> flag)
         | None \<Rightarrow> flag)"

section \<open>Derived views and lookups\<close>

definition codes_where :: "(string \<times> event_code) list \<Rightarrow> (event_code \<Rightarrow> bool) \<Rightarrow> string set" where
  "codes_where table P = fst ` set (filter (\<lambda>(k, c). P c) table)"

text \<open>Later tables overwrite: a numeric code of two categories keeps its litter row.\<close>

definition ALL_EVENT_CODES :: "(string \<times> event_code) list" where
  "ALL_EVENT_CODES = dict_merge (dict_merge (dict_merge MQTT_EVENT_TOPICS FEEDER_HTTP_CODES)
     FOUNTAIN_HTTP_CODES) LITTER_HTTP_CODES"

definition DETAIL_CODES :: "string set" where "DETAIL_CODES = codes_where ALL_EVENT_CODES detail"

definition ANCHOR_CODES :: "string set" where "ANCHOR_CODES = codes_where ALL_EVENT_CODES anchor"

definition DONE_CODES :: "string set" where
  "DONE_CODES = codes_where ALL_EVENT_CODES (\<lambda>c. role c = ROLE_DONE)"

definition PRIMARY_DONE_CODES :: "string set" where
  "PRIMARY_DONE_CODES = DONE_CODES - codes_where ALL_EVENT_CODES detail"

text \<open>The HTTP table \<open>lookup\<close> and \<open>codes_for\<close> consult for a device: its category's, or the default.\<close>

definition http_table :: "string option \<Rightarrow> (string \<times> event_code) list" where
  "http_table dt =
     (let category = (case category_of dt of Some c \<Rightarrow> c | None \<Rightarrow> DEFAULT_HTTP_CATEGORY)
      in case map_of HTTP_CODES_BY_CATEGORY category of Some t \<Rightarrow> t | None \<Rightarrow> [])"

definition lookup :: "string option \<Rightarrow> string option \<Rightarrow> event_code option" where
  "lookup event_type dt =
     (case event_type of
        None \<Rightarrow> None
      | Some key \<Rightarrow> if key = [] then None
          else case map_of (http_table dt) key of
                 Some c \<Rightarrow> Some c
               | None \<Rightarrow> map_of MQTT_EVENT_TOPICS (str_lower key))"

definition codes_for :: "string option \<Rightarrow> (string \<times> event_code) list" where
  "codes_for dt =
     (case dt of
        None \<Rightarrow> ALL_EVENT_CODES
      | Some t \<Rightarrow> if t = [] then ALL_EVENT_CODES
          else filter (\<lambda>(key, c). str_lower t \<in> families c)
                 (dict_merge MQTT_EVENT_TOPICS (http_table (Some (str_lower t)))))"

section \<open>Facts of the tables\<close>

lemmas families_defs = ANY_DEVICE_def LITTER_def FEEDER_def FOUNTAIN_def PURIFIER_def
  LITTER_NEXT_GEN_def FOUNTAIN_NEXT_GEN_def LITTER_N60_def LITTER_T6_PLUS_def FEEDER_CAMERA_def

text \<open>What a row of a table may hold: its key and its code.\<close>

definition row_ok :: "(string \<Rightarrow> bool) \<Rightarrow> string set \<Rightarrow> string \<times> event_code \<Rightarrow> bool" where
  "row_ok key_ok members r \<longleftrightarrow> fst r \<noteq> [] \<and> key_ok (fst r) \<and> families (snd r) \<subseteq> members
     \<and> kind (snd r) \<in> EVENT_KINDS - {KIND_OTHER}"

definition topic_key :: "string \<Rightarrow> bool" where
  "topic_key k \<longleftrightarrow> str_lower k = k \<and> \<not> list_all is_digit k"

lemma litter_rows: "list_all (row_ok (list_all is_digit) LITTER) LITTER_HTTP_CODES"
  by code_simp

lemma feeder_rows: "list_all (row_ok (list_all is_digit) FEEDER) FEEDER_HTTP_CODES"
  by code_simp

lemma fountain_rows: "list_all (row_ok (list_all is_digit) FOUNTAIN) FOUNTAIN_HTTP_CODES"
  by code_simp

lemma mqtt_rows: "list_all (row_ok topic_key ANY_DEVICE) MQTT_EVENT_TOPICS"
  by code_simp

lemma tables_distinct: "keys_distinct LITTER_HTTP_CODES" "keys_distinct FEEDER_HTTP_CODES"
  "keys_distinct FOUNTAIN_HTTP_CODES" "keys_distinct MQTT_EVENT_TOPICS"
  by code_simp+

text \<open>The derived sets, written out: evaluation uses these instead of the tables.\<close>

lemma ANCHOR_CODES_list [code]: "ANCHOR_CODES = set [
   ''pet_out'', ''pet_wander'', ''feed_over'', ''eat_over'', ''add_water_over'', ''drink_over'',
   ''flush_over'', ''water_change_over'', ''move_detect'', ''pet_detect'', ''cvr_event'',
   ''appeared'', ''error_start'', ''20'', ''1'', ''10'']"
  by code_simp

section \<open>What the lookups promise\<close>

lemma lower_char_lower [simp]: "lower_char (lower_char c) = lower_char c"
  by (auto simp: lower_char_def char_in_def of_char_of)

lemma str_lower_lower [simp]: "str_lower (str_lower s) = str_lower s"
  by (simp add: str_lower_def)

lemma str_lower_Nil_iff [simp]: "str_lower s = [] \<longleftrightarrow> s = []"
  by (simp add: str_lower_def)

lemma str_lower_digits: "list_all is_digit k \<Longrightarrow> list_all is_digit (str_lower k)"
  by (induction k) (auto simp: str_lower_def lower_char_def is_digit_range char_in_def)

lemma http_table_lower [simp]: "http_table (Some (str_lower t)) = http_table (Some t)"
  by (simp add: http_table_def category_of_def)

lemma http_table_cases:
  "http_table dt \<in> {LITTER_HTTP_CODES, FEEDER_HTTP_CODES, FOUNTAIN_HTTP_CODES, []}"
  by (auto simp: http_table_def HTTP_CODES_BY_CATEGORY_def split: option.splits if_splits)

lemma http_table_distinct: "keys_distinct (http_table dt)"
  using http_table_cases [of dt] tables_distinct by auto

lemma row_found:
  assumes "list_all (row_ok p m) table" "map_of table k = Some c"
  shows "k \<noteq> [] \<and> p k \<and> families c \<subseteq> m \<and> kind c \<in> EVENT_KINDS - {KIND_OTHER}"
proof -
  have "row_ok p m (k, c)" using assms by (meson list_all_iff map_of_SomeD)
  then show ?thesis by (simp add: row_ok_def)
qed

lemmas litter_found = row_found [OF litter_rows]
lemmas feeder_found = row_found [OF feeder_rows]
lemmas fountain_found = row_found [OF fountain_rows]
lemmas topic_found = row_found [OF mqtt_rows]

lemma http_table_row: "map_of (http_table dt) k = Some c \<Longrightarrow>
  k \<noteq> [] \<and> list_all is_digit k \<and> kind c \<in> EVENT_KINDS - {KIND_OTHER}"
  using http_table_cases [of dt] litter_found feeder_found fountain_found by fastforce

lemma topics_not_numeric: "list_all is_digit k \<Longrightarrow> map_of MQTT_EVENT_TOPICS k = None"
  using topic_found [of k] by (cases "map_of MQTT_EVENT_TOPICS k") (auto simp: topic_key_def)

lemma lookup_kind: "lookup et dt = Some c \<Longrightarrow> kind c \<in> EVENT_KINDS - {KIND_OTHER}"
  using http_table_row topic_found by (fastforce simp: lookup_def split: option.splits if_splits)

lemma lookup_numeric: "list_all is_digit k \<Longrightarrow> k \<noteq> [] \<Longrightarrow>
  lookup (Some k) dt = map_of (http_table dt) k"
  by (simp add: lookup_def topics_not_numeric str_lower_digits split: option.splits)

lemma codes_for_map:
  assumes "t \<noteq> []"
  shows "(k, c) \<in> set (codes_for (Some t)) \<longleftrightarrow>
    (map_of MQTT_EVENT_TOPICS ++ map_of (http_table (Some t))) k = Some c \<and> str_lower t \<in> families c"
proof -
  have "keys_distinct (dict_merge MQTT_EVENT_TOPICS (http_table (Some t)))"
    by (intro keys_distinct_merge tables_distinct)
  then have "(k, c) \<in> set (dict_merge MQTT_EVENT_TOPICS (http_table (Some t))) \<longleftrightarrow>
      (map_of MQTT_EVENT_TOPICS ++ map_of (http_table (Some t))) k = Some c"
    by (simp add: http_table_distinct flip: lookup_merge)
  then show ?thesis using assms by (simp add: codes_for_def)
qed

lemma category_of_cases:
  "category_of dt = Some cat \<Longrightarrow> (cat = ''litter'' \<and> http_table dt = LITTER_HTTP_CODES) \<or>
     (cat = ''feeder'' \<and> http_table dt = FEEDER_HTTP_CODES) \<or>
     (cat = ''fountain'' \<and> http_table dt = FOUNTAIN_HTTP_CODES) \<or>
     (cat = ''purifier'' \<and> http_table dt = [])"
  by (auto simp: category_of_def http_table_def HTTP_CODES_BY_CATEGORY_def
      category_device_types_def split: option.splits if_splits)

section \<open>Properties\<close>

text \<open>
  C26: the list of codes a model can send and the lookup agree: a code is listed for a model
  exactly when the lookup finds it for that model and the model is one of the code's families.
\<close>

theorem codes_for_agrees_with_lookup:
  assumes "t \<noteq> []" "k \<noteq> []" "str_lower k = k"
  shows "(k, c) \<in> set (codes_for (Some t)) \<longleftrightarrow>
    lookup (Some k) (Some t) = Some c \<and> str_lower t \<in> families c"
  using assms by (auto simp: codes_for_map lookup_def map_add_def split: option.splits)

theorem codes_for_agrees_with_lookup_witness:
  "(''2'', the (lookup (Some ''2'') (Some ''D4h''))) \<in> set (codes_for (Some ''D4h''))"
  by (subst codes_for_agrees_with_lookup; code_simp)

text \<open>
  A numeric code is read in the reporting model's own category and in no other: what it finds is
  a row of that category's table, sent by models of that category only.
\<close>

theorem numeric_codes_stay_in_category:
  assumes cat: "category_of dt = Some cat" and num: "list_all is_digit k"
    and found: "lookup (Some k) dt = Some c"
  shows "map_of HTTP_CODES_BY_CATEGORY cat = Some (http_table dt)
    \<and> map_of (http_table dt) k = Some c
    \<and> (\<exists>members. map_of category_device_types cat = Some members \<and> families c \<subseteq> members)"
proof -
  have "k \<noteq> []" using found by (auto simp: lookup_def)
  then have row: "map_of (http_table dt) k = Some c"
    using found num by (simp add: lookup_numeric)
  have members: "families c \<subseteq> the (map_of category_device_types cat)"
    using category_of_cases [OF cat] row
    by (elim disjE conjE) (simp_all add: category_device_types_def litter_found feeder_found fountain_found)
  show ?thesis
    using category_of_cases [OF cat] row members
    by (elim disjE conjE) (simp_all add: category_device_types_def HTTP_CODES_BY_CATEGORY_def)
qed

theorem numeric_codes_stay_in_category_witness:
  "map_of HTTP_CODES_BY_CATEGORY ''feeder'' = Some (http_table (Some ''D4H''))
    \<and> map_of (http_table (Some ''D4H'')) ''2'' = lookup (Some ''2'') (Some ''D4H'')"
proof -
  have "category_of (Some ''D4H'') = Some ''feeder''" "list_all is_digit ''2''"
    "lookup (Some ''2'') (Some ''D4H'') = Some (the (lookup (Some ''2'') (Some ''D4H'')))"
    by code_simp+
  from numeric_codes_stay_in_category [OF this] this(3) show ?thesis by simp
qed

text \<open>The same number names a finished meal on a feeder and a cleared fault on a litter box.\<close>

lemma code_2_collides:
  "kind (the (lookup (Some ''2'') (Some ''d4h''))) = KIND_FEEDING
    \<and> kind (the (lookup (Some ''2'') (Some ''t5''))) = KIND_ERROR"
  by code_simp

end
