(* ===== verification/Normalize.thy ===== *)
theory Normalize
  imports Codes Dicts Json
begin

text \<open>
  From a transport to a row (\<open>events/normalize.py\<close>): decoding a \<open>content\<close> or \<open>state\<close> field that may
  be a dictionary or JSON text, with the repair of the unquoted tokens some devices emit; the
  event kind; the parent link, the recognition score and the pet identity; the \<open>events\<close> row of an
  HTTP report and of an MQTT message; and the \<open>media\<close> row of an uploaded file.

  \<open>repr\<close> stands for \<open>str\<close> of a float, of bytes or of a container, as in \<open>py_str\<close>. The warnings
  logged once per unknown code are left out.
\<close>

section \<open>Decoding a field\<close>

definition token_first :: "char \<Rightarrow> bool" where
  "token_first c \<longleftrightarrow> char_in 65 90 c \<or> char_in 97 122 c \<or> c = CHR ''_'' \<or> is_digit c"

definition token_char :: "char \<Rightarrow> bool" where
  "token_char c \<longleftrightarrow> token_first c \<or> c = CHR ''.'' \<or> c = CHR ''-''"

text \<open>\<open>_JSON_NUMBER\<close>, matched against a whole token.\<close>

definition is_json_number :: "string \<Rightarrow> bool" where
  "is_json_number t = (case scan_number t of Some p \<Rightarrow> np_rest p = [] | None \<Rightarrow> False)"

text \<open>
  \<open>_BARE_VALUE\<close> at the start of a text that follows a colon: white space, a token, white space
  and, in the rest, the delimiter.
\<close>

definition bare_value :: "string \<Rightarrow> (string \<times> string \<times> string \<times> string) option" where
  "bare_value s =
     (let pre = takeWhile is_space s; s1 = dropWhile is_space s;
          tok = takeWhile token_char s1; s2 = dropWhile token_char s1;
          mid = takeWhile is_space s2; s3 = dropWhile is_space s2
      in if tok \<noteq> [] \<and> token_first (hd tok) \<and> s3 \<noteq> [] \<and> hd s3 \<in> set '',}]''
         then Some (pre, tok, mid, s3) else None)"

lemma bare_value_parts: "bare_value s = Some (pre, tok, mid, r) \<Longrightarrow> s = pre @ tok @ mid @ r \<and> tok \<noteq> []"
  by (auto simp: bare_value_def Let_def split: if_splits)

lemma bare_value_length: "bare_value s = Some (pre, tok, mid, r) \<Longrightarrow> length r < length s"
  using bare_value_parts [of s pre tok mid r] by (cases tok) auto

definition fix_token :: "string \<Rightarrow> string" where
  "fix_token t =
     (if t \<in> {''true'', ''false'', ''null''} \<or> is_json_number t then t else quote # t @ [quote])"

text \<open>\<open>re.sub\<close>: the search goes on after the delimiter a match has consumed.\<close>

function repair_bare_values :: "string \<Rightarrow> string" where
  "repair_bare_values [] = []"
| "repair_bare_values (c # s) =
     (case (if c = CHR '':'' then bare_value s else None) of
        Some (pre, tok, mid, r) \<Rightarrow>
          c # pre @ fix_token tok @ mid @ hd r # repair_bare_values (tl r)
      | None \<Rightarrow> c # repair_bare_values s)"
  by pat_completeness auto
termination
  by (relation "measure length") (auto split: if_splits dest: bare_value_length)

text \<open>\<open>isinstance(parsed, dict)\<close>, or the empty dictionary.\<close>

definition dict_or_empty :: "pyval \<Rightarrow> pydict" where
  "dict_or_empty v = (case v of PDict d \<Rightarrow> d | _ \<Rightarrow> [])"

text \<open>
  \<open>_as_dict\<close> catches \<open>JSONDecodeError\<close> only. \<open>Inl Int_digits\<close> is the \<open>ValueError\<close> that escapes it;
  \<open>Inl Wide_char\<close> marks a text outside the model.
\<close>

fun as_dict :: "pyval \<Rightarrow> json_error + pydict" where
  "as_dict (PDict d) = Inr d"
| "as_dict (PStr s) =
     (case json_loads s of
        Inr v \<Rightarrow> Inr (dict_or_empty v)
      | Inl Malformed \<Rightarrow>
          (case json_loads (repair_bare_values s) of
             Inr v \<Rightarrow> Inr (dict_or_empty v)
           | Inl Malformed \<Rightarrow> Inr []
           | Inl e \<Rightarrow> Inl e)
      | Inl e \<Rightarrow> Inl e)"
| "as_dict _ = Inr []"

section \<open>What a content says\<close>

definition classify_event_kind :: "string option \<Rightarrow> pydict \<Rightarrow> string option \<Rightarrow> string" where
  "classify_event_kind et content dt =
     (if truthy (get content ''toiletEvent'') then KIND_TOILET
      else if truthy (get content ''cleanEvent'') then KIND_CLEANING
      else if truthy (get content ''cvrEvent'') then KIND_MOTION
      else if truthy (get content ''petEvent'') then KIND_PET
      else case lookup et dt of Some c \<Rightarrow> kind c | None \<Rightarrow> KIND_OTHER)"

definition is_detail_event :: "string option \<Rightarrow> string option \<Rightarrow> bool" where
  "is_detail_event et dt = (case lookup et dt of Some c \<Rightarrow> detail c | None \<Rightarrow> False)"

definition parent_event_of :: "(pyval \<Rightarrow> string) \<Rightarrow> pydict \<Rightarrow> string option" where
  "parent_event_of repr content =
     (let v = or_else (or_else (get content ''relate_event'') (get content ''related_event''))
                (get content ''relatedEvent'')
      in if truthy v then Some (py_str repr v) else None)"

text \<open>Order on floats as Python compares them: nothing is above or below NaN.\<close>

fun float_less :: "pyfloat \<Rightarrow> pyfloat \<Rightarrow> bool" where
  "float_less (Fin a) (Fin b) = (a < b)"
| "float_less NegInf (Fin b) = True"
| "float_less NegInf PosInf = True"
| "float_less (Fin a) PosInf = True"
| "float_less _ _ = False"

text \<open>\<open>max(xs, key=f)\<close> of a non-empty list: the first entry no later one exceeds.\<close>

definition max_by :: "('a \<Rightarrow> pyfloat) \<Rightarrow> 'a list \<Rightarrow> 'a" where
  "max_by f xs = fold (\<lambda>x best. if float_less (f best) (f x) then x else best) (tl xs) (hd xs)"

definition score_key :: "pyval \<Rightarrow> pyfloat" where
  "score_key e = (case e of PDict d \<Rightarrow> (case to_float (get d ''score'') of Some q \<Rightarrow> q | None \<Rightarrow> NegInf) | _ \<Rightarrow> NegInf)"

definition is_num :: "pyval \<Rightarrow> bool" where
  "is_num v \<longleftrightarrow> num_of v \<noteq> None"

definition is_dict :: "pyval \<Rightarrow> bool" where
  "is_dict v = (case v of PDict d \<Rightarrow> True | _ \<Rightarrow> False)"

definition best_match :: "pydict \<Rightarrow> pydict option" where
  "best_match content =
     (let raw = or_else (get content ''score_info'') (get content ''score'')
      in if is_num raw then Some [(''score'', raw)]
         else case raw of
                PDict d \<Rightarrow> Some d
              | PList es \<Rightarrow>
                  if filter is_dict es \<noteq> [] then Some (dict_or_empty (max_by score_key (filter is_dict es)))
                  else if filter is_num es \<noteq> []
                    then Some [(''score'', max_by (\<lambda>v. the (num_of v)) (filter is_num es))]
                  else None
              | _ \<Rightarrow> None)"

text \<open>An empty dictionary is no match: \<open>if match\<close> is false of it.\<close>

definition extract_score :: "pydict \<Rightarrow> pyval option" where
  "extract_score content =
     (case best_match content of
        Some m \<Rightarrow> if m \<noteq> [] \<and> is_num (get m ''score'') then Some (get m ''score'') else None
      | None \<Rightarrow> None)"

definition identity_or_none :: "pyval \<Rightarrow> int option" where
  "identity_or_none v = (case to_int v of Some n \<Rightarrow> if n = 0 then None else Some n | None \<Rightarrow> None)"

definition extract_pet_ref :: "pydict \<Rightarrow> int option" where
  "extract_pet_ref content =
     (case best_match content of
        Some m \<Rightarrow>
          if m \<noteq> [] \<and> get m ''id'' \<noteq> PNone then identity_or_none (get m ''id'')
          else identity_or_none (get_or content ''petId'' (get content ''pet_id''))
      | None \<Rightarrow> identity_or_none (get_or content ''petId'' (get content ''pet_id'')))"

section \<open>Event rows\<close>

record event_row =
  ev_uid :: "string option"
  ev_related :: "string option"
  ev_parent :: "string option"
  ev_device :: int
  ev_device_type :: "string option"
  ev_type :: "string option"
  ev_kind :: "string option"
  ev_ts :: "rat option"
  ev_source :: string
  ev_pet_ref :: "int option"
  ev_score :: "pyval option"
  ev_content_json :: "string option"
  ev_state_json :: "string option"

definition event_type_keys :: "string list" where
  "event_type_keys = [''eventType'', ''event_type'', ''type'']"

definition event_id_keys :: "string list" where
  "event_id_keys = [''eventId'', ''event_id'', ''id'']"

definition content_keys :: "string list" where "content_keys = [''content'']"

definition state_keys :: "string list" where "state_keys = [''state'']"

text \<open>\<open>str(first_of(d, *keys, default="") or "")\<close>.\<close>

definition text_of :: "(pyval \<Rightarrow> string) \<Rightarrow> pydict \<Rightarrow> string list \<Rightarrow> string" where
  "text_of repr d keys = (let v = first_of (PDict d) keys (PStr []) in if truthy v then py_str repr v else [])"

definition json_or_none :: "(pyval \<Rightarrow> string) \<Rightarrow> pydict \<Rightarrow> string option" where
  "json_or_none repr d = (if d = [] then None else Some (json_text (\<lambda>q. repr (PFloat (Fin q))) (PDict d)))"

text \<open>The columns both transports compute from an episode, a type, a content and a state.\<close>

definition row_of ::
    "(pyval \<Rightarrow> string) \<Rightarrow> string \<Rightarrow> rat \<Rightarrow> device \<Rightarrow> string \<Rightarrow> string \<Rightarrow> pydict \<Rightarrow> pydict \<Rightarrow> event_row" where
  "row_of repr source now dev episode et content state =
     \<lparr>ev_uid = (if episode \<noteq> [] then Some (episode @ '':'' @ et) else None),
      ev_related = (if episode \<noteq> [] then Some episode else None),
      ev_parent = parent_event_of repr content,
      ev_device = petkit_id dev, ev_device_type = Some (device_type dev),
      ev_type = Some et, ev_kind = Some (classify_event_kind (Some et) content (Some (device_type dev))),
      ev_ts = Some now, ev_source = source,
      ev_pet_ref = extract_pet_ref content, ev_score = extract_score content,
      ev_content_json = json_or_none repr content, ev_state_json = json_or_none repr state\<rparr>"

text \<open>The row, with the decoded state and content the caller pops from it.\<close>

definition from_event_report ::
    "(pyval \<Rightarrow> string) \<Rightarrow> rat \<Rightarrow> device \<Rightarrow> pydict \<Rightarrow> json_error + event_row \<times> pydict \<times> pydict" where
  "from_event_report repr now dev form =
     ebind (as_dict (first_of (PDict form) content_keys PNone)) (\<lambda>content.
     ebind (as_dict (first_of (PDict form) state_keys PNone)) (\<lambda>state.
       Inr (row_of repr ''http'' now dev (text_of repr form event_id_keys)
              (text_of repr form event_type_keys) content state, state, content)))"

definition from_mqtt ::
    "(pyval \<Rightarrow> string) \<Rightarrow> rat \<Rightarrow> device \<Rightarrow> string \<Rightarrow> pyval \<Rightarrow> json_error + event_row" where
  "from_mqtt repr now dev et params =
     (let ps = dict_or_empty params
      in ebind (as_dict (get ps ''content'')) (\<lambda>content.
         ebind (as_dict (get ps ''state'')) (\<lambda>state.
           Inr (row_of repr ''mqtt'' now dev (text_of repr ps event_id_keys) et content state))))"

section \<open>State only an event supplies\<close>

definition clean_done_words :: "string set" where
  "clean_done_words = {''cleaning'', ''litter empty'', ''reset''}"

definition kind_to_entity :: "(string \<times> string) list" where
  "kind_to_entity =
     [(KIND_TOILET, ''toilet_event''), (KIND_CLEANING, ''cleaning_event''),
      (KIND_ERROR, ''error_event''), (KIND_FEEDING, ''feeding_event''),
      (KIND_DRINKING, ''drinking_event'')]"

definition entity_for_event :: "string option \<Rightarrow> string option \<Rightarrow> string option" where
  "entity_for_event et dt = Option.bind (lookup et dt) (\<lambda>c. map_of kind_to_entity (kind c))"

definition mqtt_envelope_keys :: "string set" where
  "mqtt_envelope_keys = {''XDevice'', ''event_id'', ''timestamp'', ''content'', ''state''}"

definition telemetry_only :: "pydict \<Rightarrow> pydict" where
  "telemetry_only params = filter (\<lambda>(k, v). k \<notin> mqtt_envelope_keys) params"

text \<open>
  The day's feed totals. \<open>fsum\<close> is the interpreter's \<open>sum\<close> of floats, which is plain or
  compensated depending on its version; \<open>round(x, 1)\<close> rounds the exact value to one decimal.
\<close>

fun float_add :: "pyfloat \<Rightarrow> pyfloat \<Rightarrow> pyfloat" where
  "float_add (Fin a) (Fin b) = round_b64 (a + b)"
| "float_add NaN _ = NaN"
| "float_add _ NaN = NaN"
| "float_add PosInf NegInf = NaN"
| "float_add NegInf PosInf = NaN"
| "float_add (Fin a) y = y"
| "float_add x _ = x"

fun round_1 :: "pyfloat \<Rightarrow> pyfloat" where
  "round_1 (Fin q) = round_b64 (of_int (round_half_even (q * 10)) / 10)"
| "round_1 x = x"

definition float_or_0 :: "pyval \<Rightarrow> pyfloat" where
  "float_or_0 v = (case to_float v of Some x \<Rightarrow> x | None \<Rightarrow> Fin 0)"

definition amount_keys :: "string list" where
  "amount_keys = [''real_amount'', ''real_amount1'', ''real_amount2'',
     ''realAmount'', ''realAmount1'', ''realAmount2'']"

definition accumulate_feed_totals ::
    "(pyfloat list \<Rightarrow> pyfloat) \<Rightarrow> pydict \<Rightarrow> pydict \<Rightarrow> pydict" where
  "accumulate_feed_totals fsum content state =
     (let grams = fsum (map (\<lambda>k. float_or_0 (get content k)) (filter (has_key content) amount_keys))
      in if float_less grams (Fin 0) \<or> grams = Fin 0 then state
         else let day = get content ''day'';
                  fresh = [(''day'', day), (''times'', PInt 0), (''realAmountTotal'', PInt 0)];
                  totals = (case get state ''feedState'' of
                              PDict t \<Rightarrow> if day \<noteq> PNone \<and> \<not> py_eq (get t ''day'') day then fresh else t
                            | _ \<Rightarrow> fresh);
                  times = (case float_or_0 (get totals ''times'') of Fin q \<Rightarrow> trunc q | _ \<Rightarrow> 0);
                  t1 = AList.update ''times'' (PInt (times + 1)) totals;
                  total = round_1 (float_add (float_or_0 (get t1 ''realAmountTotal'')) grams)
              in AList.update ''feedState''
                   (PDict (AList.update ''realAmountTotal'' (PFloat total) t1)) state)"

definition apply_derived_state ::
    "(pyfloat list \<Rightarrow> pyfloat) \<Rightarrow> string \<Rightarrow> string option \<Rightarrow> pydict \<Rightarrow> device \<Rightarrow> device" where
  "apply_derived_state fsum now_iso et content dev =
     (case lookup et (Some (device_type dev)) of
        None \<Rightarrow> dev
      | Some code \<Rightarrow>
          if kind code = KIND_CLEANING \<and> role code = ROLE_DONE then
            (if done_word code \<in> clean_done_words
             then dev\<lparr>dev_state := AList.update ''lastClean'' (PStr now_iso) (dev_state dev)\<rparr> else dev)
          else if kind code = KIND_TOILET \<and> role code = ROLE_VISIT_SUMMARY then
            (let st = AList.update ''lastVisit'' (PStr now_iso) (dev_state dev)
             in dev\<lparr>dev_state :=
                  (case to_float (get_or content ''pet_weight'' (get content ''petWeight'')) of
                     Some w \<Rightarrow> AList.update ''petWeight'' (PFloat w) st | None \<Rightarrow> st)\<rparr>)
          else if kind code = KIND_FEEDING \<and> role code = ROLE_DONE then
            dev\<lparr>dev_state := accumulate_feed_totals fsum content
              (AList.update ''lastFeed'' (PStr now_iso) (dev_state dev))\<rparr>
          else dev)"

section \<open>Media rows\<close>

definition file_id_keys :: "string list" where "file_id_keys = [''fileId'', ''file_id'', ''id'']"
definition event_id_keys_media :: "string list" where "event_id_keys_media = [''eventId'', ''event_id'']"
definition module_keys :: "string list" where "module_keys = [''moduleType'', ''module_type'']"
definition cycle_keys :: "string list" where "cycle_keys = [''cycleType'', ''cycle_type'']"
definition file_type_keys :: "string list" where "file_type_keys = [''fileType'', ''file_type'']"
definition start_keys :: "string list" where "start_keys = [''startTime'', ''start_time'']"
definition end_keys :: "string list" where "end_keys = [''endTime'', ''end_time'']"
definition duration_keys :: "string list" where
  "duration_keys = [''duration'', ''durationMs'', ''duration_ms'']"
definition aes_iv_keys :: "string list" where "aes_iv_keys = [''aesIv'', ''aes_iv'']"
definition encrypt_keys :: "string list" where "encrypt_keys = [''encrypt'']"
definition size_keys :: "string list" where "size_keys = [''size'', ''fileSize'', ''file_size'']"

definition module_type_to_category :: "(string \<times> string) list" where
  "module_type_to_category =
     [(''CLOUD_STORAGE'', ''fullVideo''), (''CLOUD_DOUBLE'', ''cloudDouble''),
      (''EVENT_PREVIEW'', ''eventImage''), (''EVENT_VIDEO'', ''dynamicVideo''),
      (''SHIT_PICTURE'', ''wasteCheck''), (''HEALTH_PRED'', ''healthPic'')]"

definition category_to_capability :: "(string \<times> string) list" where
  "category_to_capability =
     [(''fullVideo'', ''fullVideo''), (''cloudDouble'', ''fullVideo''),
      (''dynamicVideo'', ''dynamicVideo''), (''eventImage'', ''eventImage''),
      (''wasteCheck'', ''eventImage''), (''healthPic'', ''eventImage''), (''highLight'', ''highLight'')]"

definition capability_for_category :: "string \<Rightarrow> string option" where
  "capability_for_category category = map_of category_to_capability category"

definition resolve_category :: "(pyval \<Rightarrow> string) \<Rightarrow> pydict \<Rightarrow> string" where
  "resolve_category repr info =
     (let cycle = first_of (PDict info) cycle_keys PNone
      in if truthy cycle then py_str repr cycle
         else case map_of module_type_to_category (text_of repr info module_keys) of
                Some c \<Rightarrow> c | None \<Rightarrow> [])"

record media_info =
  mi_file_id :: string
  mi_device :: int
  mi_related :: "string option"
  mi_module_type :: string
  mi_category :: string
  mi_file_type :: string
  mi_encrypted :: int
  mi_aes_iv :: "string option"
  mi_duration_ms :: "int option"
  mi_start :: "pyfloat option"
  mi_end :: "pyfloat option"
  mi_size :: "int option"
  mi_pet_score :: "pyfloat option"
  mi_pet_event :: "string option"
  mi_status :: string

definition none_if_empty :: "string \<Rightarrow> string option" where
  "none_if_empty s = (if s = [] then None else Some s)"

definition from_file_info :: "(pyval \<Rightarrow> string) \<Rightarrow> device \<Rightarrow> pydict \<Rightarrow> py_exc + media_info" where
  "from_file_info repr dev info =
     (let file_id = text_of repr info file_id_keys;
          encrypt = str_strip (py_str repr (first_of (PDict info) encrypt_keys (PStr ''0'')));
          pet_event = get info ''petEvent''
      in if file_id = [] then Inl ValueError
         else Inr \<lparr>mi_file_id = file_id, mi_device = petkit_id dev,
           mi_related = none_if_empty (text_of repr info event_id_keys_media),
           mi_module_type = text_of repr info module_keys,
           mi_category = resolve_category repr info,
           mi_file_type = text_of repr info file_type_keys,
           mi_encrypted = (if encrypt \<in> {''1'', ''true'', ''True''} then 1 else 0),
           mi_aes_iv = none_if_empty (text_of repr info aes_iv_keys),
           mi_duration_ms = to_int (first_of (PDict info) duration_keys PNone),
           mi_start = to_float (first_of (PDict info) start_keys PNone),
           mi_end = to_float (first_of (PDict info) end_keys PNone),
           mi_size = to_int (first_of (PDict info) size_keys PNone),
           mi_pet_score = to_float (get info ''petScore''),
           mi_pet_event = (if pet_event = PNone then None else Some (py_str repr pet_event)),
           mi_status = ''pending''\<rparr>)"

section \<open>Lemmas\<close>

lemma fix_token_number: "is_json_number t \<Longrightarrow> fix_token t = t"
  by (simp add: fix_token_def)

lemma repair_no_colon: "CHR '':'' \<notin> set s \<Longrightarrow> repair_bare_values s = s"
  by (induction s rule: repair_bare_values.induct) auto

lemma repair_append:
  assumes "CHR '':'' \<notin> set a"
  shows "repair_bare_values (a @ s) = a @ repair_bare_values s"
  using assms by (induction a) auto

lemma repair_value:
  assumes "bare_value s = Some (pre, tok, mid, r)"
  shows "repair_bare_values (CHR '':'' # s) = CHR '':'' # pre @ fix_token tok @ mid @ hd r # repair_bare_values (tl r)"
  using assms by simp

text \<open>The value of a device's key is a token followed by a delimiter, or something else.\<close>

lemma bare_value_token:
  assumes "tok \<noteq> []" "list_all token_char tok" "token_first (hd tok)" "c \<in> set '',}]''"
  shows "bare_value (tok @ c # r) = Some ([], tok, [], c # r)"
proof -
  have t: "takeWhile token_char (tok @ c # r) = tok" "dropWhile token_char (tok @ c # r) = c # r"
    using assms(2,4) by (auto simp: takeWhile_append2 dropWhile_append2 list_all_iff token_char_def
        token_first_def char_in_def is_digit_def)
  have first: "\<not> is_space (hd tok)"
    using assms(3) by (auto simp: token_first_def is_space_def char_in_def is_digit_range)
  have c: "\<not> is_space c" using assms(4) by (auto simp: is_space_def char_in_def)
  show ?thesis using assms first t c
    by (cases tok) (auto simp: bare_value_def Let_def)
qed

text \<open>Strict reading of an object stops at the value of its first key.\<close>

text \<open>An episode id: digits, an underscore, and more token characters.\<close>

definition episode_token :: "string \<Rightarrow> bool" where
  "episode_token t \<longleftrightarrow> list_all token_char t \<and> takeWhile is_digit t \<noteq> [] \<and>
     length (takeWhile is_digit t) \<le> max_str_digits \<and> dropWhile is_digit t \<noteq> [] \<and>
     hd (dropWhile is_digit t) = CHR ''_''"

lemma episode_scan:
  assumes "episode_token t"
  obtains ip y c where "scan_number (t @ x) = Some \<lparr>np_sign = [], np_int = ip, np_frac = [], np_exp = [],
      np_rest = c # y\<rparr>" "length ip \<le> max_str_digits" "c = CHR ''_'' \<or> is_digit c"
proof -
  obtain ds r where t: "t = ds @ CHR ''_'' # r" and ds: "ds = takeWhile is_digit t" "ds \<noteq> []"
      "length ds \<le> max_str_digits" "list_all is_digit ds"
    using assms unfolding episode_token_def
    by (metis (mono_tags, lifting) list.exhaust_sel list_all_iff set_takeWhileD takeWhile_dropWhile_id)
  obtain d ds' where d0: "ds = d # ds'" using ds(2) by (cases ds) auto
  have d: "ds = d # ds'" "is_digit d" "list_all is_digit ds'" using ds(4) unfolding d0 by simp_all
  have m: "scan_minus (t @ x) = ([], t @ x)"
    using d by (auto simp: scan_minus_def t dest: digit_not_sign)
  have us: "\<not> is_digit (CHR ''_'')" by code_simp
  show thesis
  proof (cases "d = CHR ''0''")
    case True
    then have i: "scan_int (t @ x) = Some ([d], ds' @ CHR ''_'' # r @ x)"
      by (simp add: scan_int_def t d)
    show thesis
    proof (cases ds')
      case Nil
      then show thesis using i m that
        by (simp add: scan_number_def scan_frac_def scan_exp_def max_str_digits_def)
    next
      case (Cons e es)
      then have "is_digit e" "e \<noteq> CHR ''.''" "e \<noteq> CHR ''e''" "e \<noteq> CHR ''E''"
        using d by (auto simp: is_digit_def)
      then show thesis using i m that Cons
        by (simp add: scan_number_def scan_frac_def scan_exp_def max_str_digits_def)
    qed
  next
    case False
    have "takeWhile is_digit (ds @ CHR ''_'' # r @ x) = ds"
      "dropWhile is_digit (ds @ CHR ''_'' # r @ x) = CHR ''_'' # r @ x"
      using ds(4) us by (auto simp: takeWhile_append2 dropWhile_append2 list_all_iff)
    then have "scan_int (t @ x) = Some (ds, CHR ''_'' # r @ x)"
      using False d by (simp add: scan_int_def t)
    then show thesis using m that ds
      by (simp add: scan_number_def scan_frac_def scan_exp_def)
  qed
qed

lemma digit_first: "is_digit d \<Longrightarrow> d \<notin> set ''ntfNI-[{'' \<and> d \<noteq> quote \<and> \<not> json_space d"
  by (auto simp: is_digit_def quote_def json_space_def)

lemma no_word: "is_digit d \<Longrightarrow> find (\<lambda>(w, v). starts_with (d # s) w) json_words = None"
  using digit_first [of d] by (simp add: json_words_def starts_with_def)

lemma value_of_digits: "is_digit d \<Longrightarrow> json_value (Suc n) (d # s) = json_scalar (d # s)"
  using digit_first [of d] by simp

lemma members_first:
  assumes "length (concat (map escape_char k)) < n" "json_ws y = y"
  shows "json_members (Suc n) e (json_quote k @ CHR '':'' # y) =
    ebind (json_value n y) (\<lambda>(v, r).
      case json_ws r of [] \<Rightarrow> Inl Malformed
      | c # r' \<Rightarrow> if c = CHR '','' then json_members n (AList.update k v e) (json_ws r')
                 else if c = CHR ''}'' then Inr (PDict (AList.update k v e), r')
                 else Inl Malformed)"
  using assms by (simp add: json_quote_def string_read)

lemma loads_object:
  assumes "json_ws y = y" "y \<noteq> []"
  shows "\<exists>n f. json_loads (CHR ''{'' # json_quote k @ CHR '':'' # y) =
    ebind (ebind (json_value (Suc n) y) (\<lambda>(v, r). case json_ws r of [] \<Rightarrow> Inl Malformed
      | c # r' \<Rightarrow> if c \<in> {CHR '','', CHR ''}''} then f v (c # r') else Inl Malformed)) (\<lambda>(v, r).
        if json_ws r = [] then Inr v else Inl Malformed)"
proof -
  let ?t = "CHR ''{'' # json_quote k @ CHR '':'' # y"
  define n where "n = 2 * length ?t - 3"
  have n: "Suc (2 * length ?t) = Suc (Suc (Suc (Suc n)))"
    using assms by (simp add: n_def json_quote_def)
  have "json_value (Suc (2 * length ?t)) ?t = json_members (Suc (Suc (Suc n))) [] (json_quote k @ CHR '':'' # y)"
    unfolding n by (simp add: json_quote_def quote_def json_space_def)
  also have "\<dots> = ebind (json_value (Suc (Suc n)) y) (\<lambda>(v, r).
      case json_ws r of [] \<Rightarrow> Inl Malformed
      | c # r' \<Rightarrow> if c = CHR '','' then json_members (Suc (Suc n)) (AList.update k v []) (json_ws r')
                 else if c = CHR ''}'' then Inr (PDict (AList.update k v []), r')
                 else Inl Malformed)"
    by (rule members_first) (use assms in \<open>auto simp: n_def json_quote_def\<close>)
  finally have *: "json_value (Suc (2 * length ?t)) ?t = \<dots>" .
  have ws: "json_ws ?t = ?t" by (simp add: json_space_def)
  show ?thesis
    unfolding json_loads_def ws *
    by (intro exI [of _ "Suc n"] exI [of _ "\<lambda>v x. case x of c # r' \<Rightarrow>
        if c = CHR '','' then json_members (Suc (Suc n)) (AList.update k v []) (json_ws r')
        else Inr (PDict (AList.update k v []), r')"]) (intro arg_cong2 [of _ _ _ _ ebind] ext refl,
      auto split: list.splits)
qed

lemma episode_first: "episode_token t \<Longrightarrow> \<exists>d r. t = d # r \<and> is_digit d \<and> token_first d \<and> list_all token_char t"
  by (cases t) (auto simp: episode_token_def token_first_def split: if_splits)

lemma episode_not_strict:
  assumes "episode_token t"
  shows "json_loads (CHR ''{'' # json_quote k @ CHR '':'' # t @ x) = Inl Malformed"
proof -
  obtain d r where d: "t = d # r" "is_digit d" using episode_first [OF assms] by blast
  have blank: "json_ws (t @ x) = t @ x" using d digit_first by (auto simp: json_ws_def)
  obtain ip y c where scan: "scan_number (t @ x) = Some \<lparr>np_sign = [], np_int = ip, np_frac = [],
      np_exp = [], np_rest = c # y\<rparr>" "length ip \<le> max_str_digits" "c = CHR ''_'' \<or> is_digit c"
    by (rule episode_scan [OF assms])
  have c: "json_ws (c # y) = c # y" "c \<notin> {CHR '','', CHR ''}''}"
    using scan(3) by (auto simp: json_ws_def json_space_def is_digit_def)
  have "json_scalar (t @ x) = Inr (PInt (int (digits_value ip)), c # y)"
    using d scan no_word [of d "r @ x"] by (simp add: json_scalar_def number_value_def)
  then have val: "json_value (Suc n) (t @ x) = Inr (PInt (int (digits_value ip)), c # y)" for n
    using d value_of_digits [of d n "r @ x"] by simp
  obtain n f where "json_loads (CHR ''{'' # json_quote k @ CHR '':'' # t @ x) =
    ebind (ebind (json_value (Suc n) (t @ x)) (\<lambda>(v, r). case json_ws r of [] \<Rightarrow> Inl Malformed
      | c # r' \<Rightarrow> if c \<in> {CHR '','', CHR ''}''} then f v (c # r') else Inl Malformed)) (\<lambda>(v, r).
        if json_ws r = [] then Inr v else Inl Malformed)"
    using loads_object [of "t @ x" k] blank d by auto
  then show ?thesis using c by (simp only: val) simp
qed

lemma episode_fixed: "episode_token t \<Longrightarrow> fix_token t = quote # t @ [quote]"
proof -
  assume t: "episode_token t"
  obtain ip y c where "scan_number (t @ []) = Some \<lparr>np_sign = [], np_int = ip, np_frac = [],
      np_exp = [], np_rest = c # y\<rparr>"
    by (rule episode_scan [OF t, of "[]"])
  then have "\<not> is_json_number t" by (simp add: is_json_number_def)
  moreover have "t \<notin> {''true'', ''false'', ''null''}"
    using episode_first [OF t] digit_first by fastforce
  ultimately show ?thesis by (simp add: fix_token_def)
qed

lemma quote_no_colon:
  assumes "CHR '':'' \<notin> set k"
  shows "CHR '':'' \<notin> set (json_quote k)"
proof -
  have h: "CHR '':'' \<noteq> hex_lower n" if "n < 16" for n
  proof
    assume "CHR '':'' = hex_lower n"
    then have "hex_value (CHR '':'') = Some n" using hex_lower_facts [OF that] by simp
    then show False by (simp add: hex_value_def)
  qed
  then have hd: "CHR '':'' \<noteq> hex_lower (of_char c div 16)" "CHR '':'' \<noteq> hex_lower (of_char c mod 16)" for c :: char
    by (simp_all add: less_mult_imp_div_less)
  have e: "CHR '':'' \<notin> set (escape_char c)" if "c \<noteq> CHR '':''" for c
    using that hd [of c] by (simp add: escape_char_def Let_def backslash_def quote_def)
  have "\<forall>c \<in> set k. CHR '':'' \<notin> set (escape_char c)"
  proof
    fix c assume "c \<in> set k"
    then show "CHR '':'' \<notin> set (escape_char c)" using assms by (intro e) metis
  qed
  then show ?thesis by (simp add: json_quote_def quote_def)
qed

text \<open>The entry \<open>max\<close> picks, when no key is NaN.\<close>

lemma float_less_weak: "\<not> float_less a b \<Longrightarrow> \<not> float_less b c \<Longrightarrow> b \<noteq> NaN \<Longrightarrow> \<not> float_less a c"
  by (cases a; cases b; cases c) auto

lemma float_less_asym: "float_less a b \<Longrightarrow> \<not> float_less b a"
  by (cases a; cases b) auto

lemma float_less_irrefl [simp]: "\<not> float_less a a"
  by (cases a) auto

lemma max_fold:
  assumes "\<forall>x \<in> set (b # xs). f x \<noteq> NaN"
  shows "fold (\<lambda>x best. if float_less (f best) (f x) then x else best) xs b \<in> set (b # xs) \<and>
    (\<forall>x \<in> set (b # xs). \<not> float_less (f (fold (\<lambda>x best. if float_less (f best) (f x) then x else best) xs b)) (f x))"
  using assms
proof (induction xs arbitrary: b)
  case (Cons x xs)
  let ?c = "if float_less (f b) (f x) then x else b"
  have "\<forall>y \<in> set (?c # xs). f y \<noteq> NaN" using Cons.prems by auto
  note IH = Cons.IH [OF this]
  let ?m = "fold (\<lambda>x best. if float_less (f best) (f x) then x else best) xs ?c"
  have top: "\<not> float_less (f ?m) (f ?c)" and mem: "?m \<in> set (?c # xs)" using IH by auto
  have m: "f ?m \<noteq> NaN" using mem Cons.prems by (auto split: if_splits)
  have "\<not> float_less (f ?m) (f b) \<and> \<not> float_less (f ?m) (f x)"
  proof (cases "float_less (f b) (f x)")
    case True
    then have "\<not> float_less (f ?m) (f x)" using top by simp
    moreover have "\<not> float_less (f x) (f b)" using True float_less_asym by blast
    ultimately show ?thesis using float_less_weak [of "f ?m" "f x" "f b"] Cons.prems by simp
  next
    case False
    then have "\<not> float_less (f ?m) (f b)" using top by simp
    then show ?thesis using float_less_weak [of "f ?m" "f b" "f x"] False Cons.prems by simp
  qed
  then show ?case using IH mem by (auto split: if_splits)
qed simp

lemma max_by_max:
  assumes "xs \<noteq> []" "\<forall>x \<in> set xs. f x \<noteq> NaN"
  shows "max_by f xs \<in> set xs" "x \<in> set xs \<Longrightarrow> \<not> float_less (f (max_by f xs)) (f x)"
  using max_fold [of "hd xs" "tl xs" f] assms by (auto simp: max_by_def)

lemma to_float_finite: "to_float v = Some x \<Longrightarrow> \<exists>q. x = Fin q"
  by (cases v) (auto split: pyfloat.splits option.splits dest: sym)

lemma score_key_not_NaN: "score_key e \<noteq> NaN"
  by (auto simp: score_key_def split: pyval.splits option.splits dest: to_float_finite)

lemma is_dictD: "is_dict v \<Longrightarrow> \<exists>d. v = PDict d"
  by (cases v) (simp_all add: is_dict_def)

lemma as_dict_first: "as_dict (first_of (PDict d) [k] PNone) = as_dict (get d k)"
proof -
  have "as_dict (PStr []) = Inr []" by code_simp
  moreover have "py_eq v (PStr []) \<Longrightarrow> v = PStr []" for v by (cases v) auto
  ultimately show ?thesis by (auto simp: get_def split: option.splits)
qed

section \<open>Properties\<close>

text \<open>
  C31: an object whose first value is an episode id the device left unquoted is read as if the id
  had been quoted, whatever follows it that the repair leaves alone.
\<close>

theorem bare_episode_is_quoted:
  assumes tok: "episode_token t" and key: "CHR '':'' \<notin> set k" and c: "c \<in> {CHR '','', CHR ''}''}"
    and rest: "repair_bare_values r = r"
    and quoted: "json_loads (CHR ''{'' # json_quote k @ CHR '':'' # (quote # t @ [quote]) @ c # r) = Inr v"
  shows "as_dict (PStr (CHR ''{'' # json_quote k @ CHR '':'' # t @ c # r)) = Inr (dict_or_empty v)"
proof -
  have "bare_value (t @ c # r) = Some ([], t, [], c # r)"
    using episode_first [OF tok] c by (intro bare_value_token) auto
  then have "repair_bare_values (CHR ''{'' # json_quote k @ CHR '':'' # t @ c # r)
      = CHR ''{'' # json_quote k @ CHR '':'' # (quote # t @ [quote]) @ c # r"
    using quote_no_colon [OF key] by (simp add: repair_append repair_value episode_fixed [OF tok] rest)
  then show ?thesis using episode_not_strict [OF tok, of k "c # r"] quoted by simp
qed

text \<open>The content a T5 sends with a detection result.\<close>

definition captured_content :: string where
  "captured_content = CHR ''{'' # json_quote ''related_event'' @ CHR '':'' # ''3_10000001_1784741818''
     @ CHR '','' # quote # ''count'' @ quote # '':1}''"

theorem bare_episode_is_quoted_witness:
  "as_dict (PStr captured_content)
    = Inr [(''related_event'', PStr ''3_10000001_1784741818''), (''count'', PInt 1)]"
proof -
  have "episode_token ''3_10000001_1784741818''" by code_simp
  moreover have "repair_bare_values (quote # ''count'' @ quote # '':1}'') = quote # ''count'' @ quote # '':1}''"
    by code_simp
  moreover have "json_loads (CHR ''{'' # json_quote ''related_event'' @ CHR '':''
      # (quote # ''3_10000001_1784741818'' @ [quote]) @ CHR '','' # quote # ''count'' @ quote # '':1}'')
    = Inr (PDict [(''related_event'', PStr ''3_10000001_1784741818''), (''count'', PInt 1)])"
    by code_simp
  ultimately show ?thesis
    using bare_episode_is_quoted [of "''3_10000001_1784741818''" "''related_event''" "CHR '',''"]
    by (simp add: captured_content_def dict_or_empty_def del: as_dict.simps)
qed

text \<open>
  C32: in a report whose \<open>score_info\<close> is a list with at least one entry, the match is an entry no other
  entry outscores, and the pet identity is that entry's id, or, when the entry has no id, what the older
  keys \<open>petId\<close> and \<open>pet_id\<close> hold; it is never the zero that means nobody was recognised.
\<close>

theorem identity_of_best_entry:
  assumes list: "get content ''score_info'' = PList es" and some: "filter is_dict es \<noteq> []"
  shows "\<exists>d. PDict d \<in> set es \<and> best_match content = Some d
    \<and> list_all (\<lambda>e. \<not> float_less (score_key (PDict d)) (score_key e)) (filter is_dict es)
    \<and> (get d ''id'' \<noteq> PNone \<longrightarrow> extract_pet_ref content = identity_or_none (get d ''id''))
    \<and> (get d ''id'' = PNone \<longrightarrow> extract_pet_ref content = identity_or_none (get_or content ''petId'' (get content ''pet_id'')))
    \<and> extract_pet_ref content \<noteq> Some 0"
proof -
  let ?m = "max_by score_key (filter is_dict es)"
  have m: "?m \<in> set (filter is_dict es)"
    using some by (intro max_by_max) (simp_all add: score_key_not_NaN)
  then have "?m \<in> set es" "is_dict ?m" by (simp_all only: set_filter mem_Collect_eq)
  then obtain d where d: "?m = PDict d" "PDict d \<in> set es"
    by (auto dest: is_dictD)
  have top: "e \<in> set (filter is_dict es) \<Longrightarrow> \<not> float_less (score_key (PDict d)) (score_key e)" for e
    using max_by_max(2) [OF some, of score_key e] d(1) by (simp add: score_key_not_NaN)
  have "es \<noteq> []" using some by auto
  then have b: "best_match content = Some d"
    using list some d(1) by (simp add: best_match_def or_else_def is_num_def dict_or_empty_def)
  have nz: "identity_or_none v \<noteq> Some 0" for v
    by (simp add: identity_or_none_def split: option.splits)
  show ?thesis
    using d(2) b top nz by (intro exI [of _ d]) (auto simp: list_all_iff extract_pet_ref_def get_def)
qed

theorem identity_of_best_entry_witness:
  "\<exists>d. best_match [(''score_info'', PList [PDict [(''id'', PInt 4), (''score'', PInt 9)],
        PDict [(''id'', PInt 7), (''score'', PInt 1846)]])] = Some d
    \<and> extract_pet_ref [(''score_info'', PList [PDict [(''id'', PInt 4), (''score'', PInt 9)],
        PDict [(''id'', PInt 7), (''score'', PInt 1846)]])] \<noteq> Some 0"
  using identity_of_best_entry [of "[(''score_info'', PList [PDict [(''id'', PInt 4), (''score'', PInt 9)],
        PDict [(''id'', PInt 7), (''score'', PInt 1846)]])]"
      "[PDict [(''id'', PInt 4), (''score'', PInt 9)], PDict [(''id'', PInt 7), (''score'', PInt 1846)]]"]
  by (auto simp: get_def is_dict_def)

text \<open>
  C25: the transport does not show in a row: the same envelope reported over HTTP and over MQTT gives
  the same columns but for the source, and the same failures.
\<close>

theorem transports_agree:
  "from_mqtt repr now dev (text_of repr d event_type_keys) (PDict d) =
    ebind (from_event_report repr now dev d) (\<lambda>(r, s, c). Inr (r\<lparr>ev_source := ''mqtt''\<rparr>))"
  by (cases "as_dict (get d ''content'')"; cases "as_dict (get d ''state'')")
    (simp_all add: from_mqtt_def from_event_report_def Let_def content_keys_def state_keys_def
      as_dict_first dict_or_empty_def row_of_def del: first_of.simps as_dict.simps)

text \<open>
  A number of more than 4300 digits is not reported as a damaged payload: decoding the field
  raises.
\<close>

theorem long_number_raises:
  assumes "4300 < n"
  shows "as_dict (PStr (CHR ''{'' # json_quote k @ CHR '':'' # replicate n (CHR ''1'') @ ''}'')) = Inl Int_digits"
proof -
  obtain m where n: "n = Suc m" using assms by (cases n) auto
  have one: "is_digit (CHR ''1'')" "\<not> is_digit (CHR ''}'')" by code_simp+
  let ?y = "replicate n (CHR ''1'') @ ''}''"
  have y: "?y = CHR ''1'' # replicate m (CHR ''1'') @ ''}''" by (simp add: n)
  have all: "x \<in> set (replicate n (CHR ''1'')) \<Longrightarrow> is_digit x" for x
    using one(1) by (metis in_set_replicate)
  have "takeWhile is_digit ?y = replicate n (CHR ''1'')"
    by (subst takeWhile_append2) (simp_all only: all takeWhile.simps one if_False append_Nil2)
  moreover have "dropWhile is_digit ?y = ''}''"
    by (subst dropWhile_append2) (simp_all only: all dropWhile.simps one if_False)
  ultimately have "scan_number ?y = Some \<lparr>np_sign = [], np_int = replicate n (CHR ''1''), np_frac = [],
      np_exp = [], np_rest = ''}''\<rparr>"
    using one by (simp add: scan_number_def scan_minus_def scan_int_def n scan_frac_def scan_exp_def)
  then have "json_scalar ?y = Inl Int_digits"
    using assms no_word [OF one(1)] by (simp add: json_scalar_def number_value_def max_str_digits_def n)
  then have val: "json_value (Suc i) ?y = Inl Int_digits" for i
    using value_of_digits [OF one(1)] y by simp
  have "json_ws ?y = ?y" "?y \<noteq> []" by (simp_all add: n json_space_def)
  from loads_object [OF this, of k] have "json_loads (CHR ''{'' # json_quote k @ CHR '':'' # ?y) = Inl Int_digits"
    by (elim exE) (simp only: val ebind_simps)
  then show ?thesis by simp
qed

theorem long_number_raises_witness:
  "as_dict (PStr (CHR ''{'' # json_quote ''a'' @ CHR '':'' # replicate 4301 (CHR ''1'') @ ''}'')) = Inl Int_digits"
  by (rule long_number_raises) simp

end
