(* ===== verification/Sessions.thy ===== *)
theory Sessions
  imports Normalize "HOL-Library.Multiset"
begin

text \<open>
  Timeline cards (\<open>events/sessions.py\<close>): stored event rows grouped into sessions, and the filter
  chips. A session is a mutable dictionary the passes share; here the sessions are a list, an
  index into it is the reference, and hanging an event under a session replaces one entry. The
  set \<open>used_ids\<close> is threaded through the passes.

  A stored row is an \<open>events\<close> row with its key, the pet it was attributed to and its media, whose
  type is a parameter. Decoding comes first: every row ends as a card or as a line under one, and
  both decode it, so \<open>group_sessions\<close> raises exactly when the decoding of some row does. The
  difference of two time stamps is rounded as a float subtraction.
\<close>

section \<open>Rows\<close>

record 'm stored_row = event_row +
  sr_id :: int
  sr_pet :: "int option"
  sr_media :: "'m list"

record 'm event =
  e_row :: "'m stored_row"
  e_content :: pydict
  e_state :: pydict

abbreviation e_id :: "'m event \<Rightarrow> int" where "e_id e \<equiv> sr_id (e_row e)"
abbreviation e_pet :: "'m event \<Rightarrow> int option" where "e_pet e \<equiv> sr_pet (e_row e)"
abbreviation e_media :: "'m event \<Rightarrow> 'm list" where "e_media e \<equiv> sr_media (e_row e)"
abbreviation e_related :: "'m event \<Rightarrow> string option" where "e_related e \<equiv> ev_related (e_row e)"
abbreviation e_parent :: "'m event \<Rightarrow> string option" where "e_parent e \<equiv> ev_parent (e_row e)"
abbreviation e_device :: "'m event \<Rightarrow> int" where "e_device e \<equiv> ev_device (e_row e)"
abbreviation e_device_type :: "'m event \<Rightarrow> string option" where "e_device_type e \<equiv> ev_device_type (e_row e)"
abbreviation e_type :: "'m event \<Rightarrow> string option" where "e_type e \<equiv> ev_type (e_row e)"
abbreviation e_kind :: "'m event \<Rightarrow> string option" where "e_kind e \<equiv> ev_kind (e_row e)"
abbreviation e_ts :: "'m event \<Rightarrow> rat option" where "e_ts e \<equiv> ev_ts (e_row e)"

definition text_value :: "string option \<Rightarrow> pyval" where
  "text_value t = (case t of Some s \<Rightarrow> PStr s | None \<Rightarrow> PNone)"

definition content_of_row :: "'m stored_row \<Rightarrow> json_error + pydict" where
  "content_of_row r = as_dict (text_value (ev_content_json r))"

definition state_of_row :: "'m stored_row \<Rightarrow> json_error + pydict" where
  "state_of_row r = as_dict (text_value (ev_state_json r))"

definition decode_row :: "'m stored_row \<Rightarrow> json_error + 'm event" where
  "decode_row r = ebind (content_of_row r) (\<lambda>c. ebind (state_of_row r) (\<lambda>s.
     Inr \<lparr>e_row = r, e_content = c, e_state = s\<rparr>))"

fun decode_rows :: "'m stored_row list \<Rightarrow> json_error + 'm event list" where
  "decode_rows [] = Inr []"
| "decode_rows (r # rs) = ebind (decode_row r) (\<lambda>e. ebind (decode_rows rs) (\<lambda>es. Inr (e # es)))"

section \<open>Cards\<close>

record 'm sub_event =
  se_id :: int
  se_type :: "string option"
  se_ts :: "rat option"
  se_related :: "string option"
  se_detail :: bool
  se_content :: pydict
  se_state :: pydict
  se_media :: "'m list"

record 'm session =
  s_kind :: "string option"
  s_id :: int
  s_related :: "string option"
  s_device :: int
  s_device_type :: "string option"
  s_ts :: "rat option"
  s_display_ts :: "rat option"
  s_pet :: "int option"
  s_type :: "string option"
  s_event_kind :: "string option"
  s_duration :: "pyfloat option"
  s_weight :: "pyfloat option"
  s_content :: pydict
  s_state :: pydict
  s_subs :: "'m sub_event list"
  s_media :: "'m list"

definition sub_event_window :: rat where "sub_event_window = 600"

definition cycle_tail_window :: rat where "cycle_tail_window = 120"

text \<open>\<open>x or 0\<close> of a time stamp, and whether an optional number or text is true.\<close>

definition ts_or_0 :: "rat option \<Rightarrow> rat" where
  "ts_or_0 t = (case t of Some q \<Rightarrow> q | None \<Rightarrow> 0)"

definition some_text :: "string option \<Rightarrow> string option" where
  "some_text t = (if t = Some [] then None else t)"

definition some_ts :: "rat option \<Rightarrow> rat option" where
  "some_ts t = (if t = Some 0 then None else t)"

definition span :: "rat \<Rightarrow> rat \<Rightarrow> pyfloat" where
  "span a b = round_b64 (a - b)"

definition float_max_0 :: "pyfloat \<Rightarrow> pyfloat" where
  "float_max_0 x = (if float_less (Fin 0) x then x else Fin 0)"

definition weight_of :: "'m event \<Rightarrow> pyfloat option" where
  "weight_of e = to_float (get_or (e_content e) ''pet_weight'' (get (e_content e) ''petWeight''))"

text \<open>The paired entry of a visit is passed only when it is another event than the anchor.\<close>

definition duration_of :: "'m event \<Rightarrow> 'm event option \<Rightarrow> pyfloat option" where
  "duration_of a pet_in =
     (case (to_float (get (e_content a) ''time_in''), to_float (get (e_content a) ''time_out'')) of
        (Some (Fin i), Some (Fin t)) \<Rightarrow> Some (float_max_0 (span t i))
      | _ \<Rightarrow>
          (case (some_ts (e_ts a), Option.bind pet_in (\<lambda>p. some_ts (e_ts p))) of
             (Some t, Some i) \<Rightarrow> Some (float_max_0 (span t i))
           | _ \<Rightarrow> None))"

definition positive_time :: "pydict \<Rightarrow> string \<Rightarrow> rat option" where
  "positive_time c k =
     (case to_float (get c k) of Some (Fin q) \<Rightarrow> if 0 < q then Some q else None | _ \<Rightarrow> None)"

definition started_at :: "'m event \<Rightarrow> 'm event option \<Rightarrow> rat option" where
  "started_at a pet_in =
     (case find (\<lambda>k. positive_time (e_content a) k \<noteq> None) [''time_in'', ''start_time'', ''mark''] of
        Some k \<Rightarrow> positive_time (e_content a) k
      | None \<Rightarrow> Option.bind pet_in (\<lambda>p. some_ts (e_ts p)))"

definition session_from_visit :: "'m event \<Rightarrow> 'm event option \<Rightarrow> 'm list \<Rightarrow> 'm session" where
  "session_from_visit a pet_in media =
     \<lparr>s_kind = Some ''visit'', s_id = e_id a, s_related = e_related a, s_device = e_device a,
      s_device_type = e_device_type a, s_ts = e_ts a,
      s_display_ts = (case started_at a pet_in of Some t \<Rightarrow> Some t | None \<Rightarrow> e_ts a),
      s_pet = e_pet a, s_type = e_type a, s_event_kind = Some KIND_TOILET,
      s_duration = duration_of a pet_in, s_weight = weight_of a,
      s_content = e_content a, s_state = e_state a, s_subs = [], s_media = media\<rparr>"

definition as_kind :: "string \<Rightarrow> 'm session \<Rightarrow> 'm session" where
  "as_kind k s = s\<lparr>s_kind := Some k, s_event_kind := Some k, s_duration := None, s_weight := None\<rparr>"

definition sub_line :: "'m event \<Rightarrow> 'm sub_event" where
  "sub_line e = \<lparr>se_id = e_id e, se_type = e_type e, se_ts = e_ts e, se_related = e_related e,
     se_detail = is_detail_event (e_type e) (e_device_type e),
     se_content = e_content e, se_state = e_state e, se_media = []\<rparr>"

definition add_line :: "'m session \<Rightarrow> 'm event \<Rightarrow> 'm session" where
  "add_line s e = s\<lparr>s_pet := (if s_pet s = None then e_pet e else s_pet s),
     s_subs := s_subs s @ [sub_line e]\<rparr>"

section \<open>Episodes\<close>

definition in_kinds :: "string option \<Rightarrow> string list \<Rightarrow> bool" where
  "in_kinds k ks \<longleftrightarrow> (case k of Some s \<Rightarrow> s \<in> set ks | None \<Rightarrow> False)"

definition in_codes :: "string option \<Rightarrow> string set \<Rightarrow> bool" where
  "in_codes t cs \<longleftrightarrow> (case t of Some s \<Rightarrow> s \<in> cs | None \<Rightarrow> False)"

definition anchor_events :: "'m event list \<Rightarrow> 'm event list" where
  "anchor_events es = filter (\<lambda>e.
     in_kinds (e_kind e) [KIND_TOILET, KIND_FEEDING, KIND_DRINKING] \<or>
     (in_kinds (e_kind e) [KIND_PET, KIND_MOTION, KIND_ERROR]
        \<and> \<not> is_detail_event (e_type e) (e_device_type e))) es"

text \<open>\<open>d.setdefault(k, []).append(v)\<close>, and a list grouped by a key in order of discovery.\<close>

definition dict_append :: "'k \<Rightarrow> 'v \<Rightarrow> ('k \<times> 'v list) list \<Rightarrow> ('k \<times> 'v list) list" where
  "dict_append k v d =
     (case map_of d k of Some vs \<Rightarrow> AList.update k (vs @ [v]) d | None \<Rightarrow> d @ [(k, [v])])"

definition group_by :: "('v \<Rightarrow> 'k option) \<Rightarrow> 'v list \<Rightarrow> ('k \<times> 'v list) list" where
  "group_by key vs =
     foldl (\<lambda>d v. case key v of Some k \<Rightarrow> dict_append k v d | None \<Rightarrow> d) [] vs"

definition episodes_of :: "'m event list \<Rightarrow> (string \<times> 'm event list) list \<times> 'm event list" where
  "episodes_of anchors =
     (group_by (\<lambda>e. some_text (e_related e)) anchors,
      filter (\<lambda>e. some_text (e_related e) = None \<and> e_kind e = Some KIND_TOILET) anchors)"

definition episode_parents :: "'m event list \<Rightarrow> (string \<times> string) list" where
  "episode_parents es =
     foldl (\<lambda>d e. case (some_text (e_related e), some_text (e_parent e)) of
          (Some rel, Some parent) \<Rightarrow> if rel \<noteq> parent then dict_setdefault rel parent d else d
        | _ \<Rightarrow> d) [] es"

text \<open>The first entry with a property, with what stands before and after it.\<close>

fun split_first :: "('a \<Rightarrow> bool) \<Rightarrow> 'a list \<Rightarrow> ('a list \<times> 'a \<times> 'a list) option" where
  "split_first P [] = None"
| "split_first P (x # xs) =
     (if P x then Some ([], x, xs)
      else map_option (\<lambda>(b, y, a). (x # b, y, a)) (split_first P xs))"

text \<open>
  The head of an episode's card and the other members: the first anchor code, or the last event.
\<close>

definition split_anchor :: "'m event list \<Rightarrow> 'm event list \<times> 'm event \<times> 'm event list" where
  "split_anchor grp =
     (case split_first (\<lambda>e. in_codes (e_type e) ANCHOR_CODES) grp of
        Some x \<Rightarrow> x | None \<Rightarrow> (butlast grp, last grp, []))"

definition by_time :: "'m event list \<Rightarrow> 'm event list" where
  "by_time es = sort_key (\<lambda>e. ts_or_0 (e_ts e)) es"

text \<open>The first \<open>pet_in\<close> of the episode is ignored when it is the anchor itself.\<close>

definition episode_card :: "'m event list \<Rightarrow> 'm session" where
  "episode_card members =
     (let grp = by_time members;
          (before, a, after) = split_anchor grp;
          is_in = (\<lambda>e. e_type e = Some ''pet_in'');
          pet_in = (case find is_in before of
                      Some p \<Rightarrow> Some p
                    | None \<Rightarrow> if is_in a then None else find is_in after);
          card = session_from_visit a pet_in (e_media a);
          card' = (if \<exists>e \<in> set grp. e_kind e = Some KIND_TOILET then card
                   else as_kind (case some_text (e_kind a) of Some k \<Rightarrow> k | None \<Rightarrow> KIND_PET) card)
      in foldl add_line card' (before @ after))"

section \<open>The passes\<close>

type_synonym 'm cards = "'m session list \<times> int set"

definition ids_of :: "'m event list \<Rightarrow> int set" where
  "ids_of es = set (map e_id es)"

text \<open>A card for a group of events, if there is one, uses every event of the group.\<close>

definition card_step ::
    "('m event list \<Rightarrow> 'm session option) \<Rightarrow> 'm cards \<Rightarrow> string \<times> 'm event list \<Rightarrow> 'm cards" where
  "card_step mk st ep =
     (let (ss, used) = st
      in case mk (snd ep) of
           Some s \<Rightarrow> (ss @ [s], used \<union> ids_of (snd ep))
         | None \<Rightarrow> st)"

definition cards_from_episodes :: "(string \<times> 'm event list) list \<Rightarrow> 'm cards \<Rightarrow> 'm cards" where
  "cards_from_episodes by_related st = foldl (card_step (\<lambda>grp. Some (episode_card grp))) st by_related"

definition cards_from_loose_visits :: "'m event list \<Rightarrow> 'm cards \<Rightarrow> 'm cards" where
  "cards_from_loose_visits loose st =
     foldl (\<lambda>(ss, used) e. (ss @ [session_from_visit e None (e_media e)], insert (e_id e) used)) st loose"

text \<open>
  A pass over the events hangs each unused one that has a place under the session there.
\<close>

definition attach_step ::
    "('m session list \<Rightarrow> 'm event \<Rightarrow> nat option) \<Rightarrow> 'm cards \<Rightarrow> 'm event \<Rightarrow> 'm cards" where
  "attach_step pick st e =
     (let (ss, used) = st
      in if e_id e \<in> used then st
         else case pick ss e of
                Some i \<Rightarrow> (ss[i := add_line (ss ! i) e], insert (e_id e) used)
              | None \<Rightarrow> st)"

definition attach_pass ::
    "('m session list \<Rightarrow> 'm event \<Rightarrow> nat option) \<Rightarrow> 'm event list \<Rightarrow> 'm cards \<Rightarrow> 'm cards" where
  "attach_pass pick es st = foldl (attach_step pick) st es"

definition places :: "('m session \<Rightarrow> bool) \<Rightarrow> 'm session list \<Rightarrow> nat list" where
  "places P ss = filter (\<lambda>i. P (ss ! i)) [0..<length ss]"

definition first_place :: "nat list \<Rightarrow> nat option" where
  "first_place is = (case is of [] \<Rightarrow> None | i # _ \<Rightarrow> Some i)"

text \<open>\<open>min(xs, key=f)\<close>: the first entry that no later one is below.\<close>

definition min_by :: "('a \<Rightarrow> pyfloat) \<Rightarrow> 'a list \<Rightarrow> 'a option" where
  "min_by f xs =
     (case xs of [] \<Rightarrow> None
      | y # ys \<Rightarrow> Some (fold (\<lambda>x best. if float_less (f x) (f best) then x else best) ys y))"

text \<open>
  Pass 1: the card of the episode the device named. The index \<open>sessions_by_episode\<close> holds one card
  per episode, which carries the episode's id as its own.
\<close>

definition linked_choice :: "(string \<times> string) list \<Rightarrow> 'm session list \<Rightarrow> 'm event \<Rightarrow> nat option" where
  "linked_choice parents ss e =
     (if \<not> in_kinds (e_kind e) [KIND_CLEANING, KIND_PET, KIND_MOTION, KIND_ERROR] then None
      else case (case Option.bind (e_related e) (map_of parents) of
                   Some p \<Rightarrow> Some p | None \<Rightarrow> some_text (e_parent e)) of
             None \<Rightarrow> None
           | Some parent \<Rightarrow>
               (case first_place (places (\<lambda>s. s_related s = Some parent) ss) of
                  Some i \<Rightarrow> if s_device (ss ! i) = e_device e then Some i else None
                | None \<Rightarrow> None))"

definition in_window :: "rat \<Rightarrow> pyfloat \<Rightarrow> bool" where
  "in_window w x = (case x of Fin q \<Rightarrow> 0 \<le> q \<and> q \<le> w | _ \<Rightarrow> False)"

text \<open>Pass 2: the nearest visit of the same device in the ten minutes before a cleaning.\<close>

definition nearby_choice :: "'m session list \<Rightarrow> 'm event \<Rightarrow> nat option" where
  "nearby_choice ss e =
     (case e_ts e of
        None \<Rightarrow> None
      | Some t \<Rightarrow>
          if e_kind e \<noteq> Some KIND_CLEANING then None
          else min_by (\<lambda>i. span t (ts_or_0 (s_ts (ss ! i))))
                 (places (\<lambda>s. s_kind s = Some ''visit'' \<and> s_device s = e_device e \<and> s_ts s \<noteq> None
                    \<and> in_window sub_event_window (span t (ts_or_0 (s_ts s)))) ss))"

fun float_abs :: "pyfloat \<Rightarrow> pyfloat" where
  "float_abs (Fin q) = Fin \<bar>q\<bar>"
| "float_abs NaN = NaN"
| "float_abs _ = PosInf"

text \<open>Pass 3: the nearest cleaning card of the same device within two minutes, not the event's own.\<close>

definition tail_choice :: "'m session list \<Rightarrow> 'm event \<Rightarrow> nat option" where
  "tail_choice ss e =
     (case e_ts e of
        None \<Rightarrow> None
      | Some t \<Rightarrow>
          if e_kind e \<noteq> Some KIND_CLEANING then None
          else min_by (\<lambda>i. float_abs (span t (ts_or_0 (s_ts (ss ! i)))))
                 (places (\<lambda>s. s_kind s = Some KIND_CLEANING \<and> s_ts s \<noteq> None \<and> s_device s = e_device e
                    \<and> s_related s \<noteq> e_related e
                    \<and> in_window cycle_tail_window (float_abs (span t (ts_or_0 (s_ts s))))) ss))"

definition orphan_episodes :: "'m event list \<Rightarrow> int set \<Rightarrow> (string \<times> 'm event list) list" where
  "orphan_episodes es used =
     group_by (\<lambda>e. if e_id e \<notin> used \<and> e_kind e = Some KIND_CLEANING then some_text (e_related e) else None) es"

definition orphan_card :: "'m event list \<Rightarrow> 'm session option" where
  "orphan_card members =
     (case split_first (\<lambda>e. in_codes (e_type e) PRIMARY_DONE_CODES) (by_time members) of
        None \<Rightarrow> None
      | Some (before, a, after) \<Rightarrow>
          Some (foldl add_line (as_kind KIND_CLEANING (session_from_visit a None (e_media a))) (before @ after)))"

definition cards_from_orphan_cleanings :: "'m event list \<Rightarrow> 'm cards \<Rightarrow> 'm cards" where
  "cards_from_orphan_cleanings es st = foldl (card_step orphan_card) st (orphan_episodes es (snd st))"

section \<open>Media, standalone rows and the whole\<close>

definition add_once :: "'a list \<Rightarrow> 'a \<Rightarrow> 'a list" where
  "add_once xs x = (if x \<in> set xs then xs else xs @ [x])"

definition episode_media :: "'m event list \<Rightarrow> string \<Rightarrow> 'm list" where
  "episode_media es rel =
     foldl add_once [] (concat (map e_media (filter (\<lambda>e. e_related e = Some rel) es)))"

definition carrier :: "'m sub_event list \<Rightarrow> nat list \<Rightarrow> nat" where
  "carrier subs is =
     (case find (\<lambda>i. in_codes (se_type (subs ! i)) PRIMARY_DONE_CODES) is of
        Some i \<Rightarrow> i | None \<Rightarrow> last is)"

text \<open>Media of a sub-episode go to one of its lines, the episode's lines being named by position.\<close>

definition sub_episodes :: "string option \<Rightarrow> 'm sub_event list \<Rightarrow> (string \<times> nat list) list" where
  "sub_episodes own subs =
     group_by (\<lambda>i. if se_related (subs ! i) = own then None else some_text (se_related (subs ! i)))
       [0..<length subs]"

definition assign_episode_media :: "'m event list \<Rightarrow> 'm session \<Rightarrow> 'm session" where
  "assign_episode_media es s =
     s\<lparr>s_subs :=
        foldl (\<lambda>subs (rel, is).
            let media = episode_media es rel
            in if media = [] then subs
               else subs[carrier subs is := (subs ! carrier subs is)\<lparr>se_media := media\<rparr>])
          (s_subs s) (sub_episodes (s_related s) (s_subs s))\<rparr>"

definition sort_lines :: "'m session \<Rightarrow> 'm session" where
  "sort_lines s = s\<lparr>s_subs := sort_key (\<lambda>l. ts_or_0 (se_ts l)) (s_subs s)\<rparr>"

definition standalone_row :: "'m event \<Rightarrow> 'm session" where
  "standalone_row e =
     \<lparr>s_kind = Some ''event'', s_id = e_id e, s_related = e_related e, s_device = e_device e,
      s_device_type = e_device_type e, s_ts = e_ts e, s_display_ts = e_ts e, s_pet = e_pet e,
      s_type = e_type e, s_event_kind = e_kind e, s_duration = None, s_weight = None,
      s_content = e_content e, s_state = e_state e, s_subs = [], s_media = e_media e\<rparr>"

definition standalone_rows :: "'m event list \<Rightarrow> int set \<Rightarrow> 'm session list" where
  "standalone_rows es used = map standalone_row (filter (\<lambda>e. e_id e \<notin> used) es)"

definition claimed_cards :: "'m event list \<Rightarrow> 'm cards" where
  "claimed_cards es =
     (let (by_related, loose) = episodes_of (anchor_events es);
          st1 = cards_from_loose_visits loose (cards_from_episodes by_related ([], {}));
          st2 = attach_pass nearby_choice es (attach_pass (linked_choice (episode_parents es)) es st1)
      in attach_pass tail_choice es (cards_from_orphan_cleanings es st2))"

definition group_events :: "'m event list \<Rightarrow> 'm session list" where
  "group_events es =
     (let (ss, used) = claimed_cards es
      in sort_key (\<lambda>s. - ts_or_0 (s_ts s))
           (map (\<lambda>s. assign_episode_media es (sort_lines s)) ss @ standalone_rows es used))"

definition group_sessions :: "'m stored_row list \<Rightarrow> json_error + 'm session list" where
  "group_sessions rows = ebind (decode_rows rows) (\<lambda>es. Inr (group_events es))"

section \<open>Filter chips\<close>

definition kind_bucket :: "string option \<Rightarrow> string list" where
  "kind_bucket kd =
     (case kd of
        None \<Rightarrow> []
      | Some k \<Rightarrow>
          if k = KIND_TOILET then [''toileting'']
          else if k = KIND_PET \<or> k = KIND_MOTION then [''pet'']
          else if k = KIND_ERROR then [''fault'']
          else if k = KIND_FEEDING then [''feeding'']
          else if k = KIND_DRINKING then [''drinking'']
          else if k = KIND_CLEANING then [''cleaning''] else [])"

definition health_bucket :: "pydict \<Rightarrow> string list" where
  "health_bucket c =
     (case to_int (get c ''petVoice'') of
        Some n \<Rightarrow> if n \<noteq> 0 then [''health_alert''] else []
      | None \<Rightarrow> [])"

definition filter_buckets :: "'m session \<Rightarrow> string list" where
  "filter_buckets s = kind_bucket (s_event_kind s) @ health_bucket (s_content s)"

definition no_counts :: "nat \<Rightarrow> (string \<times> nat) list" where
  "no_counts n = [(''all'', n), (''pet'', 0), (''toileting'', 0), (''drinking'', 0), (''feeding'', 0),
     (''cleaning'', 0), (''health_alert'', 0), (''fault'', 0)]"

definition filter_counts :: "'m session list \<Rightarrow> (string \<times> nat) list" where
  "filter_counts ss =
     foldl (\<lambda>counts s. foldl (\<lambda>d b. AList.update b (the (map_of d b) + 1) d) counts (filter_buckets s))
       (no_counts (length ss)) ss"

definition matches_filter :: "'m session \<Rightarrow> string \<Rightarrow> bool" where
  "matches_filter s filt \<longleftrightarrow> filt = [] \<or> filt = ''all'' \<or> filt \<in> set (filter_buckets s)"

end
