(* ===== verification/Timeline.thy ===== *)
theory Timeline
  imports Sessions
begin

text \<open>
  What the grouping of \<open>Sessions\<close> promises: no event is lost and none is shown twice, the cards and
  their lines come in time order, media of a folded episode are shown once, and the chip numbers
  are the numbers of cards behind the chips.
\<close>

section \<open>Grouping by a key\<close>

lemma dict_append_map:
  "map_of (dict_append k v d) = (map_of d)(k \<mapsto> (case map_of d k of Some vs \<Rightarrow> vs @ [v] | None \<Rightarrow> [v]))"
  by (auto simp: dict_append_def lookup_update map_add_def fun_eq_iff split: option.splits)

lemma dict_append_distinct: "keys_distinct d \<Longrightarrow> keys_distinct (dict_append k v d)"
  by (auto simp: dict_append_def map_of_eq_None_iff split: option.splits simp del: keys_update)

lemma group_by_snoc: "group_by key (vs @ [v]) =
  (case key v of Some k \<Rightarrow> dict_append k v (group_by key vs) | None \<Rightarrow> group_by key vs)"
  by (simp add: group_by_def split: option.splits)

lemma group_by_Nil [simp]: "group_by key [] = []"
  by (simp add: group_by_def)

lemma group_by_distinct: "keys_distinct (group_by key vs)"
  by (induction vs rule: rev_induct) (auto simp: group_by_snoc dict_append_distinct split: option.splits)

lemma group_by_lookup:
  "map_of (group_by key vs) k =
    (if \<exists>v \<in> set vs. key v = Some k then Some (filter (\<lambda>v. key v = Some k) vs) else None)"
  by (induction vs rule: rev_induct) (auto simp: group_by_snoc dict_append_map split: option.splits)

lemma group_by_mem: "(k, g) \<in> set (group_by key vs) \<Longrightarrow>
    g = filter (\<lambda>v. key v = Some k) vs \<and> g \<noteq> []"
proof -
  assume "(k, g) \<in> set (group_by key vs)"
  then have "map_of (group_by key vs) k = Some g" using group_by_distinct by (metis map_of_is_SomeI)
  then show ?thesis by (auto simp: group_by_lookup filter_empty_conv split: if_splits)
qed

lemma update_concat: "map_of d k = Some vs \<Longrightarrow> keys_distinct d \<Longrightarrow>
    mset (concat (map snd (AList.update k (vs @ [v]) d))) = add_mset v (mset (concat (map snd d)))"
  by (induction d) (auto split: if_splits)

lemma group_by_mset: "mset (concat (map snd (group_by key vs))) = mset (filter (\<lambda>v. key v \<noteq> None) vs)"
proof (induction vs rule: rev_induct)
  case (snoc v vs)
  then show ?case
    using update_concat [of "group_by key vs" _ _ v] group_by_distinct [of key vs]
    by (auto simp: group_by_snoc dict_append_def split: option.splits)
qed simp

section \<open>Lines\<close>

lemma add_lines [simp]:
  "s_id (foldl add_line s es) = s_id s" "s_subs (foldl add_line s es) = s_subs s @ map sub_line es"
  "s_kind (foldl add_line s es) = s_kind s" "s_ts (foldl add_line s es) = s_ts s"
  "s_device (foldl add_line s es) = s_device s" "s_related (foldl add_line s es) = s_related s"
  by (induction es arbitrary: s) (simp_all add: add_line_def)

lemma add_line_simps [simp]: "s_id (add_line s e) = s_id s" "s_subs (add_line s e) = s_subs s @ [sub_line e]"
  "se_id (sub_line e) = e_id e"
  by (simp_all add: add_line_def sub_line_def)

lemma sub_line_ids [simp]: "se_id \<circ> sub_line = (\<lambda>e. e_id e)"
  by (simp add: fun_eq_iff)

lemma session_simps [simp]: "s_id (session_from_visit a p m) = e_id a" "s_subs (session_from_visit a p m) = []"
  "s_id (as_kind k s) = s_id s" "s_subs (as_kind k s) = s_subs s"
  "s_id (standalone_row e) = e_id e" "s_subs (standalone_row e) = []"
  by (simp_all add: session_from_visit_def as_kind_def standalone_row_def)

lemma split_first_parts: "split_first P xs = Some (b, x, a) \<Longrightarrow> xs = b @ x # a \<and> P x"
  by (induction xs arbitrary: b) (auto split: if_splits)

lemma split_anchor_parts: "grp \<noteq> [] \<Longrightarrow> split_anchor grp = (b, x, a) \<Longrightarrow> grp = b @ x # a"
  by (auto simp: split_anchor_def split: option.splits dest: split_first_parts)

definition card_ids :: "'m session \<Rightarrow> int list" where
  "card_ids s = s_id s # map se_id (s_subs s)"

definition all_ids :: "'m session list \<Rightarrow> int list" where
  "all_ids ss = concat (map card_ids ss)"

lemma all_ids_append [simp]: "all_ids (ss @ ts) = all_ids ss @ all_ids ts" "all_ids [] = []"
  "all_ids [s] = card_ids s"
  by (simp_all add: all_ids_def)

lemma episode_card_ids: "members \<noteq> [] \<Longrightarrow> mset (card_ids (episode_card members)) = mset (map e_id members)"
proof -
  assume m: "members \<noteq> []"
  obtain b a c where p: "split_anchor (by_time members) = (b, a, c)" by (cases "split_anchor (by_time members)")
  have "by_time members \<noteq> []" using m by (metis by_time_def mset_sort mset_zero_iff)
  then have "by_time members = b @ a # c" using p by (rule split_anchor_parts)
  then have "mset (map e_id members) = mset (map e_id (b @ a # c))"
    by (metis by_time_def mset_map mset_sort)
  then show ?thesis by (simp add: episode_card_def p Let_def card_ids_def)
qed

section \<open>The passes\<close>

text \<open>
  The ids of the cards and lines are exactly the used ones, each once, and all come from the events.
\<close>

definition cards_ok :: "int set \<Rightarrow> 'm cards \<Rightarrow> bool" where
  "cards_ok E st \<longleftrightarrow> mset (all_ids (fst st)) = mset_set (snd st) \<and> finite (snd st) \<and> snd st \<subseteq> E"

lemma mset_set_distinct: "distinct xs \<Longrightarrow> set xs \<inter> A = {} \<Longrightarrow> finite A \<Longrightarrow>
    mset_set (A \<union> set xs) = mset_set A + mset xs"
  by (simp add: mset_set_Union Int_commute mset_set_set)

lemma add_card_ok:
  assumes ok: "cards_ok E (ss, used)" and new: "mset (card_ids s) = mset (map e_id es)"
    and d: "distinct (map e_id es)" and fresh: "ids_of es \<inter> used = {}" and sub: "ids_of es \<subseteq> E"
  shows "cards_ok E (ss @ [s], used \<union> ids_of es)"
  using assms mset_set_distinct [OF d, of used]
  by (auto simp: cards_ok_def ids_of_def simp del: set_map)

lemma all_ids_update: "i < length ss \<Longrightarrow>
    mset (all_ids (ss[i := add_line (ss ! i) e])) = add_mset (e_id e) (mset (all_ids ss))"
proof (induction ss arbitrary: i)
  case (Cons s ss)
  then show ?case
    by (cases i) (simp_all add: all_ids_def card_ids_def)
qed simp

locale placing =
  fixes pick :: "'m session list \<Rightarrow> 'm event \<Rightarrow> nat option"
  assumes in_bounds: "pick ss e = Some i \<Longrightarrow> i < length ss"
begin

lemma step_ok: "cards_ok E st \<Longrightarrow> e_id e \<in> E \<Longrightarrow> cards_ok E (attach_step pick st e)"
  by (cases st) (auto simp: attach_step_def cards_ok_def all_ids_update dest: in_bounds split: option.splits)

lemma pass_ok: "cards_ok E st \<Longrightarrow> ids_of es \<subseteq> E \<Longrightarrow> cards_ok E (attach_pass pick es st)"
  unfolding attach_pass_def
  by (induction es arbitrary: st) (simp_all add: ids_of_def step_ok)

lemma step_length: "length (fst (attach_step pick st e)) = length (fst st)"
  by (cases st) (auto simp: attach_step_def split: option.splits)

lemma pass_length: "length (fst (attach_pass pick es st)) = length (fst st)"
  unfolding attach_pass_def by (induction es arbitrary: st) (simp_all add: step_length)

end

lemma first_place_bound: "first_place (places P ss) = Some i \<Longrightarrow> i < length ss \<and> P (ss ! i)"
proof -
  assume "first_place (places P ss) = Some i"
  then have "i \<in> set (places P ss)" by (cases "places P ss") (auto simp: first_place_def)
  then show ?thesis by (simp add: places_def)
qed

lemma min_fold_mem: "fold (\<lambda>x best. if float_less (f x) (f best) then x else best) ys y \<in> set (y # ys)"
  by (induction ys arbitrary: y) (auto split: if_splits)

lemma min_by_mem: "min_by f xs = Some x \<Longrightarrow> x \<in> set xs"
  using min_fold_mem [of f] by (auto simp: min_by_def split: list.splits) 

interpretation linked: placing "linked_choice parents" for parents
  by unfold_locales (auto simp: linked_choice_def dest: first_place_bound split: if_splits option.splits)

interpretation nearby: placing nearby_choice
  by unfold_locales (auto simp: nearby_choice_def places_def dest!: min_by_mem split: if_splits option.splits)

interpretation tail: placing tail_choice
  by unfold_locales (auto simp: tail_choice_def places_def dest!: min_by_mem split: if_splits option.splits)

locale carding =
  fixes mk :: "'m event list \<Rightarrow> 'm session option"
  assumes same_ids: "mk g = Some s \<Longrightarrow> g \<noteq> [] \<Longrightarrow> mset (card_ids s) = mset (map e_id g)"
begin

lemma cards_ok:
  assumes "cards_ok E st" "distinct (map e_id (concat (map snd gs)))"
    and "ids_of (concat (map snd gs)) \<inter> snd st = {}" "ids_of (concat (map snd gs)) \<subseteq> E"
    and "\<forall>g \<in> set gs. snd g \<noteq> []"
  shows "cards_ok E (foldl (card_step mk) st gs) \<and>
    snd (foldl (card_step mk) st gs) \<subseteq> snd st \<union> ids_of (concat (map snd gs))"
  using assms
proof (induction gs arbitrary: st)
  case (Cons g gs)
  obtain ss used where st: "st = (ss, used)" by (cases st)
  let ?st = "card_step mk st g"
  have "cards_ok E ?st \<and> snd ?st \<subseteq> used \<union> ids_of (snd g)"
  proof (cases "mk (snd g)")
    case None
    then show ?thesis using Cons.prems(1) by (simp add: card_step_def st)
  next
    case (Some s)
    have "cards_ok E (ss @ [s], used \<union> ids_of (snd g))"
      using Cons.prems same_ids [OF Some] by (intro add_card_ok) (auto simp: st ids_of_def)
    then show ?thesis by (simp add: card_step_def st Some)
  qed
  note step = this
  let ?rest = "ids_of (concat (map snd gs))"
  have apart: "?rest \<inter> used = {}" "?rest \<inter> ids_of (snd g) = {}"
    using Cons.prems(2,3) unfolding ids_of_def st by (simp_all add: Int_commute Int_Un_distrib)
  then have "?rest \<inter> snd ?st = {}" using step by blast
  then have "cards_ok E (foldl (card_step mk) ?st gs) \<and>
      snd (foldl (card_step mk) ?st gs) \<subseteq> snd ?st \<union> ?rest"
    using Cons.prems step by (intro Cons.IH) (auto simp: ids_of_def)
  with step show ?case by (auto simp: st ids_of_def)
qed simp

end

interpretation episodes: carding "\<lambda>g. Some (episode_card g)"
  by unfold_locales (auto simp: episode_card_ids)

interpretation orphans: carding orphan_card
proof unfold_locales
  fix g :: "'m event list" and s
  assume "orphan_card g = Some s"
  then obtain b a c where p: "split_first (\<lambda>e. in_codes (e_type e) PRIMARY_DONE_CODES) (by_time g) = Some (b, a, c)"
    and s: "s = foldl add_line (as_kind KIND_CLEANING (session_from_visit a None (e_media a))) (b @ c)"
    by (auto simp: orphan_card_def split: option.splits)
  have "by_time g = b @ a # c" using split_first_parts [OF p] by simp
  then have "mset (map e_id g) = mset (map e_id (b @ a # c))" by (metis by_time_def mset_map mset_sort)
  then show "mset (card_ids s) = mset (map e_id g)" by (simp add: s card_ids_def)
qed

section \<open>Every event once\<close>

lemma loose_ok:
  assumes "cards_ok E st" "distinct (map e_id es)" "ids_of es \<inter> snd st = {}" "ids_of es \<subseteq> E"
  shows "cards_ok E (cards_from_loose_visits es st)"
  using assms
proof (induction es arbitrary: st)
  case (Cons e es)
  obtain ss used where st: "st = (ss, used)" by (cases st)
  have "cards_ok E (ss @ [session_from_visit e None (e_media e)], used \<union> ids_of [e])"
    using Cons.prems by (intro add_card_ok) (auto simp: st ids_of_def card_ids_def)
  then have "cards_ok E (cards_from_loose_visits es (ss @ [session_from_visit e None (e_media e)], insert (e_id e) used))"
    using Cons.prems by (intro Cons.IH) (auto simp: st ids_of_def)
  then show ?case by (simp add: cards_from_loose_visits_def st)
qed (simp add: cards_from_loose_visits_def)

lemma ids_apart:
  assumes "distinct (map e_id es)" "\<And>e. P e \<Longrightarrow> \<not> Q e"
  shows "ids_of (filter P es) \<inter> ids_of (filter Q es) = {}"
proof -
  have "inj_on e_id (set es)" using assms(1) by (simp add: distinct_map)
  then have "ids_of (filter P es) \<inter> ids_of (filter Q es) = e_id ` ({e \<in> set es. P e} \<inter> {e \<in> set es. Q e})"
    unfolding ids_of_def by (simp add: inj_on_image_Int [where C = "set es"] Collect_mono_iff subset_iff)
  also have "\<dots> = {}" using assms(2) by auto
  finally show ?thesis .
qed

lemma claimed_ok:
  assumes d: "distinct (map e_id es)"
  shows "cards_ok (ids_of es) (claimed_cards es)"
proof -
  let ?E = "ids_of es"
  let ?a = "anchor_events es"
  let ?g = "group_by (\<lambda>e. some_text (e_related e)) ?a"
  let ?l = "filter (\<lambda>e. some_text (e_related e) = None \<and> e_kind e = Some KIND_TOILET) ?a"
  have part: "distinct (map e_id (concat (map snd (group_by key xs))))"
    "ids_of (concat (map snd (group_by key xs))) = ids_of (filter (\<lambda>e. key e \<noteq> None) xs)"
    if "distinct (map e_id xs)" for key :: "'a event \<Rightarrow> string option" and xs
  proof -
    have m: "mset (map e_id (concat (map snd (group_by key xs)))) = mset (map e_id (filter (\<lambda>e. key e \<noteq> None) xs))"
      by (metis group_by_mset mset_map)
    show "distinct (map e_id (concat (map snd (group_by key xs))))"
      using mset_eq_imp_distinct_iff [OF m] that by (simp add: distinct_map_filter)
    show "ids_of (concat (map snd (group_by key xs))) = ids_of (filter (\<lambda>e. key e \<noteq> None) xs)"
      unfolding ids_of_def by (rule mset_eq_setD [OF m])
  qed
  have full: "snd g \<noteq> []" if "g \<in> set (group_by key xs)" for g and key :: "'a event \<Rightarrow> string option" and xs
    using that group_by_mem [of "fst g" "snd g" key xs] unfolding prod.collapse by blast
  have da: "distinct (map e_id ?a)" using d by (simp add: anchor_events_def distinct_map_filter)
  have sub: "ids_of ?a \<subseteq> ?E" by (auto simp: anchor_events_def ids_of_def)
  let ?s0 = "cards_from_episodes ?g ([], {})"
  have "cards_ok ?E ?s0 \<and> snd ?s0 \<subseteq> snd ([] :: 'a session list, {} :: int set) \<union> ids_of (concat (map snd ?g))"
    unfolding cards_from_episodes_def
  proof (rule episodes.cards_ok)
    show "ids_of (concat (map snd ?g)) \<subseteq> ?E"
      unfolding part(2) [OF da] by (auto simp: anchor_events_def ids_of_def)
  qed (use part(1) [OF da] full in \<open>auto simp: cards_ok_def\<close>)
  then have s0: "cards_ok ?E ?s0 \<and> snd ?s0 \<subseteq> ids_of (concat (map snd ?g))" by simp
  let ?s1 = "cards_from_loose_visits ?l ?s0"
  have s1: "cards_ok ?E ?s1"
  proof (rule loose_ok)
    have "ids_of ?l \<inter> ids_of (filter (\<lambda>e. some_text (e_related e) \<noteq> None) ?a) = {}"
      by (rule ids_apart [OF da]) simp
    then show "ids_of ?l \<inter> snd ?s0 = {}" using s0 unfolding part(2) [OF da] by blast
  qed (use s0 da sub in \<open>auto simp: distinct_map_filter ids_of_def\<close>)
  define st where "st = attach_pass nearby_choice es (attach_pass (linked_choice (episode_parents es)) es ?s1)"
  have st: "cards_ok ?E st"
    unfolding st_def by (intro nearby.pass_ok linked.pass_ok s1 order_refl)
  have "cards_ok ?E (cards_from_orphan_cleanings es st)"
    unfolding cards_from_orphan_cleanings_def orphan_episodes_def
  proof (intro orphans.cards_ok [THEN conjunct1] st)
    let ?o = "group_by (\<lambda>e. if e_id e \<notin> snd st \<and> e_kind e = Some KIND_CLEANING then some_text (e_related e) else None) es"
    show "ids_of (concat (map snd ?o)) \<inter> snd st = {}" "ids_of (concat (map snd ?o)) \<subseteq> ?E"
      unfolding part(2) [OF d] by (auto simp: ids_of_def split: if_splits)
  qed (use part(1) [OF d] full in auto)
  then have "cards_ok ?E (attach_pass tail_choice es (cards_from_orphan_cleanings es st))"
    by (intro tail.pass_ok order_refl)
  then show ?thesis by (simp add: claimed_cards_def episodes_of_def st_def)
qed

section \<open>Finishing a card\<close>

lemma map_keep_update: "f y = f (xs ! i) \<Longrightarrow> map f (xs[i := y]) = map f xs"
  by (cases "i < length xs") (simp_all add: map_update list_update_same_conv list_update_beyond)

lemma assign_lines: 
  assumes "\<And>l m. f (l\<lparr>se_media := m\<rparr>) = f l"
  shows "map f (s_subs (assign_episode_media es s)) = map f (s_subs s)"
proof -
  have "map f (foldl (\<lambda>subs (rel, is). let media = episode_media es rel
      in if media = [] then subs else subs[carrier subs is := (subs ! carrier subs is)\<lparr>se_media := media\<rparr>]) xs gs)
    = map f xs" for xs gs
    by (induction gs arbitrary: xs) (auto simp: Let_def map_keep_update assms)
  then show ?thesis by (simp add: assign_episode_media_def)
qed

abbreviation finish :: "'m event list \<Rightarrow> 'm session \<Rightarrow> 'm session" where
  "finish es s \<equiv> assign_episode_media es (sort_lines s)"

lemma finish_simps [simp]: "s_id (finish es s) = s_id s" "s_ts (finish es s) = s_ts s"
  "s_event_kind (finish es s) = s_event_kind s" "s_content (finish es s) = s_content s"
  by (simp_all add: assign_episode_media_def sort_lines_def)

lemma finish_ids: "mset (card_ids (finish es s)) = mset (card_ids s)"
  by (simp add: card_ids_def assign_lines) (simp add: sort_lines_def)

lemma finish_all_ids: "mset (all_ids (map (finish es) ss)) = mset (all_ids ss)"
  by (induction ss) (simp_all add: all_ids_def finish_ids)

lemma sort_all_ids: "mset (all_ids (sort_key f ss)) = mset (all_ids ss)"
proof -
  have "mset (all_ids ss) = sum_mset (image_mset (\<lambda>s. mset (card_ids s)) (mset ss))" for ss :: "'a session list"
    by (induction ss) (simp_all add: all_ids_def)
  then show ?thesis by (simp only: mset_sort)
qed

lemma standalone_ids: "all_ids (standalone_rows es used) = map e_id (filter (\<lambda>e. e_id e \<notin> used) es)"
  unfolding standalone_rows_def by (induction es) (simp_all add: all_ids_def card_ids_def)

lemma group_events_ids:
  assumes d: "distinct (map e_id es)"
  shows "mset (all_ids (group_events es)) = mset (map e_id es)"
proof -
  obtain ss used where c: "claimed_cards es = (ss, used)" by (cases "claimed_cards es")
  have ok: "mset (all_ids ss) = mset_set used" "used \<subseteq> ids_of es"
    using claimed_ok [OF d] by (simp_all add: c cards_ok_def)
  have "mset (map e_id es) = mset (map e_id (filter (\<lambda>e. e_id e \<in> used) es)) + mset (map e_id (filter (\<lambda>e. e_id e \<notin> used) es))"
    by (induction es) auto
  moreover have "mset (map e_id (filter (\<lambda>e. e_id e \<in> used) es)) = mset_set (set (map e_id (filter (\<lambda>e. e_id e \<in> used) es)))"
    using d by (intro mset_set_set [symmetric]) (simp add: distinct_map_filter)
  moreover have "set (map e_id (filter (\<lambda>e. e_id e \<in> used) es)) = used"
    using ok(2) by (auto simp: ids_of_def)
  ultimately have "mset (map e_id es) = mset_set used + mset (all_ids (standalone_rows es used))"
    by (simp add: standalone_ids)
  moreover have "mset (all_ids (map (finish es) ss @ standalone_rows es used)) =
      mset (all_ids ss) + mset (all_ids (standalone_rows es used))"
    by (simp add: finish_all_ids)
  ultimately show ?thesis by (simp add: group_events_def c sort_all_ids ok(1))
qed

lemma decode_rows_rows: "decode_rows rs = Inr es \<Longrightarrow> map e_row es = rs"
  by (induction rs arbitrary: es) (auto simp: ebind_Inr_iff decode_row_def)

section \<open>Chips\<close>

definition chips :: "string list" where
  "chips = [''all'', ''pet'', ''toileting'', ''drinking'', ''feeding'', ''cleaning'', ''health_alert'', ''fault'']"

lemma no_counts_keys: "map fst (no_counts n) = chips"
  by (simp add: no_counts_def chips_def)

definition bump :: "(string \<times> nat) list \<Rightarrow> string \<Rightarrow> (string \<times> nat) list" where
  "bump d b = AList.update b (the (map_of d b) + 1) d"

lemma bump_keys: "map fst d = chips \<Longrightarrow> set bs \<subseteq> set chips \<Longrightarrow> map fst (foldl bump d bs) = chips"
  by (induction bs arbitrary: d) (auto simp: bump_def)

lemma bump_lookup:
  "map fst d = chips \<Longrightarrow> set bs \<subseteq> set chips \<Longrightarrow> distinct bs \<Longrightarrow> k \<in> set chips \<Longrightarrow>
    the (map_of (foldl bump d bs) k) = the (map_of d k) + (if k \<in> set bs then 1 else 0)"
proof (induction bs arbitrary: d)
  case (Cons b bs)
  have "map fst (bump d b) = chips" using Cons.prems bump_keys [of d "[b]"] by simp
  with Cons.IH [OF this] Cons.prems show ?case by (auto simp: bump_def lookup_update)
qed simp

lemma kind_bucket_cases: "kind_bucket k \<in> {[], [''toileting''], [''pet''], [''fault''], [''feeding''],
     [''drinking''], [''cleaning'']}"
  by (auto simp: kind_bucket_def split: option.splits)

lemma health_bucket_cases: "health_bucket c \<in> {[], [''health_alert'']}"
  by (auto simp: health_bucket_def split: option.splits)

lemma buckets_chips: "set (filter_buckets s) \<subseteq> set chips" "distinct (filter_buckets s)"
    "''all'' \<notin> set (filter_buckets s)"
  using kind_bucket_cases [of "s_event_kind s"] health_bucket_cases [of "s_content s"]
  by (auto simp: filter_buckets_def chips_def)

definition count_all :: "'m session list \<Rightarrow> (string \<times> nat) list \<Rightarrow> (string \<times> nat) list" where
  "count_all ss d = foldl (\<lambda>counts s. foldl bump counts (filter_buckets s)) d ss"

lemma count_all_keys: "map fst d = chips \<Longrightarrow> map fst (count_all ss d) = chips"
  unfolding count_all_def
  by (induction ss arbitrary: d) (simp_all add: bump_keys buckets_chips del: set_map)

lemma count_all_lookup: "map fst d = chips \<Longrightarrow> k \<in> set chips \<Longrightarrow>
    the (map_of (count_all ss d) k) = the (map_of d k) + length (filter (\<lambda>s. k \<in> set (filter_buckets s)) ss)"
proof (induction ss arbitrary: d)
  case (Cons s ss)
  let ?d = "foldl bump d (filter_buckets s)"
  have "map fst ?d = chips" using Cons.prems(1) buckets_chips(1) by (rule bump_keys)
  moreover have "the (map_of ?d k) = the (map_of d k) + (if k \<in> set (filter_buckets s) then 1 else 0)"
    using Cons.prems buckets_chips by (intro bump_lookup)
  moreover have "count_all (s # ss) d = count_all ss ?d" by (simp add: count_all_def)
  ultimately show ?case using Cons.IH [of ?d] Cons.prems(2) by simp
qed (simp add: count_all_def)

lemma filter_counts_count: "filter_counts ss = count_all ss (no_counts (length ss))"
  by (simp add: filter_counts_def count_all_def bump_def [abs_def])

lemma filter_counts_keys: "map fst (filter_counts ss) = chips"
  unfolding filter_counts_count by (rule count_all_keys) (rule no_counts_keys)

lemma filter_counts_lookup:
  assumes "k \<in> set chips"
  shows "the (map_of (filter_counts ss) k) = length (filter (\<lambda>s. matches_filter s k) ss)"
proof -
  have "the (map_of (filter_counts ss) k) =
      the (map_of (no_counts (length ss)) k) + length (filter (\<lambda>s. k \<in> set (filter_buckets s)) ss)"
    unfolding filter_counts_count by (rule count_all_lookup) (rule no_counts_keys, rule assms)
  moreover have "the (map_of (no_counts n) k) = (if k = ''all'' then n else 0)" for n
    using assms by (auto simp: no_counts_def chips_def)
  moreover have "k \<noteq> []" using assms by (auto simp: chips_def)
  ultimately show ?thesis using buckets_chips(3) by (auto simp: matches_filter_def filter_empty_conv)
qed

section \<open>Sample rows\<close>

definition sample_row :: "int \<Rightarrow> rat \<Rightarrow> string \<Rightarrow> string \<Rightarrow> string option \<Rightarrow> string option \<Rightarrow> string \<Rightarrow> int option \<Rightarrow> int stored_row" where
  "sample_row i t rel et par pj dt pet =
     \<lparr>ev_uid = Some (rel @ '':'' @ et), ev_related = Some rel, ev_parent = par, ev_device = 7,
      ev_device_type = Some dt, ev_type = Some et,
      ev_kind = Some (classify_event_kind (Some et) [] (Some dt)), ev_ts = Some t, ev_source = ''http'',
      ev_pet_ref = None, ev_score = None, ev_content_json = pj, ev_state_json = None,
      sr_id = i, sr_pet = pet, sr_media = []\<rparr>"

text \<open>A visit with its weight sample, and the cleaning that followed it.\<close>

definition sample_rows :: "int stored_row list" where
  "sample_rows =
     [sample_row 1 100 ''e1'' ''9'' None None ''t5'' None, sample_row 2 110 ''e1'' ''10'' None None ''t5'' (Some 4),
      sample_row 3 180 ''e2'' ''5'' (Some ''e1'') None ''t5'' None]"

definition sample_event :: "int stored_row \<Rightarrow> int event" where
  "sample_event r = \<lparr>e_row = r, e_content = [], e_state = []\<rparr>"

lemma sample_decodes: "group_sessions sample_rows = Inr (group_events (map sample_event sample_rows))"
  by (simp add: group_sessions_def sample_rows_def decode_row_def content_of_row_def state_of_row_def
      text_value_def sample_row_def sample_event_def)

text \<open>
  A feeder's meal over HTTP: code 4 is an anchor for a feeder, but \<open>ANCHOR_CODES\<close> holds the litter
  meaning of 4, so the card is headed by whichever report came last.
\<close>

lemma feeder_meal_headed_by_last:
  "anchor (the (lookup (Some ''4'') (Some ''d4sh''))) \<and> detail (the (lookup (Some ''3'') (Some ''d4sh''))) \<and>
   map s_type (group_events (map sample_event
     [sample_row 1 100 ''m'' ''4'' None None ''d4sh'' None, sample_row 2 101 ''m'' ''3'' None None ''d4sh'' None]))
   = [Some ''3'']"
  by code_simp

section \<open>Properties\<close>

text \<open>
  C12: the timeline is a partition of the stored events: each event is a card or a line under one card,
  exactly once.
\<close>

theorem every_event_once:
  assumes "distinct (map sr_id rows)" and "group_sessions rows = Inr ss"
  shows "mset (all_ids ss) = mset (map sr_id rows)"
proof -
  obtain es where es: "decode_rows rows = Inr es" "ss = group_events es"
    using assms(2) by (auto simp: group_sessions_def ebind_Inr_iff)
  have ids: "map sr_id rows = map e_id es"
    using decode_rows_rows [OF es(1)] by (auto simp: comp_def)
  then show ?thesis using group_events_ids [of es] assms(1) es(2) by simp
qed

lemma every_event_once_witness:
  "\<exists>ss. group_sessions sample_rows = Inr ss \<and> mset (all_ids ss) = {#1, 2, 3#}"
proof -
  have "distinct (map sr_id sample_rows)" by (simp add: sample_rows_def sample_row_def)
  from every_event_once [OF this sample_decodes]
  have "mset (all_ids (group_events (map sample_event sample_rows))) = {#1, 2, 3#}"
    by (simp add: sample_rows_def sample_row_def)
  with sample_decodes show ?thesis by blast
qed

text \<open>
  Cards come newest first, and the lines under each card oldest first.
\<close>

theorem timeline_in_time_order:
  assumes "group_sessions rows = Inr ss"
  shows "sorted_wrt (\<lambda>s t. ts_or_0 (s_ts t) \<le> ts_or_0 (s_ts s)) ss
    \<and> list_all (\<lambda>s. sorted (map (\<lambda>l. ts_or_0 (se_ts l)) (s_subs s))) ss"
proof -
  obtain es where ss: "ss = group_events es"
    using assms by (auto simp: group_sessions_def ebind_Inr_iff)
  obtain cs used where c: "claimed_cards es = (cs, used)" by (cases "claimed_cards es")
  have "sorted (map (\<lambda>s. - ts_or_0 (s_ts s)) ss)" by (simp add: ss group_events_def c)
  then have "sorted_wrt (\<lambda>s t. ts_or_0 (s_ts t) \<le> ts_or_0 (s_ts s)) ss"
    by (simp add: sorted_map)
  moreover have "sorted (map (\<lambda>l. ts_or_0 (se_ts l)) (s_subs (finish es s)))" for s
    by (subst assign_lines) (simp_all add: sort_lines_def)
  then have "list_all (\<lambda>s. sorted (map (\<lambda>l. ts_or_0 (se_ts l)) (s_subs s))) ss"
    by (auto simp: ss group_events_def c list_all_iff standalone_rows_def)
  ultimately show ?thesis by blast
qed

lemma timeline_in_time_order_witness:
  "sorted_wrt (\<lambda>s t. ts_or_0 (s_ts t) \<le> ts_or_0 (s_ts s)) (group_events (map sample_event sample_rows))"
  using timeline_in_time_order [OF sample_decodes] by blast

text \<open>
  C24: the number on a chip is the number of cards the chip shows.
\<close>

theorem chip_counts_match_filter:
  "list_all (\<lambda>(chip, n). n = length (filter (\<lambda>s. matches_filter s chip) ss)) (filter_counts ss)
    \<and> map fst (filter_counts ss) = chips"
proof -
  have "keys_distinct (filter_counts ss)" by (simp add: filter_counts_keys chips_def)
  then have "n = length (filter (\<lambda>s. matches_filter s chip) ss)" if "(chip, n) \<in> set (filter_counts ss)" for chip n
  proof -
    have "chip \<in> set (map fst (filter_counts ss))" using that by force
    then have "chip \<in> set chips" by (simp only: filter_counts_keys)
    moreover have "map_of (filter_counts ss) chip = Some n"
      using \<open>keys_distinct (filter_counts ss)\<close> that by (rule map_of_is_SomeI)
    ultimately show ?thesis using filter_counts_lookup [of chip ss] by simp
  qed
  then show ?thesis by (auto simp: list_all_iff filter_counts_keys)
qed

end
