(* ===== verification/Json_Values.thy ===== *)
theory Json_Values
  imports Json
begin

text \<open>
  What \<open>json.loads\<close> gives.   A value that was read can be written again, and is no larger than its text: the room that is left
  for a text inside a text.
\<close>

fun json_size :: "pyval \<Rightarrow> nat" where
  "json_size (PStr s) = Suc (length s)"
| "json_size (PList vs) = Suc (sum_list (map json_size vs))"
| "json_size (PDict d) = Suc (sum_list (map (\<lambda>kv. json_size (snd kv)) d))"
| "json_size v = 1"

lemma digits_value_less: "list_all is_digit ds \<Longrightarrow> digits_value ds < 10 ^ length ds"
proof (induction ds rule: rev_induct)
  case Nil
  then show ?case by (simp add: digits_value_def)
next
  case (snoc d ds)
  have "digit_value d < 10" using snoc.prems by (auto simp: digit_value_def is_digit_range char_in_def)
  moreover have "digits_value ds < 10 ^ length ds" using snoc by simp
  ultimately show ?case by (simp add: digits_value_snoc)
qed

lemma nat_text_length: "n < 10 ^ Suc k \<Longrightarrow> length (nat_text n) \<le> Suc k"
proof (induction k arbitrary: n)
  case 0
  then show ?case by (subst nat_text.simps) simp
next
  case (Suc k)
  then have "n div 10 < 10 ^ Suc k" by (simp add: less_mult_imp_div_less mult.commute)
  with Suc.IH [of "n div 10"] show ?case by (subst nat_text.simps) simp
qed

lemma scan_int_digits: "scan_int s = Some (ds, r) \<Longrightarrow> list_all is_digit ds \<and> ds \<noteq> []"
proof -
  have "list_all is_digit (takeWhile is_digit x)" for x
    by (auto simp: list_all_iff dest: set_takeWhileD)
  moreover have "is_digit (CHR ''0'')" by (simp add: is_digit_def)
  ultimately show "scan_int s = Some (ds, r) \<Longrightarrow> list_all is_digit ds \<and> ds \<noteq> []"
    by (cases s) (auto simp: scan_int_def split: if_splits)
qed

lemma number_value_valid:
  assumes "scan_number s = Some p" "number_value p = Inr v"
  shows "json_valid v \<and> json_size v = 1"
proof -
  obtain r' r where "scan_int r' = Some (np_int p, r)"
    using assms(1) by (auto simp: scan_number_def split: option.splits prod.splits)
  then have d: "list_all is_digit (np_int p)" "np_int p \<noteq> []" by (auto dest: scan_int_digits)
  then obtain k where k: "length (np_int p) = Suc k" by (cases "np_int p") auto
  have "length (nat_text (digits_value (np_int p))) \<le> length (np_int p)"
    using nat_text_length [of "digits_value (np_int p)" k] digits_value_less [OF d(1)] by (simp add: k)
  then show ?thesis using assms(2)
    by (auto simp: number_value_def split: if_splits option.splits)
qed

lemma scalar_valid: "json_scalar s = Inr (v, r) \<Longrightarrow> json_valid v \<and> json_size v = 1 \<and> length r < length s"
  using json_scalar_below [of s] number_value_valid [of s]
  by (auto simp: json_scalar_def json_words_def ebind_Inr_iff split: option.splits if_splits)

lemma string_size: "json_string n s = Inr (t, r) \<Longrightarrow> length t + length r < length s"
proof (induction n s arbitrary: t r rule: json_string.induct)
  case (3 n c s)
  have "length r' < length s" if "four_hex s = Some (v, r')" for v r' s using that by (rule four_hex_length)
  then show ?case using 3
    by (auto simp: add_char_def ebind_Inr_iff split: if_splits list.splits option.splits) fastforce+
qed simp_all

lemma sum_update: "sum_list (map (\<lambda>kv. f (snd kv)) (AList.update k v d)) \<le> sum_list (map (\<lambda>kv. f (snd kv)) d) + (f v :: nat)"
  by (induction d) auto

lemma size_pos: "0 < json_size v"
  by (cases v) auto

lemma valid_update: "keys_distinct d \<and> list_all (\<lambda>kv. json_valid (snd kv)) d \<Longrightarrow> json_valid v \<Longrightarrow>
    keys_distinct (AList.update k v d) \<and> list_all (\<lambda>kv. json_valid (snd kv)) (AList.update k v d)"
  by (induction d) auto


abbreviation valid_dict :: "pydict \<Rightarrow> bool" where
  "valid_dict d \<equiv> json_valid (PDict d)"

abbreviation dict_size :: "pydict \<Rightarrow> nat" where
  "dict_size d \<equiv> sum_list (map (\<lambda>kv. json_size (snd kv)) d)"

lemma read_valid:
  "json_value n s = Inr (v, r) \<Longrightarrow> json_valid v \<and> json_size v + length r \<le> length s"
  "json_elements n vs s = Inr (v, r) \<Longrightarrow> list_all json_valid vs \<Longrightarrow>
     json_valid v \<and> json_size v + length r \<le> sum_list (map json_size vs) + length s"
  "json_members n d s = Inr (v, r) \<Longrightarrow> valid_dict d \<Longrightarrow>
     json_valid v \<and> json_size v + length r \<le> dict_size d + length s"
proof (induction n arbitrary: s vs d v r)
  case (Suc n)
  have ws: "length r' < length x \<and> length (json_ws r') < length x" if "json_ws x = c # r'" for x c r'
    using json_ws_length [of x] json_ws_length [of r'] that by simp
  {
    case 1
    show ?case
    proof (cases s)
      case (Cons c x)
      consider (str) t where "json_string n x = Inr (t, r)" "v = PStr t"
        | (els) y where "json_ws x = y" "y \<noteq> []" "json_elements n [] y = Inr (v, r) \<or> json_members n [] y = Inr (v, r)"
        | (empty) a y where "json_ws x = a # y" "r = y" "v = PList [] \<or> v = PDict []"
        | (scalar) "json_scalar s = Inr (v, r)"
        using 1 by (auto simp: Cons ebind_Inr_iff split: if_splits list.splits)
      then show ?thesis
      proof cases
        case str
        then show ?thesis using string_size [of n x t r] by (simp add: Cons)
      next
        case els
        then show ?thesis
          using Suc.IH(2) [of "[]" y v r] Suc.IH(3) [of "[]" y v r] json_ws_length [of x] by (auto simp: Cons)
      next
        case empty
        then show ?thesis using ws [of x] by (auto simp: Cons)
      next
        case scalar
        then show ?thesis using scalar_valid [of s v r] by simp
      qed
    qed (use 1 in simp)
  next
    case 2
    obtain w x where w: "json_value n s = Inr (w, x)"
      using 2(1) by (cases "json_value n s") auto
    obtain c y where y: "json_ws x = c # y"
      using 2(1) w by (cases "json_ws x") auto
    have k: "json_elements n (vs @ [w]) (json_ws y) = Inr (v, r) \<or> (v = PList (vs @ [w]) \<and> r = y)"
      using 2(1) w y by (auto split: if_splits)
    have "json_valid w \<and> json_size w + length x \<le> length s" by (rule Suc.IH(1) [OF w])
    then show ?case using k 2(2) ws [OF y] Suc.IH(2) [of "vs @ [w]" "json_ws y" v r] by auto
  next
    case 3
    then obtain q z where z: "s = q # z" by (cases s) auto
    obtain k x1 where k: "json_string n z = Inr (k, x1)"
      using 3(1) by (cases "json_string n z") (auto simp: z split: if_splits)
    obtain c x2 where x2: "json_ws x1 = c # x2"
      using 3(1) k by (cases "json_ws x1") (auto simp: z split: if_splits)
    obtain w x3 where w: "json_value n (json_ws x2) = Inr (w, x3)"
      using 3(1) k x2 by (cases "json_value n (json_ws x2)") (auto simp: z split: if_splits)
    obtain e x4 where x4: "json_ws x3 = e # x4"
      using 3(1) k x2 w by (cases "json_ws x3") (auto simp: z split: if_splits)
    have r: "json_members n (AList.update k w d) (json_ws x4) = Inr (v, r) \<or> (v = PDict (AList.update k w d) \<and> r = x4)"
      using 3(1) k x2 w x4 by (auto simp: z split: if_splits)
    have "json_valid w \<and> json_size w + length x3 \<le> length (json_ws x2)" by (rule Suc.IH(1) [OF w])
    moreover from this have "valid_dict (AList.update k w d)" using 3(2) valid_update [of d w k] by simp
    moreover have "dict_size (AList.update k w d) \<le> dict_size d + json_size w" by (rule sum_update)
    moreover have "length x1 < length z" using string_size [OF k] by simp
    ultimately show ?case
      using r ws [OF x2] ws [OF x4] Suc.IH(3) [of "AList.update k w d" "json_ws x4" v r]
      by (elim disjE) (simp_all add: z)
  }
qed simp_all

theorem loads_valid:
  assumes "json_loads s = Inr v"
  shows "json_valid v" "json_size v \<le> length s"
proof -
  obtain r where "json_value (Suc (2 * length s)) (json_ws s) = Inr (v, r)"
    using assms by (auto simp: json_loads_def ebind_Inr_iff simp del: json_value.simps split: if_splits)
  from read_valid(1) [OF this] show "json_valid v" "json_size v \<le> length s"
    using json_ws_length [of s] by auto
qed

end
