(* ===== verification/Payloads.thy ===== *)
theory Payloads
  imports Json Dicts Device Ble_Registry
begin

text \<open>
  The bodies a device is served (\<open>devices/payloads.py\<close>), with the schedule ranges they are built
  from (\<open>devices/defaults.py\<close>).

  A body is the dictionary under \<open>"result"\<close>. What the builders read from outside the device is the
  record \<open>surroundings\<close>: the zone database, the host's own offset and the clock. A stored value that
  has no method the code calls on it raises; the model calls every such error \<open>TypeError\<close>.
\<close>

section \<open>Surroundings\<close>

record surroundings =
  zones :: "string \<Rightarrow> rat option"
  local_offset :: rat
  clock_now :: rat

definition offset_of :: "surroundings \<Rightarrow> device \<Rightarrow> pyval" where
  "offset_of w d = PFloat (timezone_offset (zones w) (local_offset w) d)"

definition config_or :: "device \<Rightarrow> string \<Rightarrow> pyval \<Rightarrow> pyval" where
  "config_or d k dflt = get_or (dev_config d) k dflt"

definition result_body :: "pydict \<Rightarrow> pyval" where
  "result_body r = PDict [(''result'', PDict r)]"

section \<open>Schedules\<close>

definition all_day :: pyval where
  "all_day = PList [PList [PInt 0, PInt 1440]]"

definition all_day_weekly :: pyval where
  "all_day_weekly =
     PList [PDict [(''enable'', PInt 1), (''rpt'', PStr ''1,2,3,4,5,6,7''), (''time'', PList [PList [PInt 0, PInt 1440]])]]"

definition multi_range_defaults :: pydict where
  "multi_range_defaults =
     [(''lightMultiRange'', all_day), (''toneMultiRange'', all_day), (''cameraMultiRange'', all_day_weekly),
      (''cameraMultiNew'', all_day_weekly), (''detectMultiRange'', all_day), (''distrubMultiRange'', PList []),
      (''awDisturbMultiRange'', PList []), (''wlDisturbMultiRange'', PList [])]"

definition multi_range_keys :: "device \<Rightarrow> string list" where
  "multi_range_keys d =
     (if is_litter d then
        [''lightMultiRange'', ''distrubMultiRange''] @
        (if is_camera d then [''cameraMultiRange'', ''toneMultiRange''] else [])
      else if is_feeder d \<and> is_camera d then
        [''detectMultiRange'', ''cameraMultiNew'', ''toneMultiRange'', ''lightMultiRange'']
      else if is_water_fountain d then
        [''lightMultiRange'', ''toneMultiRange'', ''distrubMultiRange'', ''detectMultiRange'',
         ''cameraMultiRange'', ''awDisturbMultiRange'', ''wlDisturbMultiRange'']
      else [])"

definition pick_range :: "pydict \<Rightarrow> string \<Rightarrow> pyval" where
  "pick_range kept key =
     (case map_of kept key of
        Some (PList vs) \<Rightarrow> PList vs
      | _ \<Rightarrow> the (map_of multi_range_defaults key))"

definition kept_ranges :: "device \<Rightarrow> pydict" where
  "kept_ranges d = (case config_get d ''multi_config'' of PDict m \<Rightarrow> m | _ \<Rightarrow> [])"

definition multi_config_ranges :: "device \<Rightarrow> pydict" where
  "multi_config_ranges d = map (\<lambda>key. (key, pick_range (kept_ranges d) key)) (multi_range_keys d)"

definition encode_multi_range :: "(rat \<Rightarrow> string) \<Rightarrow> string \<Rightarrow> pyval \<Rightarrow> string" where
  "encode_multi_range fr key v = json_fmt [] fr (PDict [(key, v)])"

definition schedule_labels :: "device \<Rightarrow> (string \<times> string) list" where
  "schedule_labels d =
     [(''lightMultiRange'', if is_litter d then ''Screen Period'' else ''Indicator Light Period''),
      (''distrubMultiRange'', ''Cleaning Do Not Disturb''), (''toneMultiRange'', ''Voice Undisturbed Period''),
      (''cameraMultiRange'', ''Shooting Period''), (''cameraMultiNew'', ''Shooting Period''),
      (''detectMultiRange'', ''Detection Period''),
      (''awDisturbMultiRange'', ''Water Top-Up Undisturbed Period''),
      (''wlDisturbMultiRange'', ''wlDisturb Undisturbed Period'')]"

definition range_target :: "device \<Rightarrow> string \<times> pyval \<Rightarrow> pyval" where
  "range_target d kv =
     (let (key, v) = kv
      in PDict [(''target'', PStr key),
                (''name'', PStr (case map_of (schedule_labels d) key of Some n \<Rightarrow> n | None \<Rightarrow> key)),
                (''kind'', PStr (if key \<in> {''cameraMultiRange'', ''cameraMultiNew''} then ''weekly'' else ''ranges'')),
                (''value'', v)])"

definition device_types_feeder_dual :: "string set" where
  "device_types_feeder_dual = {''d4sh''}"

definition schedule_targets :: "device \<Rightarrow> pyval list" where
  "schedule_targets d =
     map (range_target d) (multi_config_ranges d) @
     (if is_litter d then
        [PDict [(''target'', PStr ''schedule''), (''name'', PStr ''Scheduled Cleaning & Deodorizing''),
                (''kind'', PStr ''points''), (''value'', or_else (config_get d ''schedule'') (PList []))]]
      else []) @
     (if is_feeder d then
        [PDict [(''target'', PStr ''feed_schedule''), (''name'', PStr ''Feeding Schedule''),
                (''kind'', PStr ''feed''),
                (''value'', or_else (config_get d ''feed_schedule'') (PDict [(''schedule'', PList [])])),
                (''dual'', PBool (device_type d \<in> device_types_feeder_dual))]]
      else [])"

section \<open>Identity and addresses\<close>

text \<open>\<open>int(created_at)\<close> is the time cut to a whole second; times a thousand it is rounded first.\<close>

definition to_signup :: "surroundings \<Rightarrow> device \<Rightarrow> pydict" where
  "to_signup w d =
     (let ts = trunc (created_at d)
      in [(''id'', PInt (petkit_id d)), (''signupAt'', PStr (int_text ts)), (''createdAt'', PInt ts),
          (''secret'', PStr (signing_secret d)), (''mac'', PStr (mac d)), (''sn'', PStr (serial_number d)),
          (''timezone'', offset_of w d), (''locale'', config_or d ''locale'' (PStr [])),
          (''shareOpen'', PInt 0), (''petInTipLimit'', PInt 0), (''p2pType'', PInt 2),
          (''tooManyPets'', PInt 0), (''frequencyPetTip'', PInt 0), (''deodorantTip'', PInt 0),
          (''purificationTip'', PInt 0)])"

definition created_ms :: "device \<Rightarrow> py_exc + int" where
  "created_ms d =
     (case round_b64 (created_at d * 1000) of Fin q \<Rightarrow> Inr (trunc q) | _ \<Rightarrow> Inl OverflowError)"

definition mqtt_block :: "device \<Rightarrow> string \<Rightarrow> int \<Rightarrow> pydict" where
  "mqtt_block d mqtt_host ms =
     [(''id'', PInt (petkit_id d)), (''deviceName'', PStr (mqtt_device_name d)),
      (''deviceSecret'', PStr (mqtt_device_secret d)), (''iotPlatform'', PStr ''ALI''),
      (''iotInstanceId'', PStr (mqtt_product_key d)), (''productKey'', PStr (mqtt_product_key d)),
      (''mqttHost'', PStr (if mqtt_host \<noteq> [] then mqtt_host else aliyun_mqtt_host d)),
      (''createdAt'', PInt ms), (''type'', PInt 1), (''regionId'', PStr ''eu-central-1'')]"

definition to_iot_device_info :: "device \<Rightarrow> string \<Rightarrow> py_exc + pydict" where
  "to_iot_device_info d mqtt_host =
     ebind (created_ms d) (\<lambda>ms. Inr [(''ali'', PDict (mqtt_block d mqtt_host ms))])"

definition to_iot_device_info_flat :: "device \<Rightarrow> string \<Rightarrow> py_exc + pydict" where
  "to_iot_device_info_flat d mqtt_host = ebind (created_ms d) (\<lambda>ms. Inr (mqtt_block d mqtt_host ms))"

definition to_serverinfo :: "string \<Rightarrow> pydict" where
  "to_serverinfo api_url =
     [(''apiServers'', PList [PStr api_url]), (''ipServers'', PList []), (''dns'', PStr []),
      (''pimServers'', PNone), (''linked'', PInt 1), (''nextTick'', PInt 3600)]"

definition to_video_device_info :: pydict where
  "to_video_device_info = [(''agora'', PDict [(''license'', PStr []), (''appId'', PStr [])])]"

definition to_multi_config :: "(rat \<Rightarrow> string) \<Rightarrow> device \<Rightarrow> pydict" where
  "to_multi_config fr d =
     map (\<lambda>(key, v). (key, PStr (encode_multi_range fr key v))) (multi_config_ranges d)"

section \<open>The configuration\<close>

definition far_future :: int where
  "far_future = 4102444800"

definition spray_total_days :: int where
  "spray_total_days = 45"

definition enabled_types :: "device \<Rightarrow> py_exc + string list" where
  "enabled_types d = ebind (enabled_capabilities d) (\<lambda>on. Inr (filter (\<lambda>ct. ct \<in> on) capability_types))"

definition cloud_window :: "int \<Rightarrow> string list \<Rightarrow> pydict" where
  "cloud_window now types =
     [(''capacity'', PList (map (\<lambda>ct. PDict [(''name'', PStr ct), (''workTime'', PInt now), (''indate'', PInt far_future)]) types)),
      (''cloudProduct'', PDict [(''serviceId'', PInt 0), (''name'', PStr ''Local''), (''workTime'', PInt now),
         (''workIndate'', PInt far_future), (''chargeType'', PStr ''LOCAL''), (''subscribe'', PInt 0)])]"

definition float_or_zero :: "pyval \<Rightarrow> pyval" where
  "float_or_zero v = (case to_float v of Some f \<Rightarrow> PFloat f | None \<Rightarrow> PInt 0)"

definition spray_stamp :: "device \<Rightarrow> py_exc + pyval" where
  "spray_stamp d =
     (case or_else (config_get d ''consumables'') (PDict []) of
        PDict rec \<Rightarrow> Inr (or_else (float_or_zero (get (dev_state d) ''sprayResetTime'')) (float_or_zero (get rec ''n60'')))
      | _ \<Rightarrow> Inl TypeError)"

definition litter_camera_block :: "device \<Rightarrow> py_exc + pydict" where
  "litter_camera_block d =
     ebind (spray_stamp d) (\<lambda>stamp. Inr
       [(''sprayDays'', PInt spray_total_days), (''sprayResetTime'', stamp), (''tooManyPets'', PInt 0),
        (''frequencyPetTip'', PInt 0), (''deodorantTip'', PInt 0), (''purificationTip'', PInt 0)])"

definition k3_block :: "ble_device \<Rightarrow> pydict" where
  "k3_block k =
     [(''withK3'', PInt 1), (''k3Id'', PInt (ble_petkit_id k)),
      (''k3Device'', PDict [(''id'', PInt (ble_petkit_id k)), (''mac'', PStr (ble_mac k)),
         (''sn'', PStr (ble_serial_number k)), (''secret'', PStr (ble_secret k))])]"

definition k3_config :: "ble_device \<Rightarrow> pyval" where
  "k3_config k = PDict [(''config'', PDict (ble_config k))]"

definition device_info_head :: "surroundings \<Rightarrow> device \<Rightarrow> pydict \<Rightarrow> pydict" where
  "device_info_head w d settings =
     [(''id'', PInt (petkit_id d)), (''mac'', PStr (mac d)), (''sn'', PStr (serial_number d)),
      (''secret'', PStr (signing_secret d)), (''timezone'', offset_of w d),
      (''locale'', config_or d ''locale'' (PStr [])), (''shareOpen'', PInt 0), (''modelCode'', PInt 2),
      (''btMac'', config_or d ''bt_mac'' (PStr [])), (''settings'', PDict settings),
      (''multiConfig'', PBool True), (''petInTipLimit'', PInt 15), (''p2pType'', PInt 2),
      (''serviceStatus'', PInt 1), (''hertz'', PInt 50)]"

text \<open>
  \<open>to_device_info\<close>: the answer, and the device, whose stored settings gain the configuration of a
  linked K3.
\<close>

definition to_device_info :: "surroundings \<Rightarrow> ble_registry option \<Rightarrow> device \<Rightarrow> py_exc + pydict \<times> device" where
  "to_device_info w ble d =
     (case config_or d ''settings'' (PDict []) of
        PDict kept \<Rightarrow>
          ebind (if is_camera d then ebind (enabled_types d) (\<lambda>ts. Inr (cloud_window (trunc (clock_now w)) ts)) else Inr [])
            (\<lambda>window.
          ebind (if is_litter d \<and> is_camera d then litter_camera_block d else Inr []) (\<lambda>spray.
            (let settings = dict_merge (default_settings d) kept;
                 body = (\<lambda>s. device_info_head w d s @ window @ spray)
             in case (if is_litter d then ble else None) of
                  None \<Rightarrow> Inr (body settings, d)
                | Some r \<Rightarrow>
                    (case get_linked_k3 (petkit_id d) r of
                       None \<Rightarrow> Inr (body settings @ [(''withK3'', PInt 0)], d)
                     | Some k \<Rightarrow>
                         Inr (body (AList.update ''k3Config'' (k3_config k) settings) @ k3_block k,
                              d\<lparr>dev_config := AList.update ''settings'' (PDict (AList.update ''k3Config'' (k3_config k) kept)) (dev_config d)\<rparr>)))))
      | _ \<Rightarrow> Inl TypeError)"

section \<open>Uploads\<close>

definition device_log_key_prefix :: string where
  "device_log_key_prefix = ''devlog''"

definition to_log_upload_token :: "device \<Rightarrow> string \<Rightarrow> pydict" where
  "to_log_upload_token d bucket_endpoint =
     (case split_bucket_authority bucket_endpoint of
        None \<Rightarrow> []
      | Some (bucket_name, end_point) \<Rightarrow>
          (let prefix = device_log_key_prefix @ ''/'' @ int_text (petkit_id d)
           in [(''type'', PStr ''ali''),
               (''key'', PStr (prefix @ ''/'' @ int_text (petkit_id d) @ ''_devRun.log'')),
               (''data'', PDict
                  [(''token'', PStr ''petkit-local-no-sts-token-required-by-this-bucket''),
                   (''bucketName'', PStr bucket_name), (''pathPrefix'', PStr prefix),
                   (''endPoint'', PStr end_point),
                   (''secret'', PStr ''petkit-local-unchecked-secret-000000000000''),
                   (''keyId'', PStr ''STS.petkit-local'')])]))"

definition device_type_ids :: "(string \<times> int) list" where
  "device_type_ids = [(''t5'', 21), (''d4sh'', 25)]"

definition strip_slashes :: "string \<Rightarrow> string" where
  "strip_slashes s = rev (dropWhile (\<lambda>c. c = CHR ''/'') (rev s))"

text \<open>\<open>s.split("//")[-1]\<close>, and \<open>s.split(c)[0]\<close>.\<close>

function after_last :: "string \<Rightarrow> string \<Rightarrow> string" where
  "after_last sep s =
     (if sep = [] then s
      else case cut_at sep s of None \<Rightarrow> s | Some (_, b) \<Rightarrow> after_last sep b)"
  by auto

lemma cut_at_shorter: "cut_at p s = Some (a, b) \<Longrightarrow> length a + length p + length b \<le> length s"
proof (induction s arbitrary: a)
  case Nil
  then show ?case by (simp split: if_splits)
next
  case (Cons c s)
  show ?case
  proof (cases "starts_with (c # s) p")
    case True
    then have "length p \<le> length (c # s)" unfolding starts_with_def by (metis length_take min.cobounded1)
    then show ?thesis using Cons.prems True by auto
  qed (use Cons in auto)
qed

termination after_last
  by (relation "measure (\<lambda>(sep, s). length s)")
    (auto dest!: cut_at_shorter simp flip: length_greater_0_conv)

declare after_last.simps [simp del]

definition before_first :: "char \<Rightarrow> string \<Rightarrow> string" where
  "before_first c s = takeWhile (\<lambda>x. x \<noteq> c) s"

definition capability_entry :: "device \<Rightarrow> string \<Rightarrow> string \<Rightarrow> string \<Rightarrow> string \<Rightarrow> pyval" where
  "capability_entry d key domain_url par_url ct =
     PDict
       [(''deviceId'', PInt (petkit_id d)),
        (''deviceType'', PInt (case map_of device_type_ids (str_lower (device_type d)) of Some n \<Rightarrow> n | None \<Rightarrow> 21)),
        (''cycleType'', PStr ct), (''cycle'', PInt 0), (''cycleExpiration'', PInt far_future),
        (''pathPrefix'', PStr (device_type d @ ''/'' @ int_text (petkit_id d) @ ''/'' @ ct)),
        (''primaryAesKeyStr'', PStr key), (''primaryAesKeyUri'', PStr []),
        (''primaryBucketName'', PStr ''petkit-local''), (''primaryDomain'', PStr domain_url),
        (''primaryParUrl'', PStr par_url), (''primaryParExpiration'', PInt (far_future * 1000)),
        (''standbyBucketName'', PStr ''petkit-local''), (''standbyDomain'', PStr domain_url),
        (''standbyParUrl'', PStr par_url), (''standbyParExpiration'', PInt (far_future * 1000)),
        (''standbyAesKeyStr'', PStr key), (''standbyAesKeyUri'', PStr []), (''isHD'', PInt 1)]"

definition to_oss_sts :: "device \<Rightarrow> string \<Rightarrow> string \<Rightarrow> py_exc + pydict" where
  "to_oss_sts d bucket_endpoint aes_key =
     (if bucket_endpoint = [] then Inr [(''type'', PStr ''oci''), (''capability'', PList [])]
      else
        (let par_base = strip_slashes bucket_endpoint;
             par_url = par_base @ ''/'';
             host = before_first (CHR ''/'') (before_first (CHR '':'') (after_last ''//'' par_base));
             domain_url = ''https://'' @ host @ ''/petkit-local/'';
             key = (if aes_key \<noteq> [] then aes_key else ''0000000000000000'')
         in ebind (enabled_types d) (\<lambda>types.
              Inr [(''type'', PStr ''oci''),
                   (''capability'', PList (map (capability_entry d key domain_url par_url) types))])))"


section \<open>Properties\<close>

lemma ebind_InrD: "ebind m f = Inr y \<Longrightarrow> \<exists>x. m = Inr x \<and> f x = Inr y"
  by (simp add: ebind_Inr_iff)

lemma device_info_form:
  assumes "to_device_info w ble d = Inr (info, d')" "config_or d ''settings'' (PDict []) = PDict kept"
  shows "\<exists>s rest. info = device_info_head w d s @ rest \<and>
    (s = dict_merge (default_settings d) kept \<or>
     (\<exists>k. s = AList.update ''k3Config'' (k3_config k) (dict_merge (default_settings d) kept)))"
proof -
  obtain window spray where b: "(let settings = dict_merge (default_settings d) kept;
        body = (\<lambda>s. device_info_head w d s @ window @ spray)
      in case (if is_litter d then ble else None) of
           None \<Rightarrow> Inr (body settings, d)
         | Some r \<Rightarrow>
             (case get_linked_k3 (petkit_id d) r of
                None \<Rightarrow> Inr (body settings @ [(''withK3'', PInt 0)], d)
              | Some k \<Rightarrow>
                  Inr (body (AList.update ''k3Config'' (k3_config k) settings) @ k3_block k,
                       d\<lparr>dev_config := AList.update ''settings'' (PDict (AList.update ''k3Config'' (k3_config k) kept)) (dev_config d)\<rparr>))) = (Inr (info, d') :: py_exc + _)"
    using assms unfolding to_device_info_def by (auto dest!: ebind_InrD)
  show ?thesis
  proof (cases "if is_litter d then ble else None")
    case (Some r)
    then show ?thesis
      using b by (cases "get_linked_k3 (petkit_id d) r") (auto simp: Let_def)
  qed (use b in \<open>auto simp: Let_def\<close>)
qed

text \<open>
  C34: the settings served are the defaults under what was stored: no default is missing, and every
  stored value but the K3's is served as it was stored.
\<close>

theorem device_info_serves_all_settings:
  assumes "to_device_info w ble d = Inr (info, d')"
    and "config_or d ''settings'' (PDict []) = PDict kept" and "keys_distinct kept"
  shows "\<exists>s. map_of info ''settings'' = Some (PDict s)
    \<and> set (map fst (default_settings d)) \<subseteq> set (map fst s)
    \<and> list_all (\<lambda>(k, v). k \<noteq> ''k3Config'' \<longrightarrow> map_of s k = Some v) kept
    \<and> list_all (\<lambda>(k, v). k \<noteq> ''k3Config'' \<and> \<not> has_key kept k \<longrightarrow> map_of s k = Some v) (default_settings d)"
proof -
  let ?m = "dict_merge (default_settings d) kept"
  have m: "map_of ?m = map_of (default_settings d) ++ map_of kept" by (simp add: lookup_merge assms(3))
  obtain s rest where f: "info = device_info_head w d s @ rest"
    "s = ?m \<or> (\<exists>k. s = AList.update ''k3Config'' (k3_config k) ?m)"
    using device_info_form [OF assms(1,2)] by blast
  then have s: "map_of info ''settings'' = Some (PDict s)" by (simp add: device_info_head_def)
  have look: "k \<noteq> ''k3Config'' \<Longrightarrow> map_of s k = map_of ?m k" for k
    using f(2) by (auto simp: lookup_update)
  have "dom (map_of ?m) \<subseteq> dom (map_of s)" using f(2) by (auto simp: lookup_update)
  then have "set (map fst (default_settings d)) \<subseteq> set (map fst s)"
    by (simp add: m dom_map_of_conv_image_fst)
  moreover have "map_of ?m k = Some v" if "(k, v) \<in> set kept" for k v
    using that assms(3) by (simp add: m map_add_Some_iff)
  moreover have "map_of ?m k = Some v" if "(k, v) \<in> set (default_settings d)" "\<not> has_key kept k" for k v
  proof -
    have "map_of (default_settings d) k = Some v" using that(1) by (simp add: default_settings_distinct)
    moreover have "map_of kept k = None" using that(2) by (simp add: map_of_eq_None_iff)
    ultimately show ?thesis by (simp add: m map_add_Some_iff)
  qed
  ultimately show ?thesis using s look by (auto simp: list_all_iff)
qed


definition sample_device :: device where
  "sample_device =
     (new_device \<lparr>minted_key = ''pk'', minted_secret = ''ds'', minted_time = 0\<rparr> ''d4sh'' 7 ''SN1'' [] [] [])
       \<lparr>dev_config := [(''settings'', PDict [(''volume'', PInt 3), (''feedSound'', PInt 1)]),
          (''capabilities'', PDict [(''highLight'', PBool False)]),
          (''multi_config'', PDict [(''lightMultiRange'', PList [PList [PInt 60, PInt 120]])])]\<rparr>"

definition sample_surroundings :: surroundings where
  "sample_surroundings = \<lparr>zones = (\<lambda>_. None), local_offset = 2, clock_now = 1000\<rparr>"

lemma sample_device_info:
  "to_device_info sample_surroundings None sample_device =
     Inr (device_info_head sample_surroundings sample_device
            (dict_merge (default_settings sample_device) [(''volume'', PInt 3), (''feedSound'', PInt 1)]) @
          cloud_window 1000 [''fullVideo'', ''eventImage'', ''dynamicVideo''], sample_device)"
proof -
  have "config_or sample_device ''settings'' (PDict []) = PDict [(''volume'', PInt 3), (''feedSound'', PInt 1)]"
    "is_camera sample_device" "\<not> is_litter sample_device"
    "enabled_types sample_device = Inr [''fullVideo'', ''eventImage'', ''dynamicVideo'']"
    "trunc (clock_now sample_surroundings) = 1000"
    by code_simp+
  then show ?thesis by (simp add: to_device_info_def)
qed

lemma device_info_serves_all_settings_witness:
  "\<exists>info s. to_device_info sample_surroundings None sample_device = Inr (info, sample_device)
    \<and> map_of info ''settings'' = Some (PDict s) \<and> map_of s ''volume'' = Some (PInt 3)"
proof -
  have "config_or sample_device ''settings'' (PDict []) = PDict [(''volume'', PInt 3), (''feedSound'', PInt 1)]"
    by code_simp
  from device_info_serves_all_settings [OF sample_device_info this]
  obtain s where "map_of (device_info_head sample_surroundings sample_device
            (dict_merge (default_settings sample_device) [(''volume'', PInt 3), (''feedSound'', PInt 1)]) @
          cloud_window 1000 [''fullVideo'', ''eventImage'', ''dynamicVideo'']) ''settings'' = Some (PDict s)"
    "map_of s ''volume'' = Some (PInt 3)"
    by (auto simp del: map_of_append)
  with sample_device_info show ?thesis by blast
qed

definition names_under :: "string \<Rightarrow> pyval \<Rightarrow> pyval list" where
  "names_under k v = (case v of PList vs \<Rightarrow> map (\<lambda>e. case e of PDict d \<Rightarrow> get d k | _ \<Rightarrow> PNone) vs | _ \<Rightarrow> [])"

lemma info_window:
  assumes "to_device_info w ble d = Inr (info, d')" "is_camera d" "enabled_types d = Inr types"
    and key: "key \<in> {''capacity'', ''cloudProduct''}"
  shows "map_of info key = map_of (cloud_window (trunc (clock_now w)) types) key"
proof -
  obtain kept where k: "config_or d ''settings'' (PDict []) = PDict kept"
    using assms(1) by (auto simp: to_device_info_def split: pyval.splits)
  obtain spray where b: "(let settings = dict_merge (default_settings d) kept;
        body = (\<lambda>s. device_info_head w d s @ cloud_window (trunc (clock_now w)) types @ spray)
      in case (if is_litter d then ble else None) of
           None \<Rightarrow> Inr (body settings, d)
         | Some r \<Rightarrow>
             (case get_linked_k3 (petkit_id d) r of
                None \<Rightarrow> Inr (body settings @ [(''withK3'', PInt 0)], d)
              | Some k \<Rightarrow>
                  Inr (body (AList.update ''k3Config'' (k3_config k) settings) @ k3_block k,
                       d\<lparr>dev_config := AList.update ''settings'' (PDict (AList.update ''k3Config'' (k3_config k) kept)) (dev_config d)\<rparr>))) = (Inr (info, d') :: py_exc + _)"
    using assms k unfolding to_device_info_def by (auto dest!: ebind_InrD)
  have head: "map_of (device_info_head w x s @ r) key = map_of r key" for x s r
    using key by (elim insertE emptyE) (simp_all add: device_info_head_def)
  have win: "map_of (cloud_window n types @ r) key = map_of (cloud_window n types) key" for n r
    using key by (elim insertE emptyE) (simp_all add: cloud_window_def)
  show ?thesis
  proof (cases "if is_litter d then ble else None")
    case None
    then show ?thesis using b by (auto simp: Let_def head win simp del: map_of_append)
  next
    case (Some r)
    then show ?thesis
      using b by (cases "get_linked_k3 (petkit_id d) r") (auto simp: Let_def head win simp del: map_of_append)
  qed
qed

text \<open>
  C33: for a camera model the two answers about uploads agree: with a bucket configured, a media type
  has a recording window exactly when it has an upload target, and both are the enabled types in their
  fixed order; without one the windows are the same and there is no target at all.
\<close>

theorem upload_answers_agree:
  assumes "to_device_info w ble d = Inr (info, d')" and "to_oss_sts d endpoint key = Inr sts"
    and "is_camera d"
  shows "\<exists>types. enabled_types d = Inr types
    \<and> names_under ''name'' (get info ''capacity'') = map PStr types
    \<and> names_under ''cycleType'' (get sts ''capability'') = (if endpoint = [] then [] else map PStr types)"
proof -
  obtain types where t: "enabled_types d = Inr types"
    using assms(1,3) by (auto simp: to_device_info_def split: pyval.splits dest!: ebind_InrD)
  have "get info ''capacity'' = PList (map (\<lambda>ct. PDict [(''name'', PStr ct),
      (''workTime'', PInt (trunc (clock_now w))), (''indate'', PInt far_future)]) types)"
    using info_window [OF assms(1,3) t, of "''capacity''"] by (simp add: get_def cloud_window_def)
  then have "names_under ''name'' (get info ''capacity'') = map PStr types"
    by (simp add: names_under_def get_def)
  moreover have "names_under ''cycleType'' (get sts ''capability'') = (if endpoint = [] then [] else map PStr types)"
  proof (cases "endpoint = []")
    case True
    then show ?thesis using assms(2) by (auto simp: to_oss_sts_def names_under_def get_def)
  next
    case False
    then obtain k u p where "sts = [(''type'', PStr ''oci''), (''capability'', PList (map (capability_entry d k u p) types))]"
      using assms(2) t unfolding to_oss_sts_def Let_def by (auto dest!: ebind_InrD)
    then show ?thesis using False by (simp add: names_under_def capability_entry_def get_def)
  qed
  ultimately show ?thesis using t by blast
qed

lemma upload_answers_agree_witness:
  "\<exists>sts types. to_oss_sts sample_device ''http://10.0.0.2:9000'' [] = Inr sts
    \<and> names_under ''cycleType'' (get sts ''capability'') = map PStr types
    \<and> enabled_types sample_device = Inr types"
proof -
  have "is_camera sample_device" by code_simp
  moreover obtain sts where sts: "to_oss_sts sample_device ''http://10.0.0.2:9000'' [] = Inr sts"
  proof -
    have "enabled_types sample_device = Inr [''fullVideo'', ''eventImage'', ''dynamicVideo'']" by code_simp
    then show ?thesis using that by (simp add: to_oss_sts_def Let_def)
  qed
  ultimately show ?thesis using upload_answers_agree [OF sample_device_info sts] sts by fastforce
qed

lemma plain_member: "json_plain (PDict m) \<Longrightarrow> map_of m k = Some w \<Longrightarrow> json_plain w"
  by (auto simp: list_all_iff dest!: map_of_SomeD)

text \<open>
  C35: each schedule of \<open>dev_multi_config\<close> is a text that decodes to an object with the schedule under its
  own name.
\<close>

theorem multi_config_decodes:
  assumes "json_plain (PDict (kept_ranges d))"
  shows "list_all2 (\<lambda>(key, text) (key', v). key = key' \<and>
      (\<exists>t. text = PStr t \<and> json_loads t = Inr (PDict [(key, v)])))
    (to_multi_config fr d) (multi_config_ranges d)"
proof -
  have defaults: "json_plain (the (map_of multi_range_defaults key))" if "key \<in> set (multi_range_keys d)" for key
  proof -
    have "list_all (\<lambda>(k, v). json_plain v) multi_range_defaults" by code_simp
    moreover have "key \<in> set (map fst multi_range_defaults)"
      using that by (auto simp: multi_range_keys_def multi_range_defaults_def split: if_splits)
    moreover from this obtain v where v: "map_of multi_range_defaults key = Some v"
      by (auto simp: key_lookup)
    ultimately have "json_plain v" by (auto simp: list_all_iff dest!: map_of_SomeD)
    then show ?thesis by (simp add: v)
  qed
  have plain: "json_plain v" if "(key, v) \<in> set (multi_config_ranges d)" for key v
  proof -
    have v: "v = pick_range (kept_ranges d) key" "key \<in> set (multi_range_keys d)"
      using that by (auto simp: multi_config_ranges_def)
    show ?thesis
    proof (cases "map_of (kept_ranges d) key")
      case (Some w)
      then have "json_plain w" by (rule plain_member [OF assms])
      then show ?thesis using defaults [OF v(2)] by (cases w) (auto simp: v(1) pick_range_def Some)
    qed (use defaults [OF v(2)] in \<open>simp add: v(1) pick_range_def\<close>)
  qed
  have "json_loads (encode_multi_range fr key v) = Inr (PDict [(key, v)])"
    if "(key, v) \<in> set (multi_config_ranges d)" for key v
  proof -
    have p: "json_plain (PDict [(key, v)])" using plain [OF that] by simp
    show ?thesis
      using json_reread [OF plain_valid [OF p] _ half_texts, of "[]"]
      unfolding encode_multi_range_def plain_text [OF p, of "[]" fr] plain_reread [OF p] by simp
  qed
  then show ?thesis
    by (auto simp: to_multi_config_def list_all2_conv_all_nth split: prod.splits) (metis nth_mem)
qed

lemma multi_config_decodes_witness:
  "list_all (\<lambda>(key, text). \<exists>t v. text = PStr t \<and> json_loads t = Inr (PDict [(key, v)]))
    (to_multi_config half_text sample_device)"
proof -
  have "json_plain (PDict (kept_ranges sample_device))" by code_simp
  note m = multi_config_decodes [OF this, of half_text]
  have some: "list_all2 P xs ys \<Longrightarrow> list_all (\<lambda>x. \<exists>y. P x y) xs" for P and xs :: pydict and ys :: pydict
    by (induction rule: list_all2_induct) auto
  show ?thesis using some [OF m] by (rule list.pred_mono_strong) auto
qed

text \<open>
  The block of a K3 outlives the K3: what was written while it was linked is served after it is gone.
\<close>

lemma k3_config_outlives_k3:
  assumes "to_device_info w (Some r) d = Inr (info, d')" "is_litter d" "get_linked_k3 (petkit_id d) r = Some k"
  shows "\<exists>s. config_or d' ''settings'' (PDict []) = PDict s \<and> map_of s ''k3Config'' = Some (k3_config k)"
proof -
  obtain kept where "config_or d ''settings'' (PDict []) = PDict kept"
    using assms(1) by (auto simp: to_device_info_def split: pyval.splits)
  then show ?thesis
    using assms unfolding to_device_info_def
    by (auto dest!: ebind_InrD simp: Let_def config_or_def get_or_def lookup_update)
qed

end
