(* ===== verification/Redact.thy ===== *)
theory Redact
  imports Payloads Json_Values
begin

text \<open>
  What a proxied cloud answer may contain by the time a device sees it (\<open>http/redact/\<close>): the rules
  (\<open>rules.py\<close>), the descent that carries them to every object, those inside encoded texts included
  (\<open>walker.py\<close>), and the two entry points (\<open>__init__.py\<close>).

  A body is the text its bytes decode to. The walker's recursion is on a number, the levels the
  interpreter's stack has left; \<open>Redact_Guard\<close> shows how many are enough. A walk that a rule ends by
  raising, or that meets an escape for a character beyond this model's, fails.
\<close>

section \<open>Policy and record\<close>

datatype walk_error = Too_deep | Beyond_model | Raised py_exc

record redaction_policy =
  pol_device :: "device option"
  pol_api_url :: string
  pol_mqtt_host :: string
  pol_bucket_endpoint :: string
  pol_aes_key :: string
  pol_block_rce :: bool
  pol_block_ota :: bool
  pol_block_log_upload :: bool
  pol_media_to_real_oss :: bool
  pol_local_cvr_window :: bool

record redaction =
  rd_rule :: string
  rd_path :: string
  rd_original :: pyval
  rd_replacement :: pyval
  rd_note :: string

record redact_out =
  out_records :: "redaction list"
  out_captured :: pydict

definition blocking_rules :: "string set" where
  "blocking_rules = {''rce'', ''ota''}"

definition blocking :: "redaction \<Rightarrow> bool" where
  "blocking r \<longleftrightarrow> rd_rule r \<in> blocking_rules"

definition blocked :: "redact_out \<Rightarrow> redaction list" where
  "blocked out = filter blocking (out_records out)"

definition note_rule :: "string \<Rightarrow> string \<Rightarrow> pyval \<Rightarrow> pyval \<Rightarrow> string \<Rightarrow> redact_out \<Rightarrow> redact_out" where
  "note_rule rule path original replacement note out =
     out\<lparr>out_records := out_records out @
       [\<lparr>rd_rule = rule, rd_path = path, rd_original = original, rd_replacement = replacement, rd_note = note\<rparr>]\<rparr>"

definition capture :: "string \<Rightarrow> pyval \<Rightarrow> redact_out \<Rightarrow> redact_out" where
  "capture k v out = out\<lparr>out_captured := AList.update k v (out_captured out)\<rparr>"

definition under :: "string \<Rightarrow> string \<Rightarrow> string" where
  "under path key = (if path \<noteq> [] then path @ ''.'' @ key else key)"

section \<open>The endpoints and keys the rules name\<close>

definition ota_check_empty :: pyval where
  "ota_check_empty = result_body []"

definition ota_endpoints :: "string set" where
  "ota_endpoints = {''dev_ota_check'', ''dev_ota_heartbeat''}"

definition log_upload_endpoints :: "string set" where
  "log_upload_endpoints = {''dev_upload_log_token'', ''dev_upload_log''}"

definition log_upload_empty :: pyval where
  "log_upload_empty = result_body []"

definition log_upload_done :: pyval where
  "log_upload_done = PDict [(''result'', PStr ''success'')]"

definition serverinfo_endpoints :: "string set" where
  "serverinfo_endpoints = {''dev_serverinfo''}"

definition ota_explicit_keys :: "string list" where
  "ota_explicit_keys = [''otaUrl'', ''firmwareUrl'', ''upgradeUrl'']"

definition ota_url_keys :: "string list" where
  "ota_url_keys = [''url'', ''downloadUrl'', ''fileUrl'', ''packageUrl'']"

definition ota_suffixes :: "string list" where
  "ota_suffixes = [''.bin'', ''.img'', ''.ota'', ''.pkg'', ''.fw'', ''.rom'', ''.tar'', ''.tar.gz'', ''.gz'', ''.zip'']"

definition ota_sibling_keys :: "string list" where
  "ota_sibling_keys = [''md5'', ''size'', ''fileSize'', ''version'', ''firmwareVersion'']"

definition server_keys :: "string list" where
  "server_keys = [''apiServers'', ''ipServers'', ''dns'']"

definition mqtt_cred_keys :: "string list" where
  "mqtt_cred_keys = [''productKey'', ''deviceName'', ''deviceSecret'']"

text \<open>The second component says whether the answer hands out our own bucket.\<close>

definition log_upload_answer :: "string \<Rightarrow> redaction_policy \<Rightarrow> pyval \<times> bool" where
  "log_upload_answer name pol =
     (if name = ''dev_upload_log'' then (log_upload_done, False)
      else case pol_device pol of
             None \<Rightarrow> (log_upload_empty, False)
           | Some d \<Rightarrow>
               if \<not> truthy (config_or d ''log_upload_enabled'' (PBool False)) then (log_upload_empty, False)
               else let body = to_log_upload_token d (pol_bucket_endpoint pol)
                    in if body \<noteq> [] then (result_body body, True) else (log_upload_empty, False))"

section \<open>The rules that remove\<close>

definition runs_command :: "pydict \<Rightarrow> bool" where
  "runs_command node = (case get node ''user_cmd'' of PDict cmd \<Rightarrow> has_key cmd ''run_cmd'' | _ \<Rightarrow> False)"

definition match_rce :: "redaction_policy \<Rightarrow> string \<Rightarrow> pydict \<Rightarrow> redact_out \<Rightarrow> redact_out option" where
  "match_rce pol path node out =
     (if \<not> pol_block_rce pol then None
      else if runs_command node
      then Some (note_rule ''rce'' (if path \<noteq> [] then path else ''user_cmd'')
                   (case get node ''user_cmd'' of PDict cmd \<Rightarrow> get cmd ''run_cmd'' | _ \<Rightarrow> PNone) PNone
                   ''shell command from upstream'' out)
      else None)"

fun is_http_url :: "pyval \<Rightarrow> bool" where
  "is_http_url (PStr s) = (let t = str_lower s in starts_with t ''http://'' \<or> starts_with t ''https://'')"
| "is_http_url _ = False"

definition looks_like_firmware :: "string \<Rightarrow> bool" where
  "looks_like_firmware url =
     (let path = str_lower (before_first (CHR ''#'') (before_first (CHR ''?'') url))
      in list_ex (ends_with path) ota_suffixes)"

definition firmware_url :: "pydict \<Rightarrow> string \<Rightarrow> bool" where
  "firmware_url node k \<longleftrightarrow>
     is_http_url (get node k) \<and>
     (case get node k of PStr s \<Rightarrow> looks_like_firmware s | _ \<Rightarrow> False) \<and>
     list_ex (has_key node) ota_sibling_keys"

definition ota_key :: "pydict \<Rightarrow> string option" where
  "ota_key node =
     (case find (\<lambda>k. is_http_url (get node k)) ota_explicit_keys of
        Some k \<Rightarrow> Some k
      | None \<Rightarrow> find (firmware_url node) ota_url_keys)"

definition match_ota_shape :: "redaction_policy \<Rightarrow> string \<Rightarrow> pydict \<Rightarrow> redact_out \<Rightarrow> redact_out option" where
  "match_ota_shape pol path node out =
     (if \<not> pol_block_ota pol then None
      else case ota_key node of
             None \<Rightarrow> None
           | Some key \<Rightarrow>
               Some (note_rule ''ota'' (under path key) (PDict node) PNone
                       ''firmware image offered outside the OTA endpoints'' out))"

section \<open>The rules that rewrite\<close>

text \<open>Overwrite the keys that are there, and what was there before.\<close>

definition overwrite_present :: "pydict \<Rightarrow> pydict \<Rightarrow> pydict" where
  "overwrite_present ours node = fold (\<lambda>(k, v) n. if has_key node k then AList.update k v n else n) ours node"

definition present :: "pydict \<Rightarrow> pydict \<Rightarrow> pydict" where
  "present ours node = filter (\<lambda>(k, v). has_key node k) ours"

definition originals :: "pydict \<Rightarrow> pydict \<Rightarrow> pydict" where
  "originals ours node = map (\<lambda>(k, v). (k, get node k)) (present ours node)"

definition our_servers :: "redaction_policy \<Rightarrow> pydict" where
  "our_servers pol = map (\<lambda>k. (k, get (to_serverinfo (pol_api_url pol)) k)) server_keys"

definition match_server :: "redaction_policy \<Rightarrow> string \<Rightarrow> pydict \<Rightarrow> redact_out \<Rightarrow> pydict \<times> redact_out" where
  "match_server pol path node out =
     (if pol_device pol = None \<or> \<not> list_ex (has_key node) server_keys then (node, out)
      else (overwrite_present (our_servers pol) node,
            note_rule ''server'' path (PDict (originals (our_servers pol) node)) (PDict (present (our_servers pol) node))
              ''upstream tried to repoint the device's API base'' out))"

definition found_mqtt :: "pydict \<Rightarrow> pydict" where
  "found_mqtt node =
     map (\<lambda>(name, k). (name, get_or node k (PStr [])))
       [(''mqtt_host'', ''mqttHost''), (''product_key'', ''productKey''), (''device_name'', ''deviceName''),
        (''device_secret'', ''deviceSecret''), (''region_id'', ''regionId''), (''iot_instance_id'', ''iotInstanceId'')]"

definition merge_found :: "pydict \<Rightarrow> pydict \<Rightarrow> pydict" where
  "merge_found found old =
     fold (\<lambda>(k, v) c. if truthy v \<or> \<not> has_key c k then AList.update k v c else c) found old"

definition capture_mqtt :: "pydict \<Rightarrow> redact_out \<Rightarrow> redact_out" where
  "capture_mqtt found out =
     (if list_ex (\<lambda>(k, v). truthy v) found
      then capture ''mqtt'' (PDict (merge_found found
             (case get (out_captured out) ''mqtt'' of PDict m \<Rightarrow> m | _ \<Rightarrow> []))) out
      else out)"

definition our_broker :: "redaction_policy \<Rightarrow> device \<Rightarrow> pydict" where
  "our_broker pol d =
     [(''mqttHost'', PStr (resolve_mqtt_host d (pol_mqtt_host pol))), (''productKey'', PStr (mqtt_product_key d)),
      (''deviceName'', PStr (mqtt_device_name d)), (''deviceSecret'', PStr (mqtt_device_secret d)),
      (''iotInstanceId'', PStr (mqtt_product_key d))]"

definition names_broker :: "pydict \<Rightarrow> bool" where
  "names_broker node \<longleftrightarrow> has_key node ''mqttHost'' \<or> list_all (has_key node) mqtt_cred_keys"

definition match_mqtt :: "redaction_policy \<Rightarrow> string \<Rightarrow> pydict \<Rightarrow> redact_out \<Rightarrow> pydict \<times> redact_out" where
  "match_mqtt pol path node out =
     (case pol_device pol of
        None \<Rightarrow> (node, out)
      | Some d \<Rightarrow>
          if \<not> names_broker node then (node, out)
          else (overwrite_present (our_broker pol d) node,
                note_rule ''mqtt'' path (PDict (originals (our_broker pol d) node)) (PDict (present (our_broker pol d) node))
                  ''upstream tried to repoint the device's broker'' (capture_mqtt (found_mqtt node) out)))"

definition is_upload_list :: "pyval \<Rightarrow> bool" where
  "is_upload_list caps =
     (case caps of
        PList (PDict sample # _) \<Rightarrow> has_key sample ''cycleType'' \<or> has_key sample ''primaryParUrl''
      | _ \<Rightarrow> False)"

definition match_oss_sts :: "redaction_policy \<Rightarrow> string \<Rightarrow> pydict \<Rightarrow> redact_out \<Rightarrow> py_exc + pydict \<times> redact_out" where
  "match_oss_sts pol path node out =
     (case pol_device pol of
        None \<Rightarrow> Inr (node, out)
      | Some d \<Rightarrow>
          if \<not> is_upload_list (get node ''capability'') then Inr (node, out)
          else let out1 = capture ''oss_sts'' (get node ''capability'') out
               in if pol_media_to_real_oss pol then Inr (node, out1)
                  else ebind (to_oss_sts d (pol_bucket_endpoint pol) (pol_aes_key pol)) (\<lambda>sts.
                    Inr (AList.update ''type'' (get sts ''type'') (AList.update ''capability'' (get sts ''capability'') node),
                         note_rule ''oss_sts'' (under path ''capability'') (get node ''capability'') (get sts ''capability'')
                           ''upstream tried to repoint media uploads'' out1)))"

definition is_window_list :: "pyval \<Rightarrow> bool" where
  "is_window_list caps = (case caps of PList (PDict c # _) \<Rightarrow> has_key c ''indate'' | _ \<Rightarrow> False)"

definition is_window_product :: "pyval \<Rightarrow> bool" where
  "is_window_product p = (case p of PDict c \<Rightarrow> has_key c ''workIndate'' | _ \<Rightarrow> False)"

definition swap_window :: "string \<Rightarrow> bool \<Rightarrow> pydict \<Rightarrow> string \<Rightarrow> string \<Rightarrow> pydict \<Rightarrow> pydict \<times> redact_out \<Rightarrow> pydict \<times> redact_out" where
  "swap_window key shape ours path note node st =
     (let (patched, out) = st
      in if shape \<and> truthy (get ours key)
         then (AList.update key (get ours key) patched,
               note_rule ''oss_sts'' (under path key) (get node key) (get ours key) note out)
         else st)"

definition match_cvr_capacity ::
    "surroundings \<Rightarrow> redaction_policy \<Rightarrow> string \<Rightarrow> pydict \<Rightarrow> redact_out \<Rightarrow> py_exc + pydict \<times> redact_out" where
  "match_cvr_capacity w pol path node out =
     (case pol_device pol of
        None \<Rightarrow> Inr (node, out)
      | Some d \<Rightarrow>
          if \<not> is_camera d \<or> \<not> pol_local_cvr_window pol then Inr (node, out)
          else ebind (to_device_info w None d) (\<lambda>(ours, _).
            Inr (swap_window ''cloudProduct'' (is_window_product (get node ''cloudProduct'')) ours path
                   ''upstream cloudProduct window replaced with our standing one'' node
                   (swap_window ''capacity'' (is_window_list (get node ''capacity'')) ours path
                      ''upstream CVR window replaced with our standing one'' node (node, out)))))"

definition about_us :: "device \<Rightarrow> pydict \<Rightarrow> bool" where
  "about_us d node \<longleftrightarrow>
     has_key node ''signupAt'' \<or> py_eq (get node ''id'') (PInt (petkit_id d)) \<or>
     (serial_number d \<noteq> [] \<and> py_eq (get node ''sn'') (PStr (serial_number d)))"

definition match_secret :: "redaction_policy \<Rightarrow> string \<Rightarrow> pydict \<Rightarrow> redact_out \<Rightarrow> pydict \<times> redact_out" where
  "match_secret pol path node out =
     (case (pol_device pol, get node ''secret'') of
        (Some d, PStr s) \<Rightarrow>
          if \<not> about_us d node then (node, out)
          else let out1 = capture ''api_secret'' (PStr s) out
               in if has_key node ''id'' \<and> \<not> py_eq (get node ''id'') (PInt (petkit_id d))
                  then (AList.update ''id'' (PInt (petkit_id d)) node,
                        note_rule ''secret'' path (PDict [(''id'', get node ''id'')]) (PDict [(''id'', PInt (petkit_id d))])
                          ''upstream reported a different device id'' out1)
                  else (node, out1)
      | _ \<Rightarrow> (node, out))"

definition our_locale :: "surroundings \<Rightarrow> device \<Rightarrow> pydict" where
  "our_locale w d = [(''timezone'', offset_of w d), (''locale'', config_or d ''locale'' (PStr []))]"

definition keep_ours :: "string \<Rightarrow> pydict \<Rightarrow> string \<times> pyval \<Rightarrow> pydict \<times> redact_out \<Rightarrow> pydict \<times> redact_out" where
  "keep_ours path node kv st =
     (let (key, v) = kv; (patched, out) = st
      in if \<not> has_key node key \<or> py_eq (get node key) v then st
         else (AList.update key v patched,
               note_rule ''locale'' (under path key) (get node key) v
                 ''upstream would overwrite the device's local time settings'' out))"

definition match_locale ::
    "surroundings \<Rightarrow> redaction_policy \<Rightarrow> string \<Rightarrow> pydict \<Rightarrow> redact_out \<Rightarrow> pydict \<times> redact_out" where
  "match_locale w pol path node out =
     (case pol_device pol of
        None \<Rightarrow> (node, out)
      | Some d \<Rightarrow>
          if \<not> about_us d node then (node, out)
          else fold (keep_ours path node) (our_locale w d) (node, out))"

section \<open>The descent\<close>

type_synonym walker = "string \<Rightarrow> bool \<Rightarrow> pyval \<Rightarrow> redact_out \<Rightarrow> walk_error + pyval option \<times> redact_out"

fun walk_items :: "walker \<Rightarrow> string \<Rightarrow> nat \<Rightarrow> pyval list \<Rightarrow> redact_out \<Rightarrow> walk_error + pyval list \<times> redact_out" where
  "walk_items wk path i [] out = Inr ([], out)"
| "walk_items wk path i (v # vs) out =
     ebind (wk (path @ ''['' @ nat_text i @ '']'') True v out) (\<lambda>(got, out1).
     ebind (walk_items wk path (Suc i) vs out1) (\<lambda>(rest, out2).
       Inr (case got of Some g \<Rightarrow> g # rest | None \<Rightarrow> rest, out2)))"

fun walk_members :: "walker \<Rightarrow> string \<Rightarrow> pydict \<Rightarrow> redact_out \<Rightarrow> walk_error + pydict \<times> bool \<times> redact_out" where
  "walk_members wk path [] out = Inr ([], False, out)"
| "walk_members wk path ((k, v) # d) out =
     ebind (wk (under path k) False v out) (\<lambda>(got, out1).
     ebind (walk_members wk path d out1) (\<lambda>(cleaned, tainted, out2).
       Inr (case got of Some g \<Rightarrow> ((k, g) # cleaned, tainted, out2) | None \<Rightarrow> (cleaned, True, out2))))"

definition raised :: "py_exc + 'a \<Rightarrow> walk_error + 'a" where
  "raised m = (case m of Inl e \<Rightarrow> Inl (Raised e) | Inr x \<Rightarrow> Inr x)"

definition rewrite :: "surroundings \<Rightarrow> redaction_policy \<Rightarrow> string \<Rightarrow> pydict \<Rightarrow> redact_out \<Rightarrow> walk_error + pydict \<times> redact_out" where
  "rewrite w pol path node out =
     (let (n1, o1) = match_server pol path node out;
          (n2, o2) = match_mqtt pol path n1 o1
      in ebind (raised (match_oss_sts pol path n2 o2)) (\<lambda>(n3, o3).
         ebind (raised (match_cvr_capacity w pol path n3 o3)) (\<lambda>(n4, o4).
           (let (n5, o5) = match_secret pol path n4 o4
            in Inr (match_locale w pol path n5 o5)))))"

definition walk_dict ::
    "surroundings \<Rightarrow> redaction_policy \<Rightarrow> walker \<Rightarrow> string \<Rightarrow> bool \<Rightarrow> pydict \<Rightarrow> redact_out \<Rightarrow> walk_error + pyval option \<times> redact_out" where
  "walk_dict w pol wk path in_list node out =
     (case match_rce pol path node out of
        Some o1 \<Rightarrow> Inr (None, o1)
      | None \<Rightarrow>
          (case match_ota_shape pol path node out of
             Some o1 \<Rightarrow> Inr (None, o1)
           | None \<Rightarrow>
               ebind (rewrite w pol path node out) (\<lambda>(patched, o1).
               ebind (walk_members wk path patched o1) (\<lambda>(cleaned, tainted, o2).
                 Inr (if tainted \<and> in_list then None else Some (PDict cleaned), o2)))))"

text \<open>
  \<open>got == inner\<close>. The walk hands back the floats it was given, and Python compares an object inside
  a container with itself by identity, so NaN counts as unchanged.
\<close>

fun unchanged :: "pyval \<Rightarrow> pyval \<Rightarrow> bool" where
  "unchanged (PList xs) (PList ys) = list_all2 unchanged xs ys"
| "unchanged (PDict d) (PDict e) =
     (length d = length e \<and>
      list_all (\<lambda>kv. case map_of e (fst kv) of None \<Rightarrow> False | Some v \<Rightarrow> unchanged (snd kv) v) d)"
| "unchanged v u =
     (case (num_of v, num_of u) of (Some a, Some b) \<Rightarrow> a = b | (None, None) \<Rightarrow> v = u | _ \<Rightarrow> False)"

definition looks_encoded :: "string \<Rightarrow> bool" where
  "looks_encoded s = (case str_lstrip s of c # _ \<Rightarrow> c = CHR ''{'' \<or> c = CHR ''['' | [] \<Rightarrow> False)"

fun is_container :: "pyval \<Rightarrow> bool" where
  "is_container (PDict d) = True"
| "is_container (PList vs) = True"
| "is_container _ = False"

text \<open>The object or array a text encodes, if it encodes one.\<close>

definition encoded_value :: "string \<Rightarrow> walk_error + pyval option" where
  "encoded_value s =
     (if \<not> looks_encoded s then Inr None
      else case json_loads s of
             Inl Wide_char \<Rightarrow> Inl Beyond_model
           | Inl _ \<Rightarrow> Inr None
           | Inr v \<Rightarrow> Inr (if is_container v then Some v else None))"

text \<open>\<open>json.dumps\<close>: bytes and integers too long to convert raise.\<close>

definition write_json :: "string \<Rightarrow> (rat \<Rightarrow> string) \<Rightarrow> pyval \<Rightarrow> walk_error + string" where
  "write_json sp fr v = (if json_valid v then Inr (json_fmt sp fr v) else Inl (Raised ValueError))"

definition walk_json_string ::
    "(rat \<Rightarrow> string) \<Rightarrow> walker \<Rightarrow> string \<Rightarrow> string \<Rightarrow> redact_out \<Rightarrow> walk_error + pyval option \<times> redact_out" where
  "walk_json_string fr wk path s out =
     ebind (encoded_value s) (\<lambda>enc.
       case enc of
         None \<Rightarrow> Inr (Some (PStr s), out)
       | Some inner \<Rightarrow>
           ebind (wk path False inner out) (\<lambda>(got, o1).
             case got of
               None \<Rightarrow> Inr (None, o1)
             | Some g \<Rightarrow>
                 if unchanged g inner then Inr (Some (PStr s), o1)
                 else ebind (write_json [] fr g) (\<lambda>t. Inr (Some (PStr t), o1))))"

primrec walk :: "surroundings \<Rightarrow> (rat \<Rightarrow> string) \<Rightarrow> redaction_policy \<Rightarrow> nat \<Rightarrow> walker" where
  "walk w fr pol 0 path in_list node out = Inl Too_deep"
| "walk w fr pol (Suc n) path in_list node out =
     (case node of
        PDict d \<Rightarrow> walk_dict w pol (walk w fr pol n) path in_list d out
      | PList vs \<Rightarrow>
          ebind (walk_items (walk w fr pol n) path 0 vs out) (\<lambda>(cleaned, o1). Inr (Some (PList cleaned), o1))
      | PStr s \<Rightarrow> walk_json_string fr (walk w fr pol n) path s out
      | _ \<Rightarrow> Inr (Some node, out))"

section \<open>The entry points\<close>

text \<open>A body that is no JSON object or array is handed back untouched.\<close>

definition decode_body :: "string \<Rightarrow> walk_error + pyval option" where
  "decode_body body =
     (if body = [] then Inr None
      else case json_loads body of
             Inl Wide_char \<Rightarrow> Inl Beyond_model
           | Inl _ \<Rightarrow> Inr None
           | Inr v \<Rightarrow> Inr (if is_container v then Some v else None))"

definition last_segment :: "string \<Rightarrow> string" where
  "last_segment path = rev (takeWhile (\<lambda>c. c \<noteq> CHR ''/'') (rev (strip_slashes path)))"

definition offers_an_update :: "pyval \<Rightarrow> bool" where
  "offers_an_update v = (case v of PDict d \<Rightarrow> truthy (get d ''result'') | _ \<Rightarrow> truthy v)"

definition nothing_yet :: redact_out where
  "nothing_yet = \<lparr>out_records = [], out_captured = []\<rparr>"

text \<open>What is sent for a walked body: never nothing, and never without its \<open>result\<close>.\<close>

definition refill_result :: "pyval \<Rightarrow> pyval option \<Rightarrow> pyval" where
  "refill_result data cleaned =
     (case (data, cleaned) of
        (_, None) \<Rightarrow> result_body []
      | (PDict d, Some (PDict c)) \<Rightarrow>
          if has_key d ''result'' \<and> \<not> has_key c ''result'' then PDict (c @ [(''result'', PDict [])]) else PDict c
      | (_, Some v) \<Rightarrow> v)"

definition redact_data ::
    "surroundings \<Rightarrow> (rat \<Rightarrow> string) \<Rightarrow> nat \<Rightarrow> string \<Rightarrow> redaction_policy \<Rightarrow> pyval \<Rightarrow> walk_error + pyval \<times> redact_out" where
  "redact_data w fr n name pol data =
     (if pol_block_ota pol \<and> name \<in> ota_endpoints then
        Inr (ota_check_empty,
             if offers_an_update data
             then note_rule ''ota'' [] data ota_check_empty (name @ '' answered locally'') nothing_yet else nothing_yet)
      else if pol_block_log_upload pol \<and> name \<in> log_upload_endpoints then
        (let (replacement, own_bucket) = log_upload_answer name pol
         in Inr (replacement,
                 note_rule ''log_upload'' [] data replacement
                   (name @ (if own_bucket then '' answered with our own bucket - the log comes here''
                            else '' withheld - the device's log stays local'')) nothing_yet))
      else if pol_device pol \<noteq> None \<and> name \<in> serverinfo_endpoints then
        (let ours = result_body (to_serverinfo (pol_api_url pol))
         in Inr (ours,
                 if py_eq data ours then nothing_yet
                 else note_rule ''server'' [] data ours ''dev_serverinfo answered locally'' nothing_yet))
      else
        ebind (walk w fr pol n [] False data nothing_yet) (\<lambda>(cleaned, out). Inr (refill_result data cleaned, out)))"

definition redact_body ::
    "surroundings \<Rightarrow> (rat \<Rightarrow> string) \<Rightarrow> nat \<Rightarrow> string \<Rightarrow> redaction_policy \<Rightarrow> string \<Rightarrow> walk_error + string \<times> redact_out" where
  "redact_body w fr n endpoint pol body =
     ebind (decode_body body) (\<lambda>dec.
       case dec of
         None \<Rightarrow> Inr (body, nothing_yet)
       | Some data \<Rightarrow>
           ebind (redact_data w fr n (last_segment endpoint) pol data) (\<lambda>(v, out).
           ebind (write_json '' '' fr v) (\<lambda>t. Inr (t, out))))"

definition redact_mqtt ::
    "surroundings \<Rightarrow> (rat \<Rightarrow> string) \<Rightarrow> nat \<Rightarrow> redaction_policy \<Rightarrow> string \<Rightarrow> walk_error + string \<times> redact_out" where
  "redact_mqtt w fr n pol payload =
     ebind (decode_body payload) (\<lambda>dec.
       case dec of
         None \<Rightarrow> Inr (payload, nothing_yet)
       | Some data \<Rightarrow>
           ebind (walk w fr pol n [] False data nothing_yet) (\<lambda>(cleaned, out).
           ebind (write_json [] fr (case cleaned of Some v \<Rightarrow> v | None \<Rightarrow> PDict [])) (\<lambda>t. Inr (t, out))))"

definition cloud_error :: "string \<Rightarrow> walk_error + pydict option" where
  "cloud_error body =
     ebind (decode_body body) (\<lambda>dec. Inr
       (case dec of
          Some (PDict d) \<Rightarrow>
            (case get d ''error'' of PDict e \<Rightarrow> if has_key e ''code'' then Some e else None | _ \<Rightarrow> None)
        | _ \<Rightarrow> None))"

end
