(* ===== verification/Redact_Guard.thy ===== *)
theory Redact_Guard
  imports Redact
begin

text \<open>
  What the redactor promises. A guard is a kind of object that no walked body contains, at any depth
  and inside any encoded text; the locale \<open>guard\<close> carries a rule's guarantee from one object to the
  whole body, and is interpreted for the objects that are removed and for the addresses that are
  rewritten. The walk ends: it needs no more levels than its input and our own values are deep.
\<close>

section \<open>Objects in a value\<close>

text \<open>A bad object occurs in a value: in it, under it, or in what a text encodes.\<close>

inductive occurs :: "(pydict \<Rightarrow> bool) \<Rightarrow> pyval \<Rightarrow> bool" for bad where
  here: "bad d \<Longrightarrow> occurs bad (PDict d)"
| member: "(k, v) \<in> set d \<Longrightarrow> occurs bad v \<Longrightarrow> occurs bad (PDict d)"
| element: "v \<in> set vs \<Longrightarrow> occurs bad v \<Longrightarrow> occurs bad (PList vs)"
| encoded: "encoded_value s = Inr (Some v) \<Longrightarrow> occurs bad v \<Longrightarrow> occurs bad (PStr s)"

inductive_simps occurs_dict: "occurs bad (PDict d)"
inductive_simps occurs_list: "occurs bad (PList vs)"
inductive_simps occurs_text: "occurs bad (PStr s)"
inductive_cases occurs_none [elim!]: "occurs bad PNone"
inductive_cases occurs_bool [elim!]: "occurs bad (PBool b)"
inductive_cases occurs_int [elim!]: "occurs bad (PInt n)"
inductive_cases occurs_float [elim!]: "occurs bad (PFloat f)"
inductive_cases occurs_bytes [elim!]: "occurs bad (PBytes f)"

lemma occurs_scalar [simp]: "\<not> occurs bad PNone" "\<not> occurs bad (PBool b)" "\<not> occurs bad (PInt n)"
  "\<not> occurs bad (PFloat f)" "\<not> occurs bad (PBytes y)"
  by auto

section \<open>The descent, member by member\<close>

lemma walk_members_Cons:
  assumes "walk_members wk path ((k, v) # d) out = Inr (cleaned, tainted, out')"
  obtains got o1 rest t where "wk (under path k) False v out = Inr (got, o1)"
    "walk_members wk path d o1 = Inr (rest, t, out')"
    "cleaned = (case got of Some g \<Rightarrow> (k, g) # rest | None \<Rightarrow> rest)"
proof -
  obtain got o1 where 1: "wk (under path k) False v out = Inr (got, o1)"
    using assms by (cases "wk (under path k) False v out") auto
  obtain rest t o2 where 2: "walk_members wk path d o1 = Inr (rest, t, o2)"
    using assms 1 by (cases "walk_members wk path d o1") auto
  show ?thesis using that [OF 1, of rest t] 2 assms 1 by (cases got) auto
qed

lemma walk_items_Cons:
  assumes "walk_items wk path i (v # vs) out = Inr (cleaned, out')"
  obtains got o1 rest where "wk (path @ ''['' @ nat_text i @ '']'') True v out = Inr (got, o1)"
    "walk_items wk path (Suc i) vs o1 = Inr (rest, out')"
    "cleaned = (case got of Some g \<Rightarrow> g # rest | None \<Rightarrow> rest)"
proof -
  obtain got o1 where 1: "wk (path @ ''['' @ nat_text i @ '']'') True v out = Inr (got, o1)"
    using assms by (cases "wk (path @ ''['' @ nat_text i @ '']'') True v out") auto
  obtain rest o2 where 2: "walk_items wk path (Suc i) vs o1 = Inr (rest, o2)"
    using assms 1 by (cases "walk_items wk path (Suc i) vs o1") auto
  show ?thesis using that [OF 1, of rest] 2 assms 1 by auto
qed

lemma members_walked:
  assumes "walk_members wk path d out = Inr (cleaned, tainted, out')" "(k, g) \<in> set cleaned"
  shows "\<exists>v p o1 o2. (k, v) \<in> set d \<and> wk p False v o1 = Inr (Some g, o2)"
  using assms
proof (induction d arbitrary: cleaned tainted out out')
  case (Cons kv d)
  obtain k' v where kv: "kv = (k', v)" by (cases kv)
  obtain got o1 rest t where w: "wk (under path k') False v out = Inr (got, o1)"
    "walk_members wk path d o1 = Inr (rest, t, out')"
    "cleaned = (case got of Some g \<Rightarrow> (k', g) # rest | None \<Rightarrow> rest)"
    using Cons.prems(1) unfolding kv by (rule walk_members_Cons)
  have "(k, g) \<in> set rest \<or> (k = k' \<and> got = Some g)"
    using Cons.prems(2) w(3) by (cases got) auto
  then show ?case
  proof
    assume "(k, g) \<in> set rest"
    from Cons.IH [OF w(2) this] show ?thesis by auto
  qed (use w(1) kv in auto)
qed simp

lemma members_keys:
  assumes "walk_members wk path d out = Inr (cleaned, tainted, out')"
  shows "set (map fst cleaned) \<subseteq> set (map fst d)"
proof
  fix k assume "k \<in> set (map fst cleaned)"
  then obtain g where "(k, g) \<in> set cleaned" by auto
  from members_walked [OF assms this] obtain v where "(k, v) \<in> set d" by blast
  then show "k \<in> set (map fst d)" by force
qed

lemma members_lookup:
  assumes "walk_members wk path d out = Inr (cleaned, tainted, out')" "keys_distinct d" "map_of cleaned k = Some g"
  shows "\<exists>v p o1 o2. map_of d k = Some v \<and> wk p False v o1 = Inr (Some g, o2)"
  using members_walked [OF assms(1) map_of_SomeD [OF assms(3)]] assms(2) by auto

lemma items_walked:
  assumes "walk_items wk path i vs out = Inr (cleaned, out')" "g \<in> set cleaned"
  shows "\<exists>v p o1 o2. v \<in> set vs \<and> wk p True v o1 = Inr (Some g, o2)"
  using assms
proof (induction vs arbitrary: i cleaned out out')
  case (Cons v vs)
  obtain got o1 rest where w: "wk (path @ ''['' @ nat_text i @ '']'') True v out = Inr (got, o1)"
    "walk_items wk path (Suc i) vs o1 = Inr (rest, out')"
    "cleaned = (case got of Some g \<Rightarrow> g # rest | None \<Rightarrow> rest)"
    using Cons.prems(1) by (rule walk_items_Cons)
  have "g \<in> set rest \<or> got = Some g" using Cons.prems(2) w(3) by (cases got) auto
  then show ?case
  proof
    assume "g \<in> set rest"
    from Cons.IH [OF w(2) this] show ?thesis by auto
  qed (use w(1) in auto)
qed simp

section \<open>What a rule leaves of a value\<close>

text \<open>Two values are alike when the tests of the rules cannot tell them apart.\<close>

lemma lookup_unchanged:
  assumes "unchanged (PDict d) (PDict e)" "keys_distinct d" "keys_distinct e"
  shows "has_key d k \<longleftrightarrow> has_key e k"
    and "map_of d k = Some v \<Longrightarrow> \<exists>u. map_of e k = Some u \<and> unchanged v u"
    and "map_of e k = Some u \<Longrightarrow> \<exists>v. map_of d k = Some v \<and> unchanged v u"
proof -
  have l: "length d = length e" and all: "\<And>k v. (k, v) \<in> set d \<Longrightarrow> \<exists>u. map_of e k = Some u \<and> unchanged v u"
    using assms(1) by (auto simp: list_all_iff split: option.splits)
  have "set (map fst d) \<subseteq> set (map fst e)"
  proof
    fix k assume "k \<in> set (map fst d)"
    then obtain v where "(k, v) \<in> set d" by auto
    from all [OF this] obtain u where "map_of e k = Some u" by blast
    then show "k \<in> set (map fst e)" by (force dest: map_of_SomeD)
  qed
  moreover have "card (set (map fst d)) = card (set (map fst e))"
    using l assms(2,3) by (simp only: distinct_card length_map)
  ultimately have k: "set (map fst d) = set (map fst e)" by (intro card_subset_eq) auto
  then show "has_key d k \<longleftrightarrow> has_key e k" by simp
  show some: "\<exists>u. map_of e k = Some u \<and> unchanged v u" if "map_of d k = Some v" for k v
    using all map_of_SomeD [OF that] by blast
  show "\<exists>v. map_of d k = Some v \<and> unchanged v u" if u: "map_of e k = Some u"
  proof -
    obtain v where "map_of d k = Some v" using k u by (metis key_lookup set_map)
    then show ?thesis using some [of k v] u by auto
  qed
qed

lemma unchanged_text: "unchanged v (PStr s) \<longleftrightarrow> v = PStr s" "unchanged (PStr s) v \<longleftrightarrow> v = PStr s"
  by (cases v; auto)+

lemma unchanged_dict: "unchanged v (PDict e) \<Longrightarrow> \<exists>d. v = PDict d" "unchanged (PDict e) v \<Longrightarrow> \<exists>d. v = PDict d"
  by (cases v; auto)+

lemma unchanged_list: "unchanged v (PList ys) \<Longrightarrow> \<exists>xs. v = PList xs"
  by (cases v) auto

lemma valid_member: "json_valid (PDict d) \<Longrightarrow> (k, v) \<in> set d \<Longrightarrow> json_valid v"
  by (auto simp: list_all_iff)

lemma reread_lookup: "map_of (map (\<lambda>kv. (fst kv, reread rd (snd kv))) d) k = map_option (reread rd) (map_of d k)"
  by (induction d) auto

lemma reread_keys [simp]: "map fst (map (\<lambda>kv. (fst kv, reread rd (snd kv))) d) = map fst d"
  by (simp add: comp_def)


section \<open>Distinct keys\<close>

fun well_keyed :: "pyval \<Rightarrow> bool" where
  "well_keyed (PList vs) \<longleftrightarrow> list_all well_keyed vs"
| "well_keyed (PDict d) \<longleftrightarrow> keys_distinct d \<and> list_all (\<lambda>kv. well_keyed (snd kv)) d"
| "well_keyed v \<longleftrightarrow> True"

text \<open>The one value of the device's own that a rule copies whole is its locale.\<close>

definition policy_ok :: "redaction_policy \<Rightarrow> bool" where
  "policy_ok pol \<longleftrightarrow> (\<forall>d. pol_device pol = Some d \<longrightarrow> well_keyed (config_or d ''locale'' (PStr [])))"

lemma valid_well_keyed: "json_valid v \<Longrightarrow> well_keyed v"
  by (induction v rule: json_valid.induct) (auto simp: list_all_iff)

lemma well_keyed_update: "well_keyed (PDict d) \<Longrightarrow> well_keyed v \<Longrightarrow> well_keyed (PDict (AList.update k v d))"
  by (induction d) auto

lemma well_keyed_get: "well_keyed (PDict d) \<Longrightarrow> well_keyed (get d k)"
  by (auto simp: get_def list_all_iff dest!: map_of_SomeD split: option.splits)

lemma overwrite_snoc: "overwrite_present (ours @ [(k, v)]) d =
    (if has_key d k then AList.update k v (overwrite_present ours d) else overwrite_present ours d)"
  by (simp add: overwrite_present_def)

lemma well_keyed_overwrite:
  assumes "well_keyed (PDict d)"
  shows "list_all (\<lambda>kv. well_keyed (snd kv)) ours \<Longrightarrow> well_keyed (PDict (overwrite_present ours d))"
proof (induction ours rule: rev_induct)
  case Nil
  show ?case using assms by (simp add: overwrite_present_def)
next
  case (snoc kv ours)
  then show ?case
    by (cases kv) (simp add: overwrite_snoc well_keyed_update del: well_keyed.simps)
qed

lemma overwrite_lookup:
  "keys_distinct ours \<Longrightarrow> map_of (overwrite_present ours d) k =
    (case map_of ours k of Some v \<Rightarrow> if has_key d k then Some v else map_of d k | None \<Rightarrow> map_of d k)"
proof (induction ours rule: rev_induct)
  case Nil
  show ?case by (simp add: overwrite_present_def)
next
  case (snoc kv ours)
  obtain k' v where kv: "kv = (k', v)" by (cases kv)
  have IH: "map_of (overwrite_present ours d) k =
      (case map_of ours k of Some v \<Rightarrow> if has_key d k then Some v else map_of d k | None \<Rightarrow> map_of d k)"
    using snoc by simp
  have new: "map_of ours k' = None" using snoc.prems by (simp add: kv map_of_eq_None_iff)
  have "map_of (ours @ [kv]) k = (if k = k' then Some v else map_of ours k)"
    using new by (simp add: kv map_add_def split: option.splits)
  then show ?case
    using IH new by (cases "k = k'") (simp_all add: kv overwrite_snoc lookup_update del: map_of_append)
qed

section \<open>The rewriting rules, key by key\<close>

definition rewritten_keys :: "string set" where
  "rewritten_keys =
     {''apiServers'', ''ipServers'', ''dns'', ''mqttHost'', ''productKey'', ''deviceName'', ''deviceSecret'',
      ''iotInstanceId'', ''capability'', ''type'', ''capacity'', ''cloudProduct'', ''id'', ''timezone'', ''locale''}"

lemma our_tables [simp]: "keys_distinct (our_servers pol)" "keys_distinct (our_broker pol d)"
  by (simp_all add: our_servers_def our_broker_def server_keys_def comp_def)

lemma our_servers_value: "our_servers pol =
    [(''apiServers'', PList [PStr (pol_api_url pol)]), (''ipServers'', PList []), (''dns'', PStr [])]"
  by (simp add: our_servers_def server_keys_def to_serverinfo_def get_def)

lemma get_update [simp]: "get (AList.update k v d) k' = (if k' = k then v else get d k')"
  by (simp add: get_def lookup_update)

lemma absent_lookup: "\<not> has_key d k \<Longrightarrow> map_of d k = None"
  by (simp add: map_of_eq_None_iff)

lemma overwritten: "keys_distinct ours \<Longrightarrow> map_of (overwrite_present ours d) k =
    (if has_key d k \<and> has_key ours k then map_of ours k else map_of d k)"
proof (cases "has_key ours k")
  case True
  then obtain v where "map_of ours k = Some v" by (auto simp: key_lookup)
  moreover assume "keys_distinct ours"
  ultimately show ?thesis using True by (simp add: overwrite_lookup)
next
  case False
  moreover assume "keys_distinct ours"
  ultimately show ?thesis using absent_lookup [OF False] by (simp add: overwrite_lookup)
qed

lemma server_lookup:
  assumes "match_server pol path d out = (n, out')"
  shows "map_of n k = (if pol_device pol \<noteq> None \<and> has_key d k \<and> has_key (our_servers pol) k
                       then map_of (our_servers pol) k else map_of d k)"
proof (cases "pol_device pol = None \<or> \<not> list_ex (has_key d) server_keys")
  case True
  then have "n = d" using assms unfolding match_server_def by simp
  moreover have "pol_device pol = None \<or> \<not> (has_key d k \<and> has_key (our_servers pol) k)"
    using True by (force simp: server_keys_def our_servers_value)
  ultimately show ?thesis by (simp only: if_False) (metis (full_types))
next
  case False
  then have "n = overwrite_present (our_servers pol) d"
    using assms unfolding match_server_def by (simp only: if_False prod.inject)
  then show ?thesis using False by (simp add: overwritten)
qed

lemma broker_lookup:
  assumes "match_mqtt pol path d out = (n, out')" "pol_device pol = Some dev"
  shows "map_of n k = (if names_broker d \<and> has_key d k \<and> has_key (our_broker pol dev) k
                       then map_of (our_broker pol dev) k else map_of d k)"
proof (cases "names_broker d")
  case True
  then have "n = overwrite_present (our_broker pol dev) d"
    using assms unfolding match_mqtt_def by simp
  then show ?thesis using True by (simp add: overwritten)
next
  case False
  then show ?thesis using assms unfolding match_mqtt_def by simp
qed

lemma no_broker: "match_mqtt pol path d out = (n, out') \<Longrightarrow> pol_device pol = None \<Longrightarrow> n = d"
  by (simp add: match_mqtt_def)

lemma sts_lookup: "match_oss_sts pol path d out = Inr (n, out') \<Longrightarrow> k \<notin> {''capability'', ''type''} \<Longrightarrow>
    map_of n k = map_of d k"
  by (auto simp: match_oss_sts_def Let_def lookup_update split: option.splits if_splits dest!: ebind_InrD)

lemma cvr_lookup: "match_cvr_capacity w pol path d out = Inr (n, out') \<Longrightarrow> k \<notin> {''capacity'', ''cloudProduct''} \<Longrightarrow>
    map_of n k = map_of d k"
  by (auto simp: match_cvr_capacity_def swap_window_def lookup_update split: option.splits if_splits prod.splits
      dest!: ebind_InrD)

lemma secret_lookup: "match_secret pol path d out = (n, out') \<Longrightarrow> k \<noteq> ''id'' \<Longrightarrow> map_of n k = map_of d k"
  by (auto simp: match_secret_def Let_def lookup_update split: option.splits pyval.splits if_splits)

lemma locale_lookup: "match_locale w pol path d out = (n, out') \<Longrightarrow> k \<notin> {''timezone'', ''locale''} \<Longrightarrow>
    map_of n k = map_of d k"
  by (auto simp: match_locale_def our_locale_def keep_ours_def lookup_update split: option.splits if_splits)

lemma rewrite_parts:
  assumes "rewrite w pol path d out = Inr (p, out')"
  obtains n1 o1 n2 o2 n3 o3 n4 o4 n5 o5 where
    "match_server pol path d out = (n1, o1)" "match_mqtt pol path n1 o1 = (n2, o2)"
    "match_oss_sts pol path n2 o2 = Inr (n3, o3)" "match_cvr_capacity w pol path n3 o3 = Inr (n4, o4)"
    "match_secret pol path n4 o4 = (n5, o5)" "match_locale w pol path n5 o5 = (p, out')"
proof -
  obtain n1 o1 where 1: "match_server pol path d out = (n1, o1)" by (cases "match_server pol path d out")
  obtain n2 o2 where 2: "match_mqtt pol path n1 o1 = (n2, o2)" by (cases "match_mqtt pol path n1 o1")
  obtain n3 o3 where 3: "match_oss_sts pol path n2 o2 = Inr (n3, o3)"
    using assms 1 2 by (cases "match_oss_sts pol path n2 o2") (auto simp: rewrite_def raised_def)
  obtain n4 o4 where 4: "match_cvr_capacity w pol path n3 o3 = Inr (n4, o4)"
    using assms 1 2 3 by (cases "match_cvr_capacity w pol path n3 o3") (auto simp: rewrite_def raised_def)
  obtain n5 o5 where 5: "match_secret pol path n4 o4 = (n5, o5)" by (cases "match_secret pol path n4 o4")
  have "match_locale w pol path n5 o5 = (p, out')"
    using assms 1 2 3 4 5 by (simp add: rewrite_def raised_def)
  then show ?thesis using that 1 2 3 4 5 by blast
qed

lemma rewrite_lookup:
  assumes "rewrite w pol path d out = Inr (p, out')" "k \<notin> rewritten_keys"
  shows "map_of p k = map_of d k"
  using assms(1)
proof (rule rewrite_parts)
  fix n1 o1 n2 o2 n3 o3 n4 o4 n5 o5
  assume s: "match_server pol path d out = (n1, o1)" "match_mqtt pol path n1 o1 = (n2, o2)"
    "match_oss_sts pol path n2 o2 = Inr (n3, o3)" "match_cvr_capacity w pol path n3 o3 = Inr (n4, o4)"
    "match_secret pol path n4 o4 = (n5, o5)" "match_locale w pol path n5 o5 = (p, out')"
  have "\<not> has_key (our_servers pol) k" "\<And>dev. \<not> has_key (our_broker pol dev) k"
    using assms(2) by (auto simp: rewritten_keys_def our_servers_value our_broker_def)
  then show ?thesis
    using assms(2) server_lookup [OF s(1), of k] broker_lookup [OF s(2), of _ k] no_broker [OF s(2)] sts_lookup [OF s(3), of k]
      cvr_lookup [OF s(4), of k] secret_lookup [OF s(5), of k] locale_lookup [OF s(6), of k]
    by (cases "pol_device pol") (simp_all add: rewritten_keys_def)
qed


section \<open>The walk keeps keys distinct\<close>

lemma sts_keyed: "to_oss_sts d e key = Inr sts \<Longrightarrow> well_keyed (PDict sts)"
  by (auto simp: to_oss_sts_def Let_def capability_entry_def list_all_iff comp_def split: if_splits dest!: ebind_InrD)

lemma info_keyed:
  assumes "to_device_info w None d = Inr (info, d')" "is_camera d" "k \<in> {''capacity'', ''cloudProduct''}"
  shows "well_keyed (get info k)"
proof -
  obtain types where "enabled_types d = Inr types"
    using assms(1,2) unfolding to_device_info_def by (auto split: pyval.splits dest!: ebind_InrD)
  from info_window [OF assms(1,2) this assms(3)] show ?thesis
    using assms(3) by (auto simp: get_def cloud_window_def list_all_iff)
qed

lemma swap_keyed:
  assumes "well_keyed (get ours key)" "well_keyed (PDict (fst st))"
  shows "well_keyed (PDict (fst (swap_window key shape ours path note node st)))"
  using assms by (cases st) (auto simp: swap_window_def simp del: well_keyed.simps intro!: well_keyed_update)

lemma keep_keyed:
  assumes "well_keyed v" "well_keyed (PDict (fst st))"
  shows "well_keyed (PDict (fst (keep_ours path node (k, v) st)))"
  using assms by (cases st) (auto simp: keep_ours_def simp del: well_keyed.simps intro!: well_keyed_update)

lemma rewrite_keyed:
  assumes "rewrite w pol path d out = Inr (p, out')" "policy_ok pol" "well_keyed (PDict d)"
  shows "well_keyed (PDict p)"
  using assms(1)
proof (rule rewrite_parts)
  fix n1 o1 n2 o2 n3 o3 n4 o4 n5 o5
  assume s: "match_server pol path d out = (n1, o1)" "match_mqtt pol path n1 o1 = (n2, o2)"
    "match_oss_sts pol path n2 o2 = Inr (n3, o3)" "match_cvr_capacity w pol path n3 o3 = Inr (n4, o4)"
    "match_secret pol path n4 o4 = (n5, o5)" "match_locale w pol path n5 o5 = (p, out')"
  have "n1 = d \<or> n1 = overwrite_present (our_servers pol) d"
    using s(1) unfolding match_server_def by (simp only: prod.inject split: if_splits) blast+
  then have 1: "well_keyed (PDict n1)"
    using assms(3) well_keyed_overwrite [OF assms(3), of "our_servers pol"]
    by (elim disjE) (simp_all add: our_servers_value del: well_keyed.simps(2))
  show ?thesis
  proof (cases "pol_device pol")
    case None
    then show ?thesis
      using s 1 by (simp add: match_mqtt_def match_oss_sts_def match_cvr_capacity_def match_secret_def match_locale_def)
  next
    case (Some dev)
    have "n2 = n1 \<or> n2 = overwrite_present (our_broker pol dev) n1"
      using s(2) Some unfolding match_mqtt_def by (simp split: if_splits)
    then have 2: "well_keyed (PDict n2)"
      using 1 well_keyed_overwrite [OF 1, of "our_broker pol dev"]
      by (elim disjE) (simp_all add: our_broker_def del: well_keyed.simps(2))
    then have 3: "well_keyed (PDict n3)"
      using s(3) Some unfolding match_oss_sts_def
      by (auto simp del: well_keyed.simps simp: Let_def split: if_splits dest!: ebind_InrD
          intro!: well_keyed_update well_keyed_get dest: sts_keyed)
    have 4: "well_keyed (PDict n4)"
    proof (cases "\<not> is_camera dev \<or> \<not> pol_local_cvr_window pol")
      case False
      then obtain info d' where i: "to_device_info w None dev = Inr (info, d')"
        and n4: "n4 = fst (swap_window ''cloudProduct'' (is_window_product (get n3 ''cloudProduct'')) info path
           ''upstream cloudProduct window replaced with our standing one'' n3
           (swap_window ''capacity'' (is_window_list (get n3 ''capacity'')) info path
              ''upstream CVR window replaced with our standing one'' n3 (n3, o3)))"
        using s(4) Some unfolding match_cvr_capacity_def by (auto dest!: ebind_InrD)
      show ?thesis unfolding n4
        using 3 False info_keyed [OF i] by (intro swap_keyed) auto
    qed (use s(4) Some 3 in \<open>simp add: match_cvr_capacity_def\<close>)
    then have 5: "well_keyed (PDict n5)"
      using s(5) Some unfolding match_secret_def
      by (auto simp del: well_keyed.simps(2) py_eq.simps simp: Let_def split: if_splits pyval.splits intro!: well_keyed_update)
    have l: "well_keyed (config_or dev ''locale'' (PStr []))" "well_keyed (offset_of w dev)"
      using assms(2) Some by (simp_all add: policy_ok_def offset_of_def)
    have "p = n5 \<or> p = fst (keep_ours path n5 (''locale'', config_or dev ''locale'' (PStr []))
        (keep_ours path n5 (''timezone'', offset_of w dev) (n5, o5)))"
      using s(6) Some unfolding match_locale_def by (auto simp: our_locale_def split: if_splits)
    moreover have "well_keyed (PDict (fst (keep_ours path n5 (''locale'', config_or dev ''locale'' (PStr []))
        (keep_ours path n5 (''timezone'', offset_of w dev) (n5, o5)))))"
      using 5 l by (intro keep_keyed) auto
    ultimately show ?thesis using 5 by metis
  qed
qed

lemma members_distinct:
  assumes "walk_members wk path d out = Inr (cleaned, tainted, out')" "keys_distinct d"
  shows "keys_distinct cleaned"
  using assms
proof (induction d arbitrary: cleaned tainted out out')
  case (Cons kv d)
  obtain k v where kv: "kv = (k, v)" by (cases kv)
  obtain got o1 rest t where m: "walk_members wk path d o1 = Inr (rest, t, out')"
    "cleaned = (case got of Some g \<Rightarrow> (k, g) # rest | None \<Rightarrow> rest)"
    using Cons.prems(1) unfolding kv by (rule walk_members_Cons)
  have "keys_distinct rest" using Cons.IH [OF m(1)] Cons.prems(2) by simp
  moreover have "k \<notin> set (map fst rest)"
    using members_keys [OF m(1)] Cons.prems(2) by (auto simp: kv)
  ultimately show ?case by (cases got) (simp_all add: m(2))
qed simp


section \<open>The shape of a walked value\<close>

lemma walk_text_cases:
  assumes "walk_json_string fr wk path s out = Inr (Some g, o')"
  obtains "encoded_value s = Inr None" "g = PStr s"
  | inner got o1 where "encoded_value s = Inr (Some inner)" "wk path False inner out = Inr (Some got, o1)"
      "unchanged got inner" "g = PStr s"
  | inner got o1 where "encoded_value s = Inr (Some inner)" "wk path False inner out = Inr (Some got, o1)"
      "json_valid got" "g = PStr (json_fmt [] fr got)"
proof (cases "encoded_value s")
  case (Inr enc)
  show ?thesis
  proof (cases enc)
    case None
    then show ?thesis using assms that(1) Inr by (simp add: walk_json_string_def)
  next
    case (Some inner)
    obtain got o1 where w: "wk path False inner out = Inr (got, o1)"
      using assms Inr Some by (cases "wk path False inner out") (auto simp: walk_json_string_def)
    then obtain h where h: "got = Some h"
      using assms Inr Some by (cases got) (auto simp: walk_json_string_def)
    show ?thesis
      using assms that(2) [of inner h o1] that(3) [of inner h o1] Inr Some w h
      by (auto simp: walk_json_string_def write_json_def split: if_splits)
  qed
qed (use assms in \<open>simp add: walk_json_string_def\<close>)

lemma encoded_container: "encoded_value s = Inr (Some v) \<Longrightarrow> is_container v \<and> json_loads s = Inr v \<and> looks_encoded s"
  by (auto simp: encoded_value_def split: sum.splits json_error.splits if_splits)

text \<open>A walked dictionary was a dictionary, a walked list a list, and a rewritten text starts like one.\<close>

lemma walk_dict_cases:
  assumes "walk w fr pol n path il (PDict d) out = Inr (Some g, o')"
  obtains m p c o1 t where "n = Suc m" "match_rce pol path d out = None" "match_ota_shape pol path d out = None"
    "rewrite w pol path d out = Inr (p, o1)" "walk_members (walk w fr pol m) path p o1 = Inr (c, t, o')"
    "g = PDict c"
proof -
  obtain m where n: "n = Suc m" using assms by (cases n) auto
  have wd: "walk_dict w pol (walk w fr pol m) path il d out = Inr (Some g, o')" using assms by (simp add: n)
  have r: "match_rce pol path d out = None" "match_ota_shape pol path d out = None"
    using wd by (auto simp: walk_dict_def split: option.splits)
  obtain p o1 where p: "rewrite w pol path d out = Inr (p, o1)"
    using wd r by (cases "rewrite w pol path d out") (auto simp: walk_dict_def)
  obtain c t o2 where c: "walk_members (walk w fr pol m) path p o1 = Inr (c, t, o2)"
    using wd r p by (cases "walk_members (walk w fr pol m) path p o1") (auto simp: walk_dict_def)
  show ?thesis using that [OF n r p, of c t] wd r p c by (auto simp: walk_dict_def split: if_splits)
qed

lemma walk_list_cases:
  assumes "walk w fr pol n path il (PList vs) out = Inr (Some g, o')"
  obtains m c where "n = Suc m" "walk_items (walk w fr pol m) path 0 vs out = Inr (c, o')" "g = PList c"
proof -
  obtain m where n: "n = Suc m" using assms by (cases n) auto
  show ?thesis using assms n that
    by (cases "walk_items (walk w fr pol m) path 0 vs out") auto
qed

lemma walk_origin:
  assumes "walk w fr pol n path il v out = Inr (Some g, o')"
  shows "(\<exists>d c. v = PDict d \<and> g = PDict c \<and> set (map fst c) \<subseteq> set (map fst d) \<union> rewritten_keys)
    \<or> (\<exists>vs c. v = PList vs \<and> g = PList c)
    \<or> (\<exists>s t. v = PStr s \<and> g = PStr t \<and> (t = s \<or> looks_encoded s \<and> (\<exists>got. is_container got \<and> t = json_fmt [] fr got)))
    \<or> (\<not> is_container v \<and> (\<forall>s. v \<noteq> PStr s) \<and> g = v)"
  using assms
proof (induction n arbitrary: path il v out g o')
  case (Suc n)
  show ?case
  proof (cases v)
    case (PDict d)
    from Suc.prems [unfolded PDict] show ?thesis
    proof (rule walk_dict_cases)
      fix m p c o1 t
      assume "rewrite w pol path d out = Inr (p, o1)" "walk_members (walk w fr pol m) path p o1 = Inr (c, t, o')" "g = PDict c"
      moreover from this have "set (map fst c) \<subseteq> set (map fst p)" by (intro members_keys)
      moreover have "k \<in> set (map fst d) \<union> rewritten_keys" if "k \<in> set (map fst p)" for k
        using that rewrite_lookup [OF calculation(1), of k] by (cases "k \<in> rewritten_keys") (auto simp: key_lookup)
      ultimately show ?thesis using PDict by blast
    qed
  next
    case (PList vs)
    from Suc.prems [unfolded PList] show ?thesis by (rule walk_list_cases) (simp add: PList)
  next
    case (PStr s)
    then have "walk_json_string fr (walk w fr pol n) path s out = Inr (Some g, o')" using Suc.prems by simp
    then show ?thesis
    proof (cases rule: walk_text_cases)
      case (3 inner got o1)
      have "is_container got" using Suc.IH [OF 3(2)] encoded_container [OF 3(1)] by (cases inner) auto
      then show ?thesis using encoded_container [OF 3(1)] 3(4) PStr by blast
    qed (use PStr in auto)
  qed (use Suc.prems in auto)
qed simp

section \<open>Guards\<close>

locale guard =
  fixes bad :: "pydict \<Rightarrow> bool" and w :: surroundings and fr :: "rat \<Rightarrow> string" and rd :: "rat \<Rightarrow> pyfloat"
    and pol :: redaction_policy
  assumes walked_good: "\<lbrakk>match_rce pol path d out = None; match_ota_shape pol path d out = None;
      rewrite w pol path d out = Inr (p, o1); walk_members (walk w fr pol n) path p o1 = Inr (c, t, o2);
      keys_distinct p\<rbrakk> \<Longrightarrow> \<not> bad c"
    and same_bad: "\<lbrakk>unchanged (PDict d) (PDict e); well_keyed (PDict d); well_keyed (PDict e); bad e\<rbrakk> \<Longrightarrow> bad d"
    and reread_bad: "bad (map (\<lambda>kv. (fst kv, reread rd (snd kv))) d) \<Longrightarrow> bad d"
begin

lemma occurs_unchanged: "occurs bad u \<Longrightarrow> unchanged v u \<Longrightarrow> well_keyed v \<Longrightarrow> well_keyed u \<Longrightarrow> occurs bad v"
proof (induction arbitrary: v rule: occurs.induct)
  case (here e)
  then obtain d where "v = PDict d" using unchanged_dict(1) by blast
  then show ?case using here same_bad [of d e] by (auto intro: occurs.here)
next
  case (member k u e)
  then obtain d where d: "v = PDict d" using unchanged_dict(1) by blast
  have "map_of e k = Some u" using member by simp
  then obtain x where x: "map_of d k = Some x" "unchanged x u"
    using lookup_unchanged(3) [of d e k u] member.prems by (auto simp: d simp del: unchanged.simps)
  then have "(k, x) \<in> set d" by (auto dest: map_of_SomeD)
  moreover have "well_keyed x" "well_keyed u"
    using calculation member.hyps(1) member.prems(2,3) by (auto simp: d list_all_iff)
  ultimately show ?case using member.IH [OF x(2)] by (auto simp: d intro: occurs.member)
next
  case (element u us)
  then obtain vs where vs: "v = PList vs" using unchanged_list by blast
  then obtain x where x: "x \<in> set vs" "unchanged x u"
    using element by (auto simp: list_all2_conv_all_nth in_set_conv_nth) (metis nth_mem)
  then show ?case using element by (auto simp: vs list_all_iff intro: occurs.element)
next
  case (encoded s u)
  have "v = PStr s" using encoded.prems(1) by (rule unchanged_text(1) [THEN iffD1])
  then show ?case using encoded by (auto intro: occurs.encoded)
qed

lemma occurs_reread: "occurs bad (reread rd v) \<Longrightarrow> occurs bad v"
proof (induction "reread rd v" arbitrary: v rule: occurs.induct)
  case (here d)
  then show ?case by (cases v) (auto intro: occurs.here dest: reread_bad)
next
  case (member k u d)
  then show ?case by (cases v) (auto intro: occurs.member)
next
  case (element u us)
  then show ?case by (cases v) (auto intro: occurs.element)
next
  case (encoded s u)
  then show ?case by (cases v) (auto intro: occurs.encoded)
qed

text \<open>The step from the objects of a walk to all that occurs in what it returns.\<close>

lemma walk_good:
  assumes floats: "float_texts fr rd" and pol: "policy_ok pol"
  shows "walk w fr pol n path il v out = Inr (Some g, o') \<Longrightarrow> well_keyed v \<Longrightarrow>
    well_keyed g \<and> \<not> occurs bad g"
proof (induction n arbitrary: path il v out g o')
  case (Suc n)
  show ?case
  proof (cases v)
    case (PDict d)
    from Suc.prems(1) [unfolded PDict] show ?thesis
    proof (rule walk_dict_cases)
      fix m p c o1 t
      assume m: "Suc n = Suc m" and r: "match_rce pol path d out = None" "match_ota_shape pol path d out = None"
        "rewrite w pol path d out = Inr (p, o1)" "walk_members (walk w fr pol m) path p o1 = Inr (c, t, o')"
        and g: "g = PDict c"
      have p: "well_keyed (PDict p)" using rewrite_keyed [OF r(3) pol] Suc.prems(2) by (simp add: PDict)
      have "well_keyed x \<and> \<not> occurs bad x" if x: "(k, x) \<in> set c" for k x
      proof -
        obtain u q y z where "(k, u) \<in> set p" "walk w fr pol m q False u y = Inr (Some x, z)"
          using members_walked [OF r(4) x] by blast
        then show ?thesis using Suc.IH m p by (auto simp: list_all_iff)
      qed
      moreover have "keys_distinct c" using members_distinct [OF r(4)] p by simp
      moreover have "\<not> bad c" using walked_good [OF r] p by simp
      ultimately show ?thesis by (auto simp: g occurs_dict list_all_iff)
    qed
  next
    case (PList vs)
    from Suc.prems(1) [unfolded PList] show ?thesis
    proof (rule walk_list_cases)
      fix m c assume m: "Suc n = Suc m" "walk_items (walk w fr pol m) path 0 vs out = Inr (c, o')" "g = PList c"
      have "well_keyed x \<and> \<not> occurs bad x" if x: "x \<in> set c" for x
      proof -
        obtain u q y z where "u \<in> set vs" "walk w fr pol m q True u y = Inr (Some x, z)"
          using items_walked [OF m(2) x] by blast
        then show ?thesis using Suc.IH m Suc.prems(2) by (auto simp: PList list_all_iff)
      qed
      then show ?thesis by (auto simp: m(3) occurs_list list_all_iff)
    qed
  next
    case (PStr s)
    then have "walk_json_string fr (walk w fr pol n) path s out = Inr (Some g, o')" using Suc.prems by simp
    then show ?thesis
    proof (cases rule: walk_text_cases)
      case 1
      then show ?thesis by (simp add: occurs_text)
    next
      case (2 inner got o1)
      have inner: "well_keyed inner"
        using encoded_container [OF 2(1)] loads_valid(1) by (auto intro: valid_well_keyed)
      then have "well_keyed got" "\<not> occurs bad got" using Suc.IH [OF 2(2)] by simp_all
      then have "\<not> occurs bad inner" using occurs_unchanged [OF _ 2(3)] inner by blast
      then show ?thesis using 2(1) by (simp add: 2(4) occurs_text)
    next
      case (3 inner got o1)
      have "well_keyed inner"
        using encoded_container [OF 3(1)] loads_valid(1) by (auto intro: valid_well_keyed)
      then have "\<not> occurs bad got" using Suc.IH [OF 3(2)] by simp
      moreover have "json_loads (json_fmt [] fr got) = Inr (reread rd got)"
        using 3(3) floats by (intro json_reread) simp_all
      then have "encoded_value (json_fmt [] fr got) = Inr (Some u) \<Longrightarrow> u = reread rd got" for u
        using encoded_container by fastforce
      ultimately show ?thesis using occurs_reread by (auto simp: 3(4) occurs_text)
    qed
  qed (use Suc.prems in auto)
qed simp

text \<open>So it is with the body that is sent.\<close>

lemma body_good:
  assumes floats: "float_texts fr rd" and pol: "policy_ok pol"
    and ours: "\<not> occurs bad ota_check_empty" "\<not> occurs bad (fst (log_upload_answer (last_segment endpoint) pol))"
      "\<not> occurs bad (result_body (to_serverinfo (pol_api_url pol)))"
    and result: "\<And>c. bad (c @ [(''result'', PDict [])]) \<Longrightarrow> bad c"
    and data: "decode_body body = Inr (Some data)"
    and sent: "redact_body w fr n endpoint pol body = Inr (t, out)"
  shows "\<exists>v. json_loads t = Inr v \<and> \<not> occurs bad v"
proof -
  have dv: "json_valid data"
    using data loads_valid(1) by (auto simp: decode_body_def split: if_splits sum.splits json_error.splits)
  obtain v o1 where v: "redact_data w fr n (last_segment endpoint) pol data = Inr (v, o1)" "write_json '' '' fr v = Inr t"
    using sent data by (auto simp: redact_body_def ebind_Inr_iff)
  have "\<not> occurs bad v"
  proof (cases "v \<in> {ota_check_empty, fst (log_upload_answer (last_segment endpoint) pol), result_body (to_serverinfo (pol_api_url pol))}")
    case False
    then obtain cleaned where c: "walk w fr pol n [] False data nothing_yet = Inr (cleaned, o1)" "v = refill_result data cleaned"
      using v(1) by (auto simp: redact_data_def Let_def split: if_splits prod.splits dest!: ebind_InrD)
    show ?thesis
    proof (cases cleaned)
      case None
      then show ?thesis using c(2) ours(1) by (simp add: refill_result_def ota_check_empty_def split: pyval.splits)
    next
      case (Some g)
      have g: "well_keyed g \<and> \<not> occurs bad g"
        using walk_good [OF floats pol] c(1) valid_well_keyed [OF dv] by (simp add: Some)
      have empty: "\<not> occurs bad (PDict [])"
        using ours(1) by (auto simp: ota_check_empty_def result_body_def occurs_dict)
      have "\<not> occurs bad (PDict (x @ [(''result'', PDict [])]))" if "g = PDict x" for x
        using g that empty result [of x] by (auto simp: occurs_dict)
      then show ?thesis using g by (auto simp: c(2) Some refill_result_def split: pyval.splits)
    qed
  qed (use ours in auto)
  moreover have "json_loads t = Inr (reread rd v)"
    using v(2) floats json_reread [of v "'' ''" fr rd] by (auto simp: write_json_def json_space_def split: if_splits)
  ultimately show ?thesis using occurs_reread by blast
qed

lemma body_sent:
  assumes "float_texts fr rd" and "policy_ok pol"
    and "\<not> occurs bad ota_check_empty" "\<not> occurs bad (fst (log_upload_answer (last_segment endpoint) pol))"
      "\<not> occurs bad (result_body (to_serverinfo (pol_api_url pol)))"
    and "\<And>c. bad (c @ [(''result'', PDict [])]) \<Longrightarrow> bad c"
    and sent: "redact_body w fr n endpoint pol body = Inr (t, out)"
  shows "if decode_body body = Inr None then t = body \<and> out = nothing_yet
    else \<exists>v. json_loads t = Inr v \<and> \<not> occurs bad v"
proof -
  consider e where "decode_body body = Inl e" | "decode_body body = Inr None"
    | data where "decode_body body = Inr (Some data)"
    by (metis not_None_eq sum.exhaust)
  then show ?thesis
  proof cases
    case 3
    then show ?thesis using body_good [OF assms(1-6) _ sent] by simp
  qed (use sent in \<open>simp_all add: redact_body_def\<close>)
qed

end


section \<open>Nothing hostile is left\<close>

definition hostile :: "redaction_policy \<Rightarrow> pydict \<Rightarrow> bool" where
  "hostile pol d \<longleftrightarrow> (pol_block_rce pol \<and> runs_command d) \<or> (pol_block_ota pol \<and> ota_key d \<noteq> None)"

lemma find_some: "find P xs \<noteq> None \<longleftrightarrow> (\<exists>x \<in> set xs. P x)"
  by (auto simp: find_None_iff)

lemma ota_key_iff: "ota_key d \<noteq> None \<longleftrightarrow>
    (\<exists>k \<in> set ota_explicit_keys. is_http_url (get d k)) \<or> (\<exists>k \<in> set ota_url_keys. firmware_url d k)"
  using find_some [of "\<lambda>k. is_http_url (get d k)" ota_explicit_keys] find_some [of "firmware_url d" ota_url_keys]
  by (auto simp: ota_key_def split: option.splits)

lemma not_hostile: "match_rce pol path d out = None \<Longrightarrow> match_ota_shape pol path d out = None \<Longrightarrow> \<not> hostile pol d"
  by (auto simp: hostile_def match_rce_def match_ota_shape_def split: if_splits option.splits)

lemma http_not_container: "is_container got \<Longrightarrow> \<not> is_http_url (PStr (json_fmt [] fr got))"
  by (cases got) (simp_all add: str_lower_def lower_char_def char_in_def starts_with_def)

lemma walked_url:
  assumes "walk w fr pol n path il v out = Inr (Some u, o')" "is_http_url u"
  shows "v = u"
  using walk_origin [OF assms(1)] assms(2) http_not_container [of _ fr] by (cases u) auto

text \<open>What a hostile object is told by is where the rules do not write.\<close>

lemma hostile_keys: "k \<in> {''user_cmd'', ''run_cmd''} \<union> set ota_explicit_keys \<union> set ota_url_keys \<union> set ota_sibling_keys \<Longrightarrow>
    k \<notin> rewritten_keys"
  by (auto simp: ota_explicit_keys_def ota_url_keys_def ota_sibling_keys_def rewritten_keys_def)

lemma get_text: "is_http_url (get d k) \<Longrightarrow> \<exists>s. map_of d k = Some (PStr s) \<and> get d k = PStr s"
  by (cases "map_of d k"; cases "get d k") (auto simp: get_def)

lemma hostile_cong:
  assumes url: "\<And>k u. k \<in> set ota_explicit_keys \<union> set ota_url_keys \<Longrightarrow> map_of c k = Some u \<Longrightarrow> is_http_url u \<Longrightarrow> map_of d k = Some u"
    and sib: "\<And>k. k \<in> set ota_sibling_keys \<Longrightarrow> has_key c k \<Longrightarrow> has_key d k"
    and cmd: "\<And>e. map_of c ''user_cmd'' = Some (PDict e) \<Longrightarrow> has_key e ''run_cmd'' \<Longrightarrow>
       \<exists>e'. map_of d ''user_cmd'' = Some (PDict e') \<and> has_key e' ''run_cmd''"
    and bad: "hostile pol c"
  shows "hostile pol d"
proof -
  have same: "is_http_url (get c k) \<Longrightarrow> get d k = get c k" if "k \<in> set ota_explicit_keys \<union> set ota_url_keys" for k
    using get_text [of c k] url [OF that] by (auto simp: get_def)
  have "runs_command c \<Longrightarrow> runs_command d"
    using cmd by (fastforce simp: runs_command_def get_def split: option.splits pyval.splits)
  moreover have "ota_key d \<noteq> None" if "ota_key c \<noteq> None"
  proof -
    from that consider k where "k \<in> set ota_explicit_keys" "is_http_url (get c k)"
      | k where "k \<in> set ota_url_keys" "firmware_url c k"
      unfolding ota_key_iff by blast
    then show ?thesis
    proof cases
      case 1
      then show ?thesis using same [of k] unfolding ota_key_iff by (intro disjI1 bexI [of _ k]) auto
    next
      case 2
      then have "list_ex (has_key d) ota_sibling_keys"
        using sib unfolding firmware_url_def list_ex_iff by blast
      then have "firmware_url d k" using same [of k] 2 by (simp add: firmware_url_def)
      then show ?thesis using 2(1) unfolding ota_key_iff by blast
    qed
  qed
  ultimately show ?thesis using bad unfolding hostile_def by blast
qed

interpretation hostile: guard "hostile pol" w fr rd pol for w fr rd pol
proof
  fix path d out p o1 n c t o2
  assume r: "match_rce pol path d out = None" "match_ota_shape pol path d out = None"
    "rewrite w pol path d out = Inr (p, o1)" "walk_members (walk w fr pol n) path p o1 = Inr (c, t, o2)"
    and p: "keys_distinct p"
  show "\<not> hostile pol c"
  proof
    assume "hostile pol c"
    then have "hostile pol d"
    proof (rule hostile_cong [rotated 3])
      fix k u assume k: "k \<in> set ota_explicit_keys \<union> set ota_url_keys" "map_of c k = Some u" "is_http_url u"
      then have "map_of p k = Some u" using members_lookup [OF r(4) p k(2)] walked_url by blast
      then show "map_of d k = Some u" using rewrite_lookup [OF r(3), of k] hostile_keys [of k] k(1) by auto
    next
      fix k assume k: "k \<in> set ota_sibling_keys" "has_key c k"
      then have "has_key p k" using members_keys [OF r(4)] by blast
      then show "has_key d k" using rewrite_lookup [OF r(3), of k] hostile_keys [of k] k(1) by (auto simp: key_lookup)
    next
      fix e assume e: "map_of c ''user_cmd'' = Some (PDict e)" "has_key e ''run_cmd''"
      then obtain v q y z where v: "map_of p ''user_cmd'' = Some v" "walk w fr pol n q False v y = Inr (Some (PDict e), z)"
        using members_lookup [OF r(4) p] by blast
      then obtain e' where e': "v = PDict e'" "set (map fst e) \<subseteq> set (map fst e') \<union> rewritten_keys"
        using walk_origin [OF v(2)] by auto
      then have "has_key e' ''run_cmd''" using e(2) hostile_keys [of "''run_cmd''"] by blast
      moreover have "map_of d ''user_cmd'' = Some (PDict e')"
        using rewrite_lookup [OF r(3), of "''user_cmd''"] hostile_keys [of "''user_cmd''"] v(1) e'(1) by simp
      ultimately show "\<exists>e'. map_of d ''user_cmd'' = Some (PDict e') \<and> has_key e' ''run_cmd''" by blast
    qed
    then show False using not_hostile [OF r(1,2)] by blast
  qed
next
  fix d e assume a: "unchanged (PDict d) (PDict e)" "well_keyed (PDict d)" "well_keyed (PDict e)" "hostile pol e"
  have "keys_distinct d" "keys_distinct e" using a(2,3) by simp_all
  note l = lookup_unchanged [OF a(1) this]
  show "hostile pol d"
  proof (rule hostile_cong [OF _ _ _ a(4)])
    fix k u assume "map_of e k = Some u" "is_http_url u"
    moreover from this obtain s where s: "u = PStr s" by (cases u) auto
    ultimately obtain v where v: "map_of d k = Some v" "unchanged v (PStr s)" using l(3) [of k u] by blast
    have "v = PStr s" using v(2) by (rule unchanged_text(1) [THEN iffD1])
    with v(1) show "map_of d k = Some u" by (simp only: s)
  next
    fix x assume x: "map_of e ''user_cmd'' = Some (PDict x)" "has_key x ''run_cmd''"
    then obtain v where v: "map_of d ''user_cmd'' = Some v" "unchanged v (PDict x)" using l(3) by blast
    then obtain y where y: "v = PDict y" using unchanged_dict(1) by blast
    have "well_keyed (PDict x)" "well_keyed (PDict y)"
      using well_keyed_get [OF a(3), of "''user_cmd''"] well_keyed_get [OF a(2), of "''user_cmd''"] x(1) v(1)
      by (simp_all add: get_def y)
    then have "has_key y ''run_cmd''" using lookup_unchanged(1) [of y x "''run_cmd''"] v(2) x(2) y by simp
    then show "\<exists>e'. map_of d ''user_cmd'' = Some (PDict e') \<and> has_key e' ''run_cmd''" using v y by blast
  qed (use l(1) in blast)
next
  fix d :: pydict
  let ?r = "map (\<lambda>kv. (fst kv, reread rd (snd kv))) d"
  have l: "map_of ?r k = map_option (reread rd) (map_of d k)" for k by (rule reread_lookup)
  assume "hostile pol ?r"
  then show "hostile pol d"
  proof (rule hostile_cong [rotated 3])
    fix k u assume "map_of ?r k = Some u" "is_http_url u"
    then obtain v where v: "map_of d k = Some v" "u = reread rd v" using l [of k] by auto
    then show "map_of d k = Some u" using \<open>is_http_url u\<close> by (cases v) auto
  next
    fix k assume "has_key ?r k"
    then show "has_key d k" by (simp only: reread_keys)
  next
    fix e assume e: "map_of ?r ''user_cmd'' = Some (PDict e)" "has_key e ''run_cmd''"
    then obtain v where v: "map_of d ''user_cmd'' = Some v" "PDict e = reread rd v" using l by auto
    then show "\<exists>e'. map_of d ''user_cmd'' = Some (PDict e') \<and> has_key e' ''run_cmd''"
      using e(2) by (cases v) (auto simp del: reread_keys simp: comp_def image_image)
  qed
qed


section \<open>The device's addresses stay ours\<close>

text \<open>The texts we send the device do not themselves encode an object.\<close>

definition plain_texts :: "redaction_policy \<Rightarrow> device \<Rightarrow> bool" where
  "plain_texts pol d \<longleftrightarrow>
     list_all (\<lambda>s. \<not> looks_encoded s)
       [pol_api_url pol, resolve_mqtt_host d (pol_mqtt_host pol), mqtt_product_key d, mqtt_device_name d,
        mqtt_device_secret d]"

definition differs :: "pydict \<Rightarrow> pydict \<Rightarrow> bool" where
  "differs ours d \<longleftrightarrow> list_ex (\<lambda>(k, v). has_key d k \<and> map_of d k \<noteq> Some v) ours"

definition repointed :: "redaction_policy \<Rightarrow> pydict \<Rightarrow> bool" where
  "repointed pol d \<longleftrightarrow>
     (case pol_device pol of
        None \<Rightarrow> False
      | Some dev \<Rightarrow> plain_texts pol dev \<and>
          (differs (our_servers pol) d \<or> names_broker d \<and> differs (our_broker pol dev) d))"

fun text_list :: "pyval \<Rightarrow> bool" where
  "text_list (PStr s) \<longleftrightarrow> \<not> looks_encoded s"
| "text_list (PList vs) \<longleftrightarrow> list_all text_list vs"
| "text_list _ \<longleftrightarrow> False"

lemma looks_plain [simp]: "\<not> looks_encoded []"
  by (simp add: looks_encoded_def str_lstrip_def)

lemma our_values_text:
  assumes "plain_texts pol dev" "(k, v) \<in> set (our_servers pol) \<union> set (our_broker pol dev)"
  shows "text_list v"
  using assms by (auto simp: plain_texts_def our_servers_value our_broker_def)

lemma items_same:
  assumes "\<And>v p o1 g o2. v \<in> set vs \<Longrightarrow> wk p True v o1 = Inr (g, o2) \<Longrightarrow> g = Some v"
    and "walk_items wk path i vs out = Inr (cleaned, out')"
  shows "cleaned = vs"
  using assms
proof (induction vs arbitrary: i cleaned out)
  case (Cons v vs)
  from Cons.prems(2) show ?case
  proof (rule walk_items_Cons)
    fix got o1 rest
    assume w: "wk (path @ ''['' @ nat_text i @ '']'') True v out = Inr (got, o1)"
      "walk_items wk path (Suc i) vs o1 = Inr (rest, out')"
      "cleaned = (case got of Some g \<Rightarrow> g # rest | None \<Rightarrow> rest)"
    have "got = Some v" using Cons.prems(1) w(1) by auto
    moreover have "rest = vs" using Cons.IH [OF Cons.prems(1) w(2)] by auto
    ultimately show ?thesis using w(3) by simp
  qed
qed simp

lemma walk_text_list: "text_list v \<Longrightarrow> walk w fr pol n path il v out = Inr (g, o') \<Longrightarrow> g = Some v"
proof (induction n arbitrary: path il v out g o')
  case (Suc n)
  show ?case
  proof (cases v)
    case (PStr s)
    then show ?thesis using Suc.prems by (simp add: walk_json_string_def encoded_value_def)
  next
    case (PList vs)
    then obtain c where c: "walk_items (walk w fr pol n) path 0 vs out = Inr (c, o')" "g = Some (PList c)"
      using Suc.prems(2) by (cases "walk_items (walk w fr pol n) path 0 vs out") auto
    have "c = vs"
      using c(1) by (rule items_same [rotated]) (use Suc.IH Suc.prems(1) PList in \<open>auto simp: list_all_iff\<close>)
    then show ?thesis using c(2) PList by simp
  qed (use Suc.prems in auto)
qed simp

lemma differs_cong:
  assumes "\<And>k v x. (k, v) \<in> set ours \<Longrightarrow> map_of c k = Some x \<Longrightarrow> x \<noteq> v \<Longrightarrow> \<exists>y. map_of d k = Some y \<and> y \<noteq> v"
  shows "differs ours c \<Longrightarrow> differs ours d"
  using assms unfolding differs_def list_ex_iff
  by (fastforce simp: key_lookup)

lemma names_broker_mono: "(\<And>k. has_key c k \<Longrightarrow> has_key d k) \<Longrightarrow> names_broker c \<Longrightarrow> names_broker d"
  unfolding names_broker_def list_all_iff by blast

lemma text_list_unchanged: "unchanged u v \<Longrightarrow> text_list u \<Longrightarrow> v = u"
proof (induction u arbitrary: v rule: text_list.induct)
  case (1 s)
  from 1(1) show ?case by (rule unchanged_text(2) [THEN iffD1])
next
  case (2 us)
  then obtain vs where vs: "v = PList vs" by (cases v) auto
  then have "length vs = length us" and each: "i < length us \<Longrightarrow> unchanged (us ! i) (vs ! i)" for i
    using 2(2) by (simp_all add: list_all2_conv_all_nth)
  moreover have "vs ! i = us ! i" if "i < length us" for i
    using 2(1) [of "us ! i"] each [OF that] 2(3) that by (simp add: list_all_length)
  ultimately show ?case by (simp add: vs nth_equalityI)
qed (simp_all add: unchanged_text)

lemma text_list_reread: "text_list u \<Longrightarrow> reread rd u = u"
  by (induction u rule: text_list.induct) (auto simp: list_all_iff intro!: map_idI)

lemma has_lookup: "has_key x k \<longleftrightarrow> map_of x k \<noteq> None"
  by (simp add: map_of_eq_None_iff)

lemma rewrite_addresses:
  assumes "rewrite w pol path d out = Inr (p, o1)" "pol_device pol = Some dev"
  shows "\<not> differs (our_servers pol) p" "names_broker p \<Longrightarrow> \<not> differs (our_broker pol dev) p"
proof -
  have "\<not> differs (our_servers pol) p \<and> (names_broker p \<longrightarrow> \<not> differs (our_broker pol dev) p)"
    using assms(1)
  proof (rule rewrite_parts)
    fix n1 o1 n2 o2 n3 o3 n4 o4 n5 o5 o6
    assume s: "match_server pol path d out = (n1, o1)" "match_mqtt pol path n1 o1 = (n2, o2)"
      "match_oss_sts pol path n2 o2 = Inr (n3, o3)" "match_cvr_capacity w pol path n3 o3 = Inr (n4, o4)"
      "match_secret pol path n4 o4 = (n5, o5)" "match_locale w pol path n5 o5 = (p, o6)"
    let ?keys = "set (map fst (our_servers pol)) \<union> set (map fst (our_broker pol dev))"
    have p: "map_of p k = map_of n2 k" if "k \<in> ?keys" for k
      using that sts_lookup [OF s(3), of k] cvr_lookup [OF s(4), of k] secret_lookup [OF s(5), of k] locale_lookup [OF s(6), of k]
      by (auto simp: our_servers_value our_broker_def)
    have has: "has_key p k \<longleftrightarrow> has_key n1 k" if "k \<in> ?keys" for k
    proof -
      have "map_of n2 k \<noteq> None \<longleftrightarrow> map_of n1 k \<noteq> None"
        unfolding broker_lookup [OF s(2) assms(2), of k] has_lookup by presburger
      then show ?thesis using p [OF that] by (simp only: has_lookup)
    qed
    have "map_of p k = Some v" if v: "(k, v) \<in> set (our_servers pol)" "has_key p k" for k v
    proof -
      have k: "k \<in> ?keys" "has_key (our_servers pol) k" "\<not> has_key (our_broker pol dev) k"
        "map_of (our_servers pol) k = Some v"
        using v(1) by (auto simp: our_servers_value our_broker_def)
      have "has_key d k"
      proof (rule ccontr)
        assume "\<not> has_key d k"
        then have "map_of n1 k = None" using server_lookup [OF s(1), of k] by (simp only: has_lookup) simp
        then show False using has [OF k(1)] v(2) by (simp only: has_lookup) simp
      qed
      then have "map_of n1 k = Some v" using server_lookup [OF s(1), of k] k assms(2) by simp
      then show ?thesis using p [OF k(1)] broker_lookup [OF s(2) assms(2), of k] k(3) by simp
    qed
    moreover have "map_of p k = Some v"
      if v: "names_broker p" "(k, v) \<in> set (our_broker pol dev)" "has_key p k" for k v
    proof -
      have k: "k \<in> ?keys" "has_key (our_broker pol dev) k" "map_of (our_broker pol dev) k = Some v"
        using v(2) by (auto simp: our_broker_def)
      have "names_broker n1"
        using v(1) has unfolding names_broker_def list_all_iff by (simp add: our_broker_def mqtt_cred_keys_def)
      then show ?thesis
        using p [OF k(1)] broker_lookup [OF s(2) assms(2), of k] k(2,3) has [OF k(1)] v(3) by simp
    qed
    ultimately show ?thesis by (auto simp: differs_def list_ex_iff simp del: set_map)
  qed
  then show "\<not> differs (our_servers pol) p" "names_broker p \<Longrightarrow> \<not> differs (our_broker pol dev) p" by blast+
qed


interpretation addresses: guard "repointed pol" w fr rd pol for w fr rd pol
proof
  fix path d out p o1 n c t o2
  assume r: "rewrite w pol path d out = Inr (p, o1)" "walk_members (walk w fr pol n) path p o1 = Inr (c, t, o2)"
    and p: "keys_distinct p"
  show "\<not> repointed pol c"
  proof
    assume c: "repointed pol c"
    then obtain dev where dev: "pol_device pol = Some dev" "plain_texts pol dev"
      "differs (our_servers pol) c \<or> names_broker c \<and> differs (our_broker pol dev) c"
      by (auto simp: repointed_def split: option.splits)
    have step: "\<exists>y. map_of p k = Some y \<and> y \<noteq> v"
      if x: "(k, v) \<in> set (our_servers pol) \<union> set (our_broker pol dev)" "map_of c k = Some x" "x \<noteq> v" for k v x
    proof -
      obtain y q a b where y: "map_of p k = Some y" "walk w fr pol n q False y a = Inr (Some x, b)"
        using members_lookup [OF r(2) p x(2)] by blast
      have "y \<noteq> v" using walk_text_list [OF our_values_text [OF dev(2) x(1)]] y(2) x(3) by blast
      then show ?thesis using y(1) by blast
    qed
    have "differs (our_servers pol) c \<Longrightarrow> differs (our_servers pol) p"
      by (rule differs_cong [of "our_servers pol" "c"]) (rule step; simp)
    moreover have "differs (our_broker pol dev) c \<Longrightarrow> differs (our_broker pol dev) p"
      by (rule differs_cong [of "our_broker pol dev" "c"]) (rule step; simp)
    moreover have "names_broker c \<Longrightarrow> names_broker p"
      using names_broker_mono [of c p] members_keys [OF r(2)] by blast
    ultimately show False using rewrite_addresses [OF r(1) dev(1)] dev(3) by blast
  qed
next
  fix d e assume a: "unchanged (PDict d) (PDict e)" "well_keyed (PDict d)" "well_keyed (PDict e)" "repointed pol e"
  have "keys_distinct d" "keys_distinct e" using a(2,3) by simp_all
  note l = lookup_unchanged [OF a(1) this]
  obtain dev where dev: "pol_device pol = Some dev" "plain_texts pol dev"
    "differs (our_servers pol) e \<or> names_broker e \<and> differs (our_broker pol dev) e"
    using a(4) by (auto simp: repointed_def split: option.splits)
  have step: "\<exists>y. map_of d k = Some y \<and> y \<noteq> v"
    if "(k, v) \<in> set (our_servers pol) \<union> set (our_broker pol dev)" "map_of e k = Some x" "x \<noteq> v" for k v x
    using l(3) [OF that(2)] text_list_unchanged [OF _ our_values_text [OF dev(2) that(1)]] that(3) by blast
  have "differs (our_servers pol) e \<Longrightarrow> differs (our_servers pol) d"
    by (rule differs_cong [of "our_servers pol" "e"]) (rule step; simp)
  moreover have "differs (our_broker pol dev) e \<Longrightarrow> differs (our_broker pol dev) d"
    by (rule differs_cong [of "our_broker pol dev" "e"]) (rule step; simp)
  moreover have "names_broker e \<Longrightarrow> names_broker d"
    using names_broker_mono [of e d] l(1) by blast
  ultimately show "repointed pol d" using dev by (auto simp: repointed_def)
next
  fix d :: pydict
  let ?r = "map (\<lambda>kv. (fst kv, reread rd (snd kv))) d"
  assume "repointed pol ?r"
  then obtain dev where dev: "pol_device pol = Some dev" "plain_texts pol dev"
    "differs (our_servers pol) ?r \<or> names_broker ?r \<and> differs (our_broker pol dev) ?r"
    by (auto simp: repointed_def split: option.splits)
  have step: "\<exists>y. map_of d k = Some y \<and> y \<noteq> v"
    if x: "(k, v) \<in> set (our_servers pol) \<union> set (our_broker pol dev)" "map_of ?r k = Some x" "x \<noteq> v" for k v x
  proof -
    obtain y where "map_of d k = Some y" "x = reread rd y" using x(2) unfolding reread_lookup by auto
    then show ?thesis using text_list_reread [OF our_values_text [OF dev(2) x(1)]] x(3) by metis
  qed
  have "differs (our_servers pol) ?r \<Longrightarrow> differs (our_servers pol) d"
    by (rule differs_cong [of "our_servers pol" "?r"]) (rule step; simp)
  moreover have "differs (our_broker pol dev) ?r \<Longrightarrow> differs (our_broker pol dev) d"
    by (rule differs_cong [of "our_broker pol dev" "?r"]) (rule step; simp)
  moreover have "names_broker ?r \<Longrightarrow> names_broker d"
    using names_broker_mono [of ?r d] by (simp only: reread_keys)
  ultimately show "repointed pol d" using dev by (auto simp: repointed_def)
qed


section \<open>Properties\<close>

text \<open>The texts we answer log endpoints with, besides \<open>plain_texts\<close>.\<close>

definition plain_answers :: "redaction_policy \<Rightarrow> bool" where
  "plain_answers pol \<longleftrightarrow> \<not> looks_encoded (pol_api_url pol) \<and>
     (case split_bucket_authority (pol_bucket_endpoint pol) of
        Some (b, e) \<Rightarrow> \<not> looks_encoded b \<and> \<not> looks_encoded e
      | None \<Rightarrow> True)"

lemma plain_text_clean: "\<not> looks_encoded s \<Longrightarrow> \<not> occurs bad (PStr s)"
  by (simp add: occurs_text encoded_value_def)

lemma starts_plain: "c \<notin> {CHR ''{'', CHR ''[''} \<Longrightarrow> \<not> is_space c \<Longrightarrow> \<not> looks_encoded (c # t)"
  by (simp add: looks_encoded_def str_lstrip_def)

fun tame :: "string set \<Rightarrow> pyval \<Rightarrow> bool" where
  "tame ks (PStr s) \<longleftrightarrow> \<not> looks_encoded s"
| "tame ks (PList vs) \<longleftrightarrow> list_all (tame ks) vs"
| "tame ks (PDict d) \<longleftrightarrow> set (map fst d) \<subseteq> ks \<and> list_all (\<lambda>kv. tame ks (snd kv)) d"
| "tame ks v \<longleftrightarrow> True"

lemma tame_clean:
  "tame ks v \<Longrightarrow> (\<And>d. set (map fst d) \<subseteq> ks \<Longrightarrow> \<not> bad d) \<Longrightarrow> \<not> occurs bad v"
proof (induction ks v rule: tame.induct)
  case (2 ks vs)
  then show ?case by (auto simp: occurs_list list_all_iff)
next
  case (3 ks d)
  then have "\<not> bad d" by simp
  moreover have "\<not> occurs bad x" if "(k, x) \<in> set d" for k x
    using 3 that by (auto simp: list_all_iff)
  ultimately show ?case by (auto simp: occurs_dict)
qed (simp_all add: plain_text_clean)

definition answer_keys :: "string set" where
  "answer_keys =
     {''result'', ''type'', ''key'', ''data'', ''token'', ''bucketName'', ''pathPrefix'', ''endPoint'', ''secret'', ''keyId''}"

lemma own_answers_tame:
  assumes "plain_answers pol"
  shows "tame answer_keys ota_check_empty" "tame answer_keys (fst (log_upload_answer name pol))"
  using assms
  by (auto simp: ota_check_empty_def result_body_def answer_keys_def log_upload_answer_def log_upload_done_def
      log_upload_empty_def to_log_upload_token_def plain_answers_def Let_def device_log_key_prefix_def
      is_space_def char_in_def starts_plain split: option.splits)

lemma serverinfo_tame:
  "plain_answers pol \<Longrightarrow> tame (answer_keys \<union> {''apiServers'', ''ipServers'', ''dns'', ''pimServers'', ''linked'', ''nextTick''})
     (result_body (to_serverinfo (pol_api_url pol)))"
  by (simp add: result_body_def to_serverinfo_def answer_keys_def plain_answers_def)

lemma tame_mono: "tame ks v \<Longrightarrow> ks \<subseteq> ls \<Longrightarrow> tame ls v"
  by (induction v rule: tame.induct) (auto simp: list_all_iff)

lemma keys_not_hostile:
  assumes "set (map fst d) \<subseteq> answer_keys \<union> {''apiServers'', ''ipServers'', ''dns'', ''pimServers'', ''linked'', ''nextTick''}"
  shows "\<not> hostile pol d"
proof -
  have none: "map_of d k = None" if "k \<in> {''user_cmd''} \<union> set ota_explicit_keys \<union> set ota_url_keys" for k
    using that assms by (auto simp: map_of_eq_None_iff answer_keys_def ota_explicit_keys_def ota_url_keys_def)
  then have "\<not> runs_command d" by (simp add: runs_command_def get_def)
  moreover have "ota_key d = None"
    using none ota_key_iff [of d] by (auto simp: firmware_url_def get_def)
  ultimately show ?thesis by (simp add: hostile_def)
qed

lemma keys_not_repointed:
  assumes "set (map fst d) \<subseteq> answer_keys" shows "\<not> repointed pol d"
proof -
  have "\<not> has_key d k" if "k \<in> {''apiServers'', ''ipServers'', ''dns'', ''mqttHost'', ''productKey''}" for k
    using that assms by (auto simp: answer_keys_def)
  then have "\<not> differs (our_servers pol) d" "\<not> names_broker d"
    by (simp_all add: differs_def our_servers_value names_broker_def mqtt_cred_keys_def del: set_map)
  then show ?thesis by (simp add: repointed_def split: option.splits)
qed

text \<open>
  C1: what the redactor sends for a body it can decode holds no command to run and no firmware that the
  policy blocks: neither in the body, nor under it, nor in any text in it that decodes to an object,
  given that our own addresses are plain texts. A body it cannot decode is sent as it came, with nothing
  recorded.
\<close>

theorem nothing_hostile_is_sent:
  assumes "float_texts fr rd" and "policy_ok pol" and "plain_answers pol"
    and "redact_body w fr n endpoint pol body = Inr (t, out)"
  shows "if decode_body body = Inr None then t = body \<and> out = nothing_yet
    else \<exists>v. json_loads t = Inr v \<and> \<not> occurs (hostile pol) v"
proof (rule hostile.body_sent [OF assms(1,2) _ _ _ _ assms(4)])
  let ?ks = "answer_keys \<union> {''apiServers'', ''ipServers'', ''dns'', ''pimServers'', ''linked'', ''nextTick''}"
  have clean: "tame ?ks v \<Longrightarrow> \<not> occurs (hostile pol) v" for v
    using tame_clean keys_not_hostile by blast
  have wide: "tame answer_keys v \<Longrightarrow> tame ?ks v" for v
    by (erule tame_mono) blast
  show "\<not> occurs (hostile pol) ota_check_empty"
    using own_answers_tame(1) [OF assms(3)] by (intro clean wide)
  show "\<not> occurs (hostile pol) (fst (log_upload_answer (last_segment endpoint) pol))"
    using own_answers_tame(2) [OF assms(3)] by (intro clean wide)
  show "\<not> occurs (hostile pol) (result_body (to_serverinfo (pol_api_url pol)))"
    using serverinfo_tame [OF assms(3)] by (rule clean)
next
  fix c assume "hostile pol (c @ [(''result'', PDict [])])"
  then show "hostile pol c"
    by (rule hostile_cong [rotated 3])
      (auto simp: map_add_def ota_explicit_keys_def ota_url_keys_def ota_sibling_keys_def split: option.splits)
qed

text \<open>
  C2: for a device the policy knows, whose credentials and addresses are plain texts, what the redactor
  sends for a body it can decode keeps the device ours: wherever in it, under it or in a text in it that
  decodes to an object servers or a broker are named, they are our own. A body it cannot decode is sent as
  it came.
\<close>

theorem addresses_stay_ours:
  assumes "float_texts fr rd" and "policy_ok pol" and "plain_answers pol"
    and "pol_device pol = Some dev" and "plain_texts pol dev"
    and "redact_body w fr n endpoint pol body = Inr (t, out)"
  shows "if decode_body body = Inr None then t = body \<and> out = nothing_yet
    else \<exists>v. json_loads t = Inr v \<and>
      \<not> occurs (\<lambda>d. differs (our_servers pol) d \<or> names_broker d \<and> differs (our_broker pol dev) d) v"
proof -
  have r: "repointed pol = (\<lambda>d. differs (our_servers pol) d \<or> names_broker d \<and> differs (our_broker pol dev) d)"
    using assms(4,5) by (auto simp: repointed_def)
  have "if decode_body body = Inr None then t = body \<and> out = nothing_yet
    else \<exists>v. json_loads t = Inr v \<and> \<not> occurs (repointed pol) v"
  proof (rule addresses.body_sent [OF assms(1,2) _ _ _ _ assms(6)])
    have clean: "tame answer_keys v \<Longrightarrow> \<not> occurs (repointed pol) v" for v
      using tame_clean keys_not_repointed by blast
    show "\<not> occurs (repointed pol) ota_check_empty"
      using own_answers_tame(1) [OF assms(3)] by (rule clean)
    show "\<not> occurs (repointed pol) (fst (log_upload_answer (last_segment endpoint) pol))"
      using own_answers_tame(2) [OF assms(3)] by (rule clean)
    have "\<not> repointed pol (to_serverinfo (pol_api_url pol))"
      by (simp add: r differs_def our_servers_value to_serverinfo_def names_broker_def mqtt_cred_keys_def)
    moreover have "\<not> repointed pol [(''result'', x)]" for x
      by (intro keys_not_repointed) (simp add: answer_keys_def)
    ultimately show "\<not> occurs (repointed pol) (result_body (to_serverinfo (pol_api_url pol)))"
      using assms(3) plain_text_clean [of "[]"]
      by (auto simp: result_body_def occurs_dict to_serverinfo_def occurs_list plain_answers_def dest: plain_text_clean [THEN notE])
  next
    fix c assume c: "repointed pol (c @ [(''result'', PDict [])])"
    have look: "map_of (c @ [(''result'', PDict [])]) k = map_of c k" if "k \<noteq> ''result''" for k
      using that by (auto simp: map_add_def split: option.splits)
    have has: "has_key (c @ [(''result'', PDict [])]) k \<longleftrightarrow> has_key c k" if "k \<noteq> ''result''" for k
      using that by simp
    show "repointed pol c"
      using c by (simp add: r differs_def our_servers_value our_broker_def names_broker_def mqtt_cred_keys_def look has del: map_of_append map_append)
  qed
  then show ?thesis by (simp only: r)
qed

end
