(* ===== verification/Redact_Ends.thy ===== *)
theory Redact_Ends
  imports Redact_Guard
begin

text \<open>
  The redactor on concrete bodies: the witnesses of its guarantees, the bodies it lets through
  because it cannot read them, the levels a walk needs, and a locale for which no number of them is enough.
\<close>

section \<open>A policy and a body\<close>

definition sample_policy :: redaction_policy where
  "sample_policy =
     \<lparr>pol_device = Some sample_device, pol_api_url = ''http://10.0.0.2:8080'', pol_mqtt_host = ''10.0.0.2'',
      pol_bucket_endpoint = ''http://10.0.0.2:9000'', pol_aes_key = [], pol_block_rce = True, pol_block_ota = True,
      pol_block_log_upload = True, pol_media_to_real_oss = False, pol_local_cvr_window = False\<rparr>"

text \<open>A heartbeat entry that carries a command in an encoded text, and the cloud's server list.\<close>

definition command_text :: string where
  "command_text = CHR ''{'' # json_quote ''user_cmd'' @ '':{'' @ json_quote ''run_cmd'' @ '':1}}''"

definition sample_body :: string where
  "sample_body =
     ''[{'' @ json_quote ''c'' @ '':'' @ json_quote command_text @ ''},{'' @ json_quote ''dns'' @ '':1}]''"

definition cleaned_body :: string where
  "cleaned_body = ''[{'' @ json_quote ''dns'' @ '': '' @ json_quote [] @ ''}]''"

lemma sample_redacted:
  "case redact_body sample_surroundings half_text 9 ''/x'' sample_policy sample_body of
     Inr (t, out) \<Rightarrow> t = cleaned_body \<and> map rd_rule (out_records out) = [''rce'', ''server''] | Inl e \<Rightarrow> False"
  by code_simp


lemma sample_sent: "\<exists>out. redact_body sample_surroundings half_text 9 ''/x'' sample_policy sample_body = Inr (cleaned_body, out)"
  using sample_redacted by (auto split: sum.splits)

lemma sample_decoded: "\<exists>data. decode_body sample_body = Inr (Some data)"
proof -
  have "case decode_body sample_body of Inr (Some data) \<Rightarrow> True | _ \<Rightarrow> False" by code_simp
  then show ?thesis by (auto split: sum.splits option.splits)
qed

lemma sample_plain: "policy_ok sample_policy" "plain_answers sample_policy" "plain_texts sample_policy sample_device"
proof -
  have "config_or sample_device ''locale'' (PStr []) = PStr []" by code_simp
  then show "policy_ok sample_policy" by (simp add: policy_ok_def sample_policy_def)
  show "plain_answers sample_policy" "plain_texts sample_policy sample_device" by code_simp+
qed

lemma nothing_hostile_is_sent_witness:
  "\<exists>v. json_loads cleaned_body = Inr v \<and> \<not> occurs (hostile sample_policy) v"
proof -
  obtain out data where "redact_body sample_surroundings half_text 9 ''/x'' sample_policy sample_body = Inr (cleaned_body, out)"
    "decode_body sample_body = Inr (Some data)"
    using sample_sent sample_decoded by blast
  then show ?thesis using nothing_hostile_is_sent [OF half_texts sample_plain(1,2)] by fastforce
qed

lemma addresses_stay_ours_witness:
  "\<exists>v. json_loads cleaned_body = Inr v \<and>
    \<not> occurs (\<lambda>d. differs (our_servers sample_policy) d \<or>
       names_broker d \<and> differs (our_broker sample_policy sample_device) d) v"
proof -
  obtain out data where sent: "redact_body sample_surroundings half_text 9 ''/x'' sample_policy sample_body = Inr (cleaned_body, out)"
    and data: "decode_body sample_body = Inr (Some data)"
    using sample_sent sample_decoded by blast
  have "pol_device sample_policy = Some sample_device" by (simp add: sample_policy_def)
  from addresses_stay_ours [OF half_texts sample_plain(1,2) this sample_plain(3) sent] show ?thesis
    using data by (simp del: our_tables)
qed

section \<open>What cannot be read is not redacted\<close>

lemma long_int_value:
  assumes "max_str_digits < length (nat_text (nat \<bar>n\<bar>))"
  obtains c t where "int_text n = c # t" and "c \<noteq> CHR '']''" and "\<not> json_space c"
    and "\<And>k. json_value (Suc k) (c # t @ CHR '','' # rest) = Inl Int_digits"
proof -
  obtain c t where c: "int_text n = c # t" "c = CHR ''-'' \<or> is_digit c"
    using int_text_first [of n] by (elim exE conjE disjE) auto
  have "json_value (Suc k) (c # t @ CHR '','' # rest) = Inl Int_digits" for k
    using scalar_value [OF c(2), of k "t @ CHR '','' # rest"] scalar_too_long [OF assms, of "CHR '','' # rest"]
    by (simp add: c(1) del: json_value.simps)
  moreover have "c \<noteq> CHR '']''" "\<not> json_space c"
    using c(2) by (auto simp: is_digit_def json_space_def)
  ultimately show thesis using c(1) by (intro that)
qed

lemma long_int_unread:
  assumes "max_str_digits < length (nat_text (nat \<bar>n\<bar>))"
  shows "json_loads (CHR ''['' # int_text n @ CHR '','' # rest) = Inl Int_digits"
proof -
  obtain c t where c: "int_text n = c # t" "c \<noteq> CHR '']''" "\<not> json_space c"
    and v: "\<And>k. json_value (Suc k) (c # t @ CHR '','' # rest) = Inl Int_digits"
    using long_int_value [OF assms] by blast
  let ?x = "c # t @ CHR '','' # rest"
  have ws: "json_ws ?x = ?x" using c(3) by (simp add: json_ws_def)
  obtain k where k: "2 * length (CHR ''['' # ?x) = Suc (Suc k)" by simp
  have "json_elements (Suc (Suc k)) [] ?x = Inl Int_digits" using v [of k] by (simp del: json_value.simps)
  then have "json_value (Suc (Suc (Suc k))) (CHR ''['' # ?x) = Inl Int_digits"
    using ws c(2) by (simp add: quote_def del: json_elements.simps)
  then show ?thesis
    unfolding json_loads_def c(1) append.simps k by (simp add: json_space_def json_ws_def del: json_value.simps)
qed

lemma long_member_unread:
  assumes "max_str_digits < length (nat_text (nat \<bar>n\<bar>))"
  shows "json_loads (CHR ''{'' # json_quote key @ CHR '':'' # int_text n @ CHR '','' # rest) = Inl Int_digits"
proof -
  obtain c t where c: "int_text n = c # t" "\<not> json_space c"
    and v: "\<And>k. json_value (Suc k) (c # t @ CHR '','' # rest) = Inl Int_digits"
    using long_int_value [OF assms] by blast
  let ?x = "c # t @ CHR '','' # rest"
  let ?y = "concat (map escape_char key) @ quote # CHR '':'' # ?x"
  have y: "json_quote key @ CHR '':'' # int_text n @ CHR '','' # rest = quote # ?y"
    by (simp add: json_quote_def c(1))
  obtain m where m: "2 * length (CHR ''{'' # quote # ?y) = Suc (Suc m)"
    and len: "length (concat (map escape_char key)) < Suc m"
    by simp
  have ws: "json_ws (CHR '':'' # z) = CHR '':'' # z" "json_ws (quote # z) = quote # z"
      "json_ws (CHR ''{'' # z) = CHR ''{'' # z" "json_ws ?x = ?x" for z
    using c(2) by (simp_all add: json_ws_def json_space_def quote_def)
  have "json_value (Suc (Suc (Suc m))) (CHR ''{'' # quote # ?y) = Inl Int_digits"
  proof -
    have "json_string (Suc m) ?y = Inr (key, CHR '':'' # ?x)" using len by (rule string_read)
    then have "json_members (Suc (Suc m)) [] (quote # ?y) = Inl Int_digits"
      using v [of m] by (simp add: ws del: json_value.simps json_string.simps)
    then show ?thesis using ws(2) [of ?y] by (simp add: quote_def del: json_members.simps)
  qed
  then show ?thesis unfolding json_loads_def y m ws(3) by simp
qed

text \<open>
  C8: an array whose first element, or an object whose first value, is an integer of more digits than
  Python converts reaches the device as the cloud sent it, with whatever follows the number, and nothing
  is recorded.
\<close>

theorem long_number_bypasses_redaction:
  assumes "max_str_digits < length (nat_text (nat \<bar>n\<bar>))"
    and "body = CHR ''['' # int_text n @ CHR '','' # rest
      \<or> body = CHR ''{'' # json_quote key @ CHR '':'' # int_text n @ CHR '','' # rest"
  shows "redact_body w fr m endpoint pol body = Inr (body, nothing_yet)"
  using long_int_unread [OF assms(1), of rest] long_member_unread [OF assms(1), of key rest] assms(2)
  by (auto simp: redact_body_def decode_body_def)

lemma nat_text_long: "10 ^ k \<le> n \<Longrightarrow> k < length (nat_text n)"
proof (induction k arbitrary: n)
  case (Suc k)
  then have "10 ^ k \<le> n div 10" by (simp add: less_eq_div_iff_mult_less_eq mult.commute)
  moreover have "\<not> n < 10"
    using Suc.prems by (metis leD le_less_trans one_le_power one_le_numeral mult_le_mono2 nat_mult_1_right power_Suc)
  ultimately show ?case using Suc.IH [of "n div 10"] by (subst nat_text.simps) simp
qed (simp add: nat_text_nonempty)

lemma long_number_bypasses_redaction_witness:
  "let body = CHR ''{'' # json_quote ''n'' @ CHR '':'' # int_text (10 ^ 4300) @ CHR '','' # tl command_text
   in redact_body sample_surroundings half_text 9 ''/x'' sample_policy body = Inr (body, nothing_yet)"
  unfolding Let_def
proof (rule long_number_bypasses_redaction)
  have abs: "nat \<bar>(10 :: int) ^ k\<bar> = 10 ^ k" for k by (simp add: nat_power_eq)
  show "max_str_digits < length (nat_text (nat \<bar>10 ^ 4300\<bar>))"
    unfolding max_str_digits_def abs by (rule nat_text_long) (rule order_refl)
qed (rule disjI2, rule refl)

section \<open>The walk ends\<close>

text \<open>
  The values a rule writes into an object. A value is inert when no rule rewrites it: its texts encode
  nothing, and its objects name nothing a rule looks for.
\<close>

definition our_values :: "surroundings \<Rightarrow> redaction_policy \<Rightarrow> pyval set" where
  "our_values w pol =
     (case pol_device pol of
        None \<Rightarrow> {}
      | Some d \<Rightarrow>
          set (map snd (our_servers pol)) \<union> set (map snd (our_broker pol d)) \<union> set (map snd (our_locale w d)) \<union>
          {PInt (petkit_id d)} \<union>
          (case to_oss_sts d (pol_bucket_endpoint pol) (pol_aes_key pol) of
             Inr sts \<Rightarrow> {get sts ''type'', get sts ''capability''} | Inl _ \<Rightarrow> {}) \<union>
          (case to_device_info w None d of
             Inr (info, _) \<Rightarrow> {get info ''capacity'', get info ''cloudProduct''} | Inl _ \<Rightarrow> {}))"

definition trigger_keys :: "string set" where
  "trigger_keys = {''apiServers'', ''ipServers'', ''dns'', ''mqttHost'', ''productKey'', ''capability'', ''capacity'',
     ''cloudProduct'', ''secret'', ''signupAt'', ''id'', ''sn''}"

fun inert :: "pyval \<Rightarrow> bool" where
  "inert (PStr s) \<longleftrightarrow> \<not> looks_encoded s"
| "inert (PList vs) \<longleftrightarrow> list_all inert vs"
| "inert (PDict d) \<longleftrightarrow> set (map fst d) \<inter> trigger_keys = {} \<and> list_all (\<lambda>kv. inert (snd kv)) d"
| "inert v \<longleftrightarrow> True"

lemma update_values: "(k, u) \<in> set (AList.update k' v d) \<Longrightarrow> u = v \<or> (k, u) \<in> set d"
  by (induction d) (auto split: if_splits)

lemma overwrite_values: "(k, u) \<in> set (overwrite_present ours d) \<Longrightarrow> u \<in> set (map snd ours) \<or> (k, u) \<in> set d"
proof (induction ours rule: rev_induct)
  case (snoc kv ours)
  then show ?case by (cases kv) (auto simp: overwrite_snoc split: if_splits dest!: update_values)
qed (simp add: overwrite_present_def)

lemma keep_values: "(k, u) \<in> set (fst (keep_ours path node (k', v) st)) \<Longrightarrow> u = v \<or> (k, u) \<in> set (fst st)"
  by (cases st) (auto simp: keep_ours_def split: if_splits dest!: update_values)

lemma swap_values: "(k, u) \<in> set (fst (swap_window key shape ours path note node st)) \<Longrightarrow>
    u = get ours key \<or> (k, u) \<in> set (fst st)"
  by (cases st) (auto simp: swap_window_def split: if_splits dest!: update_values)

lemma rewrite_values:
  assumes "rewrite w pol path d out = Inr (p, out')" "(k, u) \<in> set p"
  shows "u \<in> our_values w pol \<or> (k, u) \<in> set d"
  using assms(1)
proof (rule rewrite_parts)
  fix n1 o1 n2 o2 n3 o3 n4 o4 n5 o5
  assume s: "match_server pol path d out = (n1, o1)" "match_mqtt pol path n1 o1 = (n2, o2)"
    "match_oss_sts pol path n2 o2 = Inr (n3, o3)" "match_cvr_capacity w pol path n3 o3 = Inr (n4, o4)"
    "match_secret pol path n4 o4 = (n5, o5)" "match_locale w pol path n5 o5 = (p, out')"
  show ?thesis
  proof (cases "pol_device pol")
    case None
    then have "p = d" using s
      by (simp add: match_server_def match_mqtt_def match_oss_sts_def match_cvr_capacity_def match_secret_def match_locale_def)
    then show ?thesis using assms(2) by simp
  next
    case (Some dev)
    let ?V = "our_values w pol"
    note V = our_values_def [of w pol, unfolded Some, simplified]
    have 6: "(k, u) \<in> set n5 \<or> u \<in> ?V"
    proof (cases "about_us dev n5")
      case True
      then have "p = fst (keep_ours path n5 (''locale'', config_or dev ''locale'' (PStr []))
          (keep_ours path n5 (''timezone'', offset_of w dev) (n5, o5)))"
        using s(6) Some by (simp add: match_locale_def our_locale_def)
      then have "u = config_or dev ''locale'' (PStr []) \<or> u = offset_of w dev \<or> (k, u) \<in> set n5"
        using assms(2) by (auto dest!: keep_values)
      then show ?thesis by (auto simp: V our_locale_def)
    qed (use s(6) Some assms(2) in \<open>simp add: match_locale_def\<close>)
    have 5: "(k, u) \<in> set n4 \<or> u \<in> ?V" if "(k, u) \<in> set n5"
      using s(5) Some that by (auto simp: match_secret_def Let_def V split: pyval.splits if_splits dest!: update_values)
    have 4: "(k, u) \<in> set n3 \<or> u \<in> ?V" if "(k, u) \<in> set n4"
    proof (cases "\<not> is_camera dev \<or> \<not> pol_local_cvr_window pol")
      case False
      then obtain info d' where i: "to_device_info w None dev = Inr (info, d')"
        and n4: "n4 = fst (swap_window ''cloudProduct'' (is_window_product (get n3 ''cloudProduct'')) info path
           ''upstream cloudProduct window replaced with our standing one'' n3
           (swap_window ''capacity'' (is_window_list (get n3 ''capacity'')) info path
              ''upstream CVR window replaced with our standing one'' n3 (n3, o3)))"
        using s(4) Some unfolding match_cvr_capacity_def by (auto dest!: ebind_InrD)
      then show ?thesis using that by (auto simp: V dest!: swap_values)
    qed (use s(4) Some that in \<open>simp add: match_cvr_capacity_def\<close>)
    have 3: "(k, u) \<in> set n2 \<or> u \<in> ?V" if "(k, u) \<in> set n3"
      using s(3) Some that
      by (auto simp: match_oss_sts_def Let_def V split: if_splits dest!: ebind_InrD update_values)
    have "n2 = n1 \<or> n2 = overwrite_present (our_broker pol dev) n1"
      using s(2) Some unfolding match_mqtt_def by (simp split: if_splits)
    then have 2: "(k, u) \<in> set n1 \<or> u \<in> ?V" if "(k, u) \<in> set n2"
      using that by (auto simp: V dest!: overwrite_values)
    have "n1 = d \<or> n1 = overwrite_present (our_servers pol) d"
      using s(1) unfolding match_server_def by (simp only: prod.inject split: if_splits) blast+
    then have "(k, u) \<in> set d \<or> u \<in> ?V" if "(k, u) \<in> set n1"
      using that by (auto simp: V dest!: overwrite_values)
    then show ?thesis using 6 5 4 3 2 by blast
  qed
qed


text \<open>The parts of a value are smaller, and what a text encodes is smaller than the text.\<close>

lemma member_size: "(k, u) \<in> set d \<Longrightarrow> json_size u < json_size (PDict d)"
  using member_le_sum_list [of "json_size u" "map (\<lambda>kv. json_size (snd kv)) d"] by force

lemma element_size: "u \<in> set vs \<Longrightarrow> json_size u < json_size (PList vs)"
  using member_le_sum_list [of "json_size u" "map json_size vs"] by force

lemma encoded_size: "encoded_value s = Inr (Some v) \<Longrightarrow> json_size v < json_size (PStr s)"
  using encoded_container [of s v] loads_valid(2) [of s v] by simp

lemma members_end:
  "(\<And>k u q o1. (k, u) \<in> set d \<Longrightarrow> wk q False u o1 \<noteq> Inl Too_deep) \<Longrightarrow> walk_members wk path d out \<noteq> Inl Too_deep"
proof (induction d arbitrary: out)
  case (Cons kv d)
  obtain k v where kv: "kv = (k, v)" by (cases kv)
  have "wk (under path k) False v out \<noteq> Inl Too_deep" using Cons.prems [of k v] by (simp add: kv)
  moreover have "walk_members wk path d o1 \<noteq> Inl Too_deep" for o1
  proof (rule Cons.IH)
    fix k u q o2 assume "(k, u) \<in> set d"
    then show "wk q False u o2 \<noteq> Inl Too_deep" using Cons.prems [of k u] by simp
  qed
  ultimately show ?case by (auto simp: kv ebind_Inl_iff split: prod.splits option.splits)
qed simp

lemma items_end:
  "(\<And>u q o1. u \<in> set vs \<Longrightarrow> wk q True u o1 \<noteq> Inl Too_deep) \<Longrightarrow> walk_items wk path i vs out \<noteq> Inl Too_deep"
proof (induction vs arbitrary: i out)
  case (Cons v vs)
  have "wk (path @ ''['' @ nat_text i @ '']'') True v out \<noteq> Inl Too_deep" using Cons.prems [of v] by simp
  moreover have "walk_items wk path (Suc i) vs o1 \<noteq> Inl Too_deep" for o1
  proof (rule Cons.IH)
    fix u q o2 assume "u \<in> set vs"
    then show "wk q True u o2 \<noteq> Inl Too_deep" using Cons.prems [of u] by simp
  qed
  ultimately show ?case by (auto simp: ebind_Inl_iff split: prod.splits)
qed simp

lemma raised_end [simp]: "raised m \<noteq> Inl Too_deep"
  by (simp add: raised_def split: sum.splits)

lemma rewrite_end: "rewrite w pol path d out \<noteq> Inl Too_deep"
  by (auto simp: rewrite_def ebind_Inl_iff Let_def split: prod.splits)

lemma dict_end:
  assumes "\<And>p o1 k u q o2. rewrite w pol path d out = Inr (p, o1) \<Longrightarrow> (k, u) \<in> set p \<Longrightarrow> wk q False u o2 \<noteq> Inl Too_deep"
  shows "walk_dict w pol wk path il d out \<noteq> Inl Too_deep"
proof (cases "rewrite w pol path d out")
  case (Inl e)
  then show ?thesis using rewrite_end [of w pol path d out] by (simp add: walk_dict_def split: option.splits)
next
  case (Inr r)
  obtain p o1 where r: "r = (p, o1)" by (cases r)
  have "walk_members wk path p o1 \<noteq> Inl Too_deep" using assms Inr r by (intro members_end) auto
  then show ?thesis
    by (auto simp: walk_dict_def Inr r ebind_Inl_iff split: option.splits prod.splits)
qed

lemma text_end:
  assumes "\<And>v q o1. encoded_value s = Inr (Some v) \<Longrightarrow> wk q False v o1 \<noteq> Inl Too_deep"
  shows "walk_json_string fr wk path s out \<noteq> Inl Too_deep"
proof (cases "encoded_value s")
  case (Inl e)
  then have "e = Beyond_model" by (auto simp: encoded_value_def split: if_splits sum.splits json_error.splits)
  then show ?thesis by (simp add: walk_json_string_def Inl)
next
  case (Inr enc)
  show ?thesis
  proof (cases enc)
    case (Some v)
    then have "wk path False v out \<noteq> Inl Too_deep" using assms Inr by simp
    then show ?thesis
      by (auto simp: walk_json_string_def Inr Some ebind_Inl_iff write_json_def split: option.splits if_splits)
  qed (simp add: walk_json_string_def Inr)
qed

lemma inert_rewrite:
  assumes "inert (PDict d)" "rewrite w pol path d out = Inr (p, o1)"
  shows "p = d"
  using assms(2)
proof (rule rewrite_parts)
  fix n1 o1 n2 o2 n3 o3 n4 o4 n5 o5 o6
  assume s: "match_server pol path d out = (n1, o1)" "match_mqtt pol path n1 o1 = (n2, o2)"
    "match_oss_sts pol path n2 o2 = Inr (n3, o3)" "match_cvr_capacity w pol path n3 o3 = Inr (n4, o4)"
    "match_secret pol path n4 o4 = (n5, o5)" "match_locale w pol path n5 o5 = (p, o6)"
  have no: "\<not> has_key d k" "get d k = PNone" if "k \<in> trigger_keys" for k
  proof -
    show "\<not> has_key d k" using assms(1) that by auto
    then show "get d k = PNone" by (simp add: get_def absent_lookup)
  qed
  have keys: "\<not> has_key d ''apiServers''" "\<not> has_key d ''ipServers''" "\<not> has_key d ''dns''" "\<not> has_key d ''mqttHost''"
    "\<not> has_key d ''productKey''" "\<not> has_key d ''signupAt''"
    by (rule no(1), simp add: trigger_keys_def)+
  have gets: "get d ''capability'' = PNone" "get d ''capacity'' = PNone" "get d ''cloudProduct'' = PNone"
    "get d ''secret'' = PNone" "get d ''id'' = PNone" "get d ''sn'' = PNone"
    by (rule no(2), simp add: trigger_keys_def)+
  have 1: "n1 = d" using s(1) keys unfolding match_server_def by (simp add: server_keys_def)
  have 2: "n2 = d"
    using s(2) keys unfolding match_mqtt_def 1 names_broker_def
    by (simp add: mqtt_cred_keys_def split: option.splits)
  have 3: "n3 = d"
    using s(3) gets unfolding match_oss_sts_def 2 by (simp add: is_upload_list_def split: option.splits)
  have 4: "n4 = d"
    using s(4) gets unfolding match_cvr_capacity_def 3
    by (auto simp: is_window_list_def is_window_product_def swap_window_def split: option.splits if_splits dest!: ebind_InrD)
  have 5: "n5 = d" using s(5) gets unfolding match_secret_def 4 by (simp split: option.splits)
  have "\<not> about_us dev d" for dev using keys gets by (simp add: about_us_def)
  then show "p = d" using s(6) unfolding match_locale_def 5 by (simp split: option.splits)
qed

lemma inert_end: "inert v \<Longrightarrow> json_size v < n \<Longrightarrow> walk w fr pol n path il v out \<noteq> Inl Too_deep"
proof (induction n arbitrary: path il v out)
  case (Suc n)
  show ?case
  proof (cases v)
    case (PDict d)
    have "walk_dict w pol (walk w fr pol n) path il d out \<noteq> Inl Too_deep"
    proof (rule dict_end)
      fix p o1 k u q o2
      assume "rewrite w pol path d out = Inr (p, o1)" "(k, u) \<in> set p"
      then have "(k, u) \<in> set d" using inert_rewrite Suc.prems(1) PDict by blast
      then show "walk w fr pol n q False u o2 \<noteq> Inl Too_deep"
        using Suc.prems member_size [of k u d] by (intro Suc.IH) (auto simp: PDict list_all_iff)
    qed
    then show ?thesis by (simp add: PDict)
  next
    case (PList vs)
    have "walk_items (walk w fr pol n) path 0 vs out \<noteq> Inl Too_deep"
    proof (rule items_end)
      fix u q o1 assume "u \<in> set vs"
      then show "walk w fr pol n q True u o1 \<noteq> Inl Too_deep"
        using Suc.prems element_size [of u vs] by (intro Suc.IH) (auto simp: PList list_all_iff)
    qed
    then show ?thesis by (auto simp: PList ebind_Inl_iff split: prod.splits)
  next
    case (PStr s)
    then show ?thesis using Suc.prems(1) by (simp add: walk_json_string_def encoded_value_def)
  qed auto
qed simp

text \<open>
  C3: when our own values are inert, that is, no text among them encodes an object or an array and no
  object among them has a key a rule looks for, the walk of any value ends within as many levels as the
  value's size and the size of the largest of ours together. (The condition is needed: see
  \<open>nested_locale_never_ends\<close>.)
\<close>

theorem walk_ends:
  assumes "\<forall>u \<in> our_values w pol. inert u \<and> json_size u \<le> K"
  shows "json_size v + K < n \<Longrightarrow> walk w fr pol n path il v out \<noteq> Inl Too_deep"
proof (induction n arbitrary: path il v out)
  case (Suc n)
  show ?case
  proof (cases v)
    case (PDict d)
    have "walk_dict w pol (walk w fr pol n) path il d out \<noteq> Inl Too_deep"
    proof (rule dict_end)
      fix p o1 k u q o2
      assume p: "rewrite w pol path d out = Inr (p, o1)" "(k, u) \<in> set p"
      show "walk w fr pol n q False u o2 \<noteq> Inl Too_deep"
      proof (cases "u \<in> our_values w pol")
        case True
        then have "inert u" "json_size u \<le> K" using assms by auto
        moreover have "K < n" using Suc.prems size_pos [of v] by simp
        ultimately show ?thesis by (intro inert_end) auto
      next
        case False
        then have "(k, u) \<in> set d" using rewrite_values [OF p] by blast
        then show ?thesis using Suc.prems member_size [of k u d] by (intro Suc.IH) (simp add: PDict)
      qed
    qed
    then show ?thesis by (simp add: PDict)
  next
    case (PList vs)
    have "walk_items (walk w fr pol n) path 0 vs out \<noteq> Inl Too_deep"
    proof (rule items_end)
      fix u q o1 assume "u \<in> set vs"
      then show "walk w fr pol n q True u o1 \<noteq> Inl Too_deep"
        using Suc.prems element_size [of u vs] by (intro Suc.IH) (simp add: PList)
    qed
    then show ?thesis by (auto simp: PList ebind_Inl_iff split: prod.splits)
  next
    case (PStr s)
    have "walk_json_string fr (walk w fr pol n) path s out \<noteq> Inl Too_deep"
    proof (rule text_end)
      fix u q o1 assume "encoded_value s = Inr (Some u)"
      then show "walk w fr pol n q False u o1 \<noteq> Inl Too_deep"
        using Suc.prems encoded_size [of s u] by (intro Suc.IH) (simp add: PStr)
    qed
    then show ?thesis by (simp add: PStr)
  qed auto
qed simp


lemma sample_values: "\<forall>u \<in> our_values sample_surroundings sample_policy. inert u \<and> json_size u \<le> 2000"
proof -
  have "case (to_oss_sts sample_device (pol_bucket_endpoint sample_policy) (pol_aes_key sample_policy),
      to_device_info sample_surroundings None sample_device) of
    (Inr sts, Inr (info, d')) \<Rightarrow> list_all (\<lambda>u. inert u \<and> json_size u \<le> 2000)
      (map snd (our_servers sample_policy) @ map snd (our_broker sample_policy sample_device) @
       map snd (our_locale sample_surroundings sample_device) @
       [PInt (petkit_id sample_device), get sts ''type'', get sts ''capability'', get info ''capacity'', get info ''cloudProduct''])
  | _ \<Rightarrow> False"
    by code_simp
  moreover have "pol_device sample_policy = Some sample_device" by (simp add: sample_policy_def)
  ultimately show ?thesis
    by (auto simp: our_values_def list_all_iff simp del: our_tables split: sum.splits prod.splits)
qed

lemma walk_ends_witness:
  "walk sample_surroundings half_text sample_policy 2010 [] False
     (PDict [(''dns'', PInt 1), (''c'', PList [PNone])]) nothing_yet \<noteq> Inl Too_deep"
  by (rule walk_ends [OF sample_values]) simp

section \<open>A walk that does not end\<close>

text \<open>
  A sign-up stores the locale the device reports. One that encodes an object about the device which has a
  locale of its own is put into that object, opened there, and finds the same object again.
\<close>

definition self_node :: pydict where
  "self_node = [(''signupAt'', PStr []), (''locale'', PStr [])]"

definition nested_locale :: string where
  "nested_locale = CHR ''{'' # json_quote ''signupAt'' @ CHR '':'' # json_quote [] @ CHR '','' #
     json_quote ''locale'' @ CHR '':'' # json_quote [] @ ''}''"

lemma nested_decoded: "encoded_value nested_locale = Inr (Some (PDict self_node))"
  by code_simp

lemma nested_rewrite:
  assumes "pol_device pol = Some dev" and "config_or dev ''locale'' (PStr []) = PStr nested_locale"
    and "\<not> is_camera dev \<or> \<not> pol_local_cvr_window pol"
  shows "\<exists>o1. rewrite w pol path self_node out = Inr ([(''signupAt'', PStr []), (''locale'', PStr nested_locale)], o1)"
proof -
  have ne: "nested_locale \<noteq> []" by (simp add: nested_locale_def)
  have "match_server pol path self_node out = (self_node, out)"
    unfolding match_server_def by (simp add: self_node_def server_keys_def)
  moreover have "match_mqtt pol path self_node out = (self_node, out)"
    unfolding match_mqtt_def by (simp add: assms(1) self_node_def names_broker_def mqtt_cred_keys_def)
  moreover have "match_oss_sts pol path self_node out = Inr (self_node, out)"
    by (simp add: match_oss_sts_def assms(1) self_node_def get_def is_upload_list_def)
  moreover have "match_cvr_capacity w pol path self_node out = Inr (self_node, out)"
    using assms(3) by (simp add: match_cvr_capacity_def assms(1))
  moreover have "match_secret pol path self_node out = (self_node, out)"
    by (simp add: match_secret_def assms(1) self_node_def get_def)
  moreover have "fst (match_locale w pol path self_node out)
      = [(''signupAt'', PStr []), (''locale'', PStr nested_locale)]"
    using ne by (simp add: match_locale_def assms(1,2) about_us_def self_node_def our_locale_def keep_ours_def get_def)
  ultimately show ?thesis
    by (cases "match_locale w pol path self_node out") (simp add: rewrite_def raised_def)
qed

lemma nested_locale_never_ends:
  assumes "pol_device pol = Some dev" and "config_or dev ''locale'' (PStr []) = PStr nested_locale"
    and "\<not> is_camera dev \<or> \<not> pol_local_cvr_window pol"
  shows "walk w fr pol n path il (PDict self_node) out = Inl Too_deep"
proof (induction n arbitrary: path il out rule: less_induct)
  case (less n)
  show ?case
  proof (cases n)
    case (Suc m)
    have "match_rce pol path self_node out = None"
      by (simp add: match_rce_def self_node_def runs_command_def get_def)
    moreover have "ota_key self_node = None" by code_simp
    then have "match_ota_shape pol path self_node out = None" by (simp add: match_ota_shape_def)
    moreover obtain o1 where "rewrite w pol path self_node out
        = Inr ([(''signupAt'', PStr []), (''locale'', PStr nested_locale)], o1)"
      using nested_rewrite [OF assms] by blast
    moreover have "walk_members (walk w fr pol m) path
        [(''signupAt'', PStr []), (''locale'', PStr nested_locale)] o1 = Inl Too_deep"
    proof (cases m)
      case (Suc k)
      have "encoded_value [] = Inr None" by code_simp
      moreover have "walk w fr pol k q False (PDict self_node) o2 = Inl Too_deep" for q o2
        using Suc \<open>n = Suc m\<close> by (intro less.IH) simp
      ultimately show ?thesis by (simp add: Suc walk_json_string_def nested_decoded)
    qed simp
    ultimately show ?thesis by (simp add: Suc walk_dict_def)
  qed simp
qed

end
