(* ===== verification/Event_Db.thy ===== *)
theory Event_Db
  imports Json Dicts "HOL-Library.Product_Lexorder" "HOL-Library.List_Lexorder"
begin

text \<open>
  The tables behind \<open>events/store.py\<close>: the columns \<open>events/models.py\<close> declares, what a
  query compares and orders by, and the three statements that write (insert, update, delete).

  A table is the list of its rows in the order of their ids with the highest id it ever handed out
  (the tables are declared \<open>sqlite_autoincrement\<close>). What the database keeps of a value bound
  to a column, or the error for one it cannot bind, is the argument \<open>fit\<close>. Rows that a query
  leaves unordered come in the order of their ids.
\<close>

section \<open>Rows and tables\<close>

record table_row =
  rid :: int
  rcols :: pydict

record table =
  rows :: "table_row list"
  sequence :: int

record event_db =
  event_table :: table
  media_table :: table
  blocked_table :: table
  pet_table :: table
  face_table :: table

type_synonym fitting = "string \<Rightarrow> pyval \<Rightarrow> py_exc + pyval"

definition event_columns :: "string list" where
  "event_columns = [''event_uid'', ''related_event'', ''parent_event'', ''device_id'', ''device_type'',
     ''event_type'', ''event_kind'', ''ts'', ''source'', ''pet_ref'', ''pet_id'', ''score'',
     ''content_json'', ''state_json'']"

definition media_columns :: "string list" where
  "media_columns = [''file_id'', ''device_id'', ''related_event'', ''module_type'', ''category'',
     ''file_type'', ''media_path'', ''encrypted'', ''aes_iv'', ''duration_ms'', ''start_ts'', ''end_ts'',
     ''pet_score'', ''pet_event'', ''pet_id'', ''size_bytes'', ''status'', ''stitch_state'']"

definition blocked_columns :: "string list" where
  "blocked_columns = [''device_id'', ''kind'', ''transport'', ''endpoint'', ''upstream'',
     ''field_path'', ''payload_json'', ''detail_json'']"

definition pet_columns :: "string list" where
  "pet_columns = [''name'', ''device_ids_json'', ''device_pet_ids_json'', ''face_id'',
     ''photo_path'', ''weight'']"

definition face_columns :: "string list" where
  "face_columns = [''pet_id'', ''photo_path'']"

text \<open>The columns declared \<open>nullable=False\<close>, and those with a \<open>server_default\<close>.\<close>

definition required_columns :: "string list \<Rightarrow> string list" where
  "required_columns columns =
     (if columns = event_columns \<or> columns = media_columns then [''device_id'', ''created_at'']
      else if columns = pet_columns then [''name'', ''created_at'']
      else if columns = face_columns then [''pet_id'', ''photo_path'', ''created_at'']
      else [''created_at''])"

definition server_default :: "string list \<Rightarrow> string \<Rightarrow> pyval" where
  "server_default columns c =
     (if columns = media_columns
      then get [(''encrypted'', PInt 0), (''status'', PStr ''pending'')] c
      else if columns = pet_columns
      then get [(''device_ids_json'', PStr ''[]''), (''device_pet_ids_json'', PStr ''[]'')] c
      else PNone)"

definition as_row_dict :: "table_row \<Rightarrow> pydict" where
  "as_row_dict r = (''id'', PInt (rid r)) # rcols r"

abbreviation col :: "table_row \<Rightarrow> string \<Rightarrow> pyval" where
  "col r c \<equiv> get (rcols r) c"

section \<open>What a query compares\<close>

text \<open>
  The order SQLite documents on stored values: null, then numbers, then texts, then bytes. A not-a-number
  is stored as null.
\<close>

fun sql_key :: "pyval \<Rightarrow> nat \<times> rat \<times> nat list" where
  "sql_key (PBool b) = (2, (if b then 1 else 0), [])"
| "sql_key (PInt n) = (2, of_int n, [])"
| "sql_key (PFloat f) =
     (case f of Fin q \<Rightarrow> (2, q, []) | NegInf \<Rightarrow> (1, 0, []) | PosInf \<Rightarrow> (3, 0, []) | NaN \<Rightarrow> (0, 0, []))"
| "sql_key (PStr s) = (4, 0, map of_char s)"
| "sql_key (PBytes b) = (5, 0, map unat b)"
| "sql_key v = (0, 0, [])"

definition is_null :: "pyval \<Rightarrow> bool" where
  "is_null v \<longleftrightarrow> fst (sql_key v) = 0"

text \<open>A comparison with null is not true.\<close>

definition sql_eq :: "pyval \<Rightarrow> pyval \<Rightarrow> bool" where
  "sql_eq a b \<longleftrightarrow> \<not> is_null a \<and> sql_key a = sql_key b"

definition sql_ne :: "pyval \<Rightarrow> pyval \<Rightarrow> bool" where
  "sql_ne a b \<longleftrightarrow> \<not> is_null a \<and> \<not> is_null b \<and> sql_key a \<noteq> sql_key b"

definition sql_less :: "pyval \<Rightarrow> pyval \<Rightarrow> bool" where
  "sql_less a b \<longleftrightarrow> \<not> is_null a \<and> \<not> is_null b \<and> sql_key a < sql_key b"

text \<open>\<open>ORDER BY\<close> a column, up and down.\<close>

definition order_up :: "string \<Rightarrow> table_row list \<Rightarrow> table_row list" where
  "order_up c rs = sort_key (\<lambda>r. sql_key (col r c)) rs"

definition order_down :: "string \<Rightarrow> table_row list \<Rightarrow> table_row list" where
  "order_down c rs = rev (sort_key (\<lambda>r. sql_key (col r c)) (rev rs))"

definition where_rows :: "(table_row \<Rightarrow> bool) \<Rightarrow> table \<Rightarrow> table_row list" where
  "where_rows p t = filter p (rows t)"

text \<open>The first row of a result, as a dict (\<open>session.scalar\<close> and \<open>as_dict\<close>).\<close>

definition first_dict :: "table_row list \<Rightarrow> pydict option" where
  "first_dict rs = (case rs of [] \<Rightarrow> None | r # _ \<Rightarrow> Some (as_row_dict r))"

definition by_id :: "int \<Rightarrow> table \<Rightarrow> pydict option" where
  "by_id i t = first_dict (where_rows (\<lambda>r. rid r = i) t)"

section \<open>Statements that write\<close>

text \<open>\<open>_accepted\<close> and \<open>_created_at\<close>.\<close>

definition accepted :: "pydict \<Rightarrow> string list \<Rightarrow> pydict" where
  "accepted row columns =
     List.map_filter (\<lambda>k. case map_of row k of Some v \<Rightarrow> Some (k, v) | None \<Rightarrow> None) columns"

definition float_of_int :: "int \<Rightarrow> py_exc + pyval" where
  "float_of_int n = (case round_b64 (of_int n) of Fin q \<Rightarrow> Inr (PFloat (Fin q)) | _ \<Rightarrow> Inl OverflowError)"

definition created_at :: "rat \<Rightarrow> pydict \<Rightarrow> py_exc + pyval" where
  "created_at now row =
     (case get row ''created_at'' of
        PInt n \<Rightarrow> float_of_int n
      | PBool b \<Rightarrow> Inr (PFloat (Fin (if b then 1 else 0)))
      | PFloat f \<Rightarrow> Inr (PFloat f)
      | _ \<Rightarrow> Inr (PFloat (Fin now)))"

fun fit_all :: "fitting \<Rightarrow> pydict \<Rightarrow> py_exc + pydict" where
  "fit_all fit [] = Inr []"
| "fit_all fit ((c, v) # d) =
     ebind (fit c v) (\<lambda>w. ebind (fit_all fit d) (\<lambda>e. Inr ((c, w) # e)))"

text \<open>A row the constraints refuse is an \<open>IntegrityError\<close>.\<close>

definition integrity_error :: py_exc where
  "integrity_error = Refused ''IntegrityError''"

definition check_required :: "string list \<Rightarrow> pydict \<Rightarrow> py_exc + pydict" where
  "check_required columns d =
     (if list_ex (\<lambda>c. is_null (get d c)) (required_columns columns) then Inl integrity_error else Inr d)"

text \<open>An insert: a column that is absent or null takes the default of its declaration.\<close>

definition insert_row ::
    "fitting \<Rightarrow> string list \<Rightarrow> pydict \<Rightarrow> pyval \<Rightarrow> table \<Rightarrow> py_exc + int \<times> table" where
  "insert_row fit columns data created t =
     (let filled = map (\<lambda>c. (c, if get data c = PNone then server_default columns c else get data c)) columns
      in ebind (fit_all fit (filled @ [(''created_at'', created)])) (\<lambda>d.
         ebind (check_required columns d) (\<lambda>d.
           let i = sequence t + 1
           in Inr (i, t\<lparr>rows := rows t @ [\<lparr>rid = i, rcols = d\<rparr>], sequence := i\<rparr>))))"

definition set_cols :: "pydict \<Rightarrow> table_row \<Rightarrow> table_row" where
  "set_cols d r = r\<lparr>rcols := dict_merge (rcols r) d\<rparr>"

text \<open>An update of the rows a condition picks, with their number.\<close>

definition update_rows ::
    "fitting \<Rightarrow> string list \<Rightarrow> (table_row \<Rightarrow> bool) \<Rightarrow> pydict \<Rightarrow> table \<Rightarrow> py_exc + int \<times> table" where
  "update_rows fit columns p data t =
     ebind (fit_all fit data) (\<lambda>d.
       if list_ex (\<lambda>c. has_key d c \<and> is_null (get d c)) (required_columns columns) \<and> list_ex p (rows t)
       then Inl integrity_error
       else Inr (int (length (where_rows p t)),
                 t\<lparr>rows := map (\<lambda>r. if p r then set_cols d r else r) (rows t)\<rparr>))"

definition delete_rows :: "(table_row \<Rightarrow> bool) \<Rightarrow> table \<Rightarrow> int \<times> table" where
  "delete_rows p t = (int (length (where_rows p t)), t\<lparr>rows := filter (\<lambda>r. \<not> p r) (rows t)\<rparr>)"

section \<open>What every statement keeps\<close>

text \<open>The ids of a table are distinct and no larger than the last one handed out.\<close>

definition table_ok :: "table \<Rightarrow> bool" where
  "table_ok t \<longleftrightarrow> distinct (map rid (rows t)) \<and> (\<forall>r \<in> set (rows t). rid r \<le> sequence t)"

lemma fit_all_keys: "fit_all fit d = Inr e \<Longrightarrow> map fst e = map fst d"
  by (induction d arbitrary: e) (auto simp: ebind_Inr_iff)

lemma fit_all_get: "fit_all fit d = Inr e \<Longrightarrow> map_of d c = Some v \<Longrightarrow> \<exists>w. fit c v = Inr w \<and> map_of e c = Some w"
  by (induction d arbitrary: e) (auto simp: ebind_Inr_iff split: if_splits)

lemma fit_all_none: "fit_all fit d = Inr e \<Longrightarrow> map_of d c = None \<Longrightarrow> map_of e c = None"
  using fit_all_keys [of fit d e] by (metis map_of_eq_None_iff set_map)

lemma rid_set_cols [simp]: "rid (set_cols d r) = rid r"
  by (simp add: set_cols_def)

lemma table_ok_delete: "table_ok t \<Longrightarrow> table_ok (snd (delete_rows p t))"
  by (auto simp: table_ok_def delete_rows_def distinct_map inj_on_def)

lemma update_rowsD:
  "update_rows fit columns p data t = Inr (n, t') \<Longrightarrow>
   \<exists>d. fit_all fit data = Inr d \<and> t' = t\<lparr>rows := map (\<lambda>r. if p r then set_cols d r else r) (rows t)\<rparr>
     \<and> n = int (length (where_rows p t))"
  by (auto simp: update_rows_def ebind_Inr_iff split: if_splits)

lemma table_ok_ids:
  "table_ok t \<longleftrightarrow> distinct (map rid (rows t)) \<and> list_all (\<lambda>i. i \<le> sequence t) (map rid (rows t))"
  by (auto simp: table_ok_def list_all_iff)

lemma table_ok_update:
  assumes "table_ok t" and "update_rows fit columns p data t = Inr (n, t')"
  shows "table_ok t'"
proof -
  obtain d where t': "t' = t\<lparr>rows := map (\<lambda>r. if p r then set_cols d r else r) (rows t)\<rparr>"
    using update_rowsD [OF assms(2)] by blast
  have "map rid (rows t') = map rid (rows t)" by (simp add: t')
  moreover have "sequence t' = sequence t" by (simp add: t')
  ultimately show ?thesis using assms(1) by (simp only: table_ok_ids)
qed

lemma insert_rowD:
  "insert_row fit columns data created t = Inr (i, t') \<Longrightarrow>
   \<exists>d. fit_all fit (map (\<lambda>c. (c, if get data c = PNone then server_default columns c else get data c)) columns
           @ [(''created_at'', created)]) = Inr d
     \<and> i = sequence t + 1 \<and> t' = t\<lparr>rows := rows t @ [\<lparr>rid = i, rcols = d\<rparr>], sequence := i\<rparr>"
  by (auto simp: insert_row_def check_required_def Let_def ebind_Inr_iff split: if_splits)

lemma table_ok_insert:
  assumes "table_ok t" and "insert_row fit columns data created t = Inr (i, t')"
  shows "table_ok t'"
proof -
  obtain d where "i = sequence t + 1" "t' = t\<lparr>rows := rows t @ [\<lparr>rid = i, rcols = d\<rparr>], sequence := i\<rparr>"
    using insert_rowD [OF assms(2)] by blast
  then show ?thesis using assms(1) by (force simp: table_ok_def)
qed

lemmas table_oks = table_ok_delete table_ok_update table_ok_insert

end
