(* ===== verification/Event_Store.thy ===== *)
theory Event_Store
  imports Event_Db
begin

text \<open>
  The operations of \<open>EventStore\<close> (\<open>events/store.py\<close>) on the tables of \<open>Event_Db\<close>:
  events, blocked attempts, media, stitching, the timeline query, pets, faces and the identities a
  device reports. Every operation is a function of the tables; a write returns the new tables or the
  exception that rolls it back. \<open>fr\<close> is \<open>float.__repr__\<close>, \<open>now\<close> the clock.

  The writes that look before they write are split into what the query found and the statement that
  follows, because other tasks run between the two (\<open>Event_Tasks\<close>).
\<close>

section \<open>Events\<close>

definition dump_text :: "(rat \<Rightarrow> string) \<Rightarrow> pyval \<Rightarrow> py_exc + pyval" where
  "dump_text fr v =
     (case v of PStr s \<Rightarrow> Inr v
      | _ \<Rightarrow> (case json_dumps fr v of Some s \<Rightarrow> Inr (PStr s) | None \<Rightarrow> Inl TypeError))"

fun dump_keys :: "(rat \<Rightarrow> string) \<Rightarrow> string list \<Rightarrow> pydict \<Rightarrow> py_exc + pydict" where
  "dump_keys fr ks [] = Inr []"
| "dump_keys fr ks ((k, v) # d) =
     ebind (if k \<in> set ks then dump_text fr v else Inr v) (\<lambda>w.
     ebind (dump_keys fr ks d) (\<lambda>e. Inr ((k, w) # e)))"

definition event_data :: "(rat \<Rightarrow> string) \<Rightarrow> pydict \<Rightarrow> py_exc + pydict" where
  "event_data fr row = dump_keys fr [''content_json'', ''state_json''] (accepted row event_columns)"

definition row_with :: "fitting \<Rightarrow> string \<Rightarrow> pyval \<Rightarrow> table \<Rightarrow> py_exc + int option" where
  "row_with fit c v t =
     ebind (fit c v) (\<lambda>w. Inr (map_option rid (find (\<lambda>r. sql_eq (col r c) w) (rows t))))"

definition find_event :: "fitting \<Rightarrow> pydict \<Rightarrow> event_db \<Rightarrow> py_exc + int option" where
  "find_event fit data db =
     (if truthy (get data ''event_uid'') then row_with fit ''event_uid'' (get data ''event_uid'') (event_table db)
      else Inr None)"

definition write_event ::
    "fitting \<Rightarrow> rat \<Rightarrow> pydict \<Rightarrow> pydict \<Rightarrow> int option \<Rightarrow> event_db \<Rightarrow> py_exc + int \<times> event_db" where
  "write_event fit now row data found db =
     (case found of
        Some i \<Rightarrow>
          ebind (update_rows fit event_columns (\<lambda>r. rid r = i) data (event_table db)) (\<lambda>(_, t).
            Inr (i, db\<lparr>event_table := t\<rparr>))
      | None \<Rightarrow>
          ebind (created_at now row) (\<lambda>created.
          ebind (insert_row fit event_columns data created (event_table db)) (\<lambda>(i, t).
            Inr (i, db\<lparr>event_table := t\<rparr>))))"

definition upsert_event ::
    "(rat \<Rightarrow> string) \<Rightarrow> fitting \<Rightarrow> rat \<Rightarrow> pydict \<Rightarrow> event_db \<Rightarrow> py_exc + int \<times> event_db" where
  "upsert_event fr fit now row db =
     ebind (event_data fr row) (\<lambda>data.
     ebind (find_event fit data db) (\<lambda>found. write_event fit now row data found db))"

definition get_event :: "int \<Rightarrow> event_db \<Rightarrow> pydict option" where
  "get_event i db = by_id i (event_table db)"

definition all_events :: "nat \<Rightarrow> event_db \<Rightarrow> pydict list" where
  "all_events limit db = map as_row_dict (take limit (sort_key rid (rows (event_table db))))"

definition update_event_fields :: "fitting \<Rightarrow> int \<Rightarrow> pydict \<Rightarrow> event_db \<Rightarrow> py_exc + bool \<times> event_db" where
  "update_event_fields fit i given db =
     (let data = filter (\<lambda>(k, v). k \<in> set event_columns) given
      in if data = [] then Inr (False, db)
         else ebind (update_rows fit event_columns (\<lambda>r. rid r = i) data (event_table db)) (\<lambda>(_, t).
                Inr (True, db\<lparr>event_table := t\<rparr>)))"

definition event_by_related :: "string \<Rightarrow> event_db \<Rightarrow> pydict option" where
  "event_by_related related db =
     first_dict (order_down ''ts''
       (where_rows (\<lambda>r. sql_eq (col r ''related_event'') (PStr related)) (event_table db)))"

definition prune_event_rows :: "rat \<Rightarrow> event_db \<Rightarrow> int \<times> event_db" where
  "prune_event_rows before db =
     (let (n, t) = delete_rows (\<lambda>r. sql_less (col r ''ts'') (PFloat (Fin before))) (event_table db)
      in (n, db\<lparr>event_table := t\<rparr>))"

section \<open>Blocked attempts\<close>

text \<open>\<open>json.dumps(v, default=str)\<close>: what JSON has no form for is written as its text.\<close>

fun stringify :: "(pyval \<Rightarrow> string) \<Rightarrow> pyval \<Rightarrow> pyval" where
  "stringify repr (PBytes b) = PStr (repr (PBytes b))"
| "stringify repr (PList vs) = PList (map (stringify repr) vs)"
| "stringify repr (PDict d) = PDict (map (\<lambda>kv. (fst kv, stringify repr (snd kv))) d)"
| "stringify repr v = v"

definition blocked_data :: "(pyval \<Rightarrow> string) \<Rightarrow> (rat \<Rightarrow> string) \<Rightarrow> pydict \<Rightarrow> pydict" where
  "blocked_data repr fr row =
     map (\<lambda>(k, v). (k, if k \<in> {''payload_json'', ''detail_json''}
                        then (case v of PStr s \<Rightarrow> v | _ \<Rightarrow> PStr (json_text fr (stringify repr v))) else v))
       (accepted row blocked_columns)"

fun insert_blocked ::
    "(pyval \<Rightarrow> string) \<Rightarrow> (rat \<Rightarrow> string) \<Rightarrow> fitting \<Rightarrow> rat \<Rightarrow> pydict list \<Rightarrow> table \<Rightarrow> py_exc + table" where
  "insert_blocked repr fr fit now [] t = Inr t"
| "insert_blocked repr fr fit now (row # others) t =
     ebind (created_at now row) (\<lambda>created.
     ebind (insert_row fit blocked_columns (blocked_data repr fr row) created t) (\<lambda>(_, t').
       insert_blocked repr fr fit now others t'))"

definition add_blocked_attempts ::
    "(pyval \<Rightarrow> string) \<Rightarrow> (rat \<Rightarrow> string) \<Rightarrow> fitting \<Rightarrow> rat \<Rightarrow> pydict list \<Rightarrow> event_db \<Rightarrow> py_exc + int \<times> event_db" where
  "add_blocked_attempts repr fr fit now attempts db =
     (if attempts = [] then Inr (0, db)
      else ebind (insert_blocked repr fr fit now attempts (blocked_table db)) (\<lambda>t.
             Inr (int (length attempts), db\<lparr>blocked_table := t\<rparr>)))"

definition recent_blocked_attempts :: "nat \<Rightarrow> int option \<Rightarrow> string option \<Rightarrow> event_db \<Rightarrow> pydict list" where
  "recent_blocked_attempts limit device kind_name db =
     map as_row_dict (take limit (rev (sort_key rid
       (where_rows (\<lambda>r. (case device of Some d \<Rightarrow> sql_eq (col r ''device_id'') (PInt d) | None \<Rightarrow> True)
            \<and> (case kind_name of Some k \<Rightarrow> k \<noteq> [] \<longrightarrow> sql_eq (col r ''kind'') (PStr k) | None \<Rightarrow> True))
          (blocked_table db)))))"

definition prune_blocked_rows :: "rat \<Rightarrow> event_db \<Rightarrow> int \<times> event_db" where
  "prune_blocked_rows before db =
     (let (n, t) = delete_rows (\<lambda>r. sql_less (col r ''created_at'') (PFloat (Fin before))) (blocked_table db)
      in (n, db\<lparr>blocked_table := t\<rparr>))"

section \<open>Media\<close>

definition find_media :: "fitting \<Rightarrow> pydict \<Rightarrow> event_db \<Rightarrow> py_exc + int option" where
  "find_media fit data db =
     (if truthy (get data ''file_id'') then row_with fit ''file_id'' (get data ''file_id'') (media_table db)
      else Inl ValueError)"

text \<open>An insert into \<open>media\<close>, where \<open>file_id\<close> is unique.\<close>

definition insert_media :: "fitting \<Rightarrow> rat \<Rightarrow> pydict \<Rightarrow> pydict \<Rightarrow> event_db \<Rightarrow> py_exc + int \<times> event_db" where
  "insert_media fit now row data db =
     ebind (created_at now row) (\<lambda>created.
     ebind (row_with fit ''file_id'' (get data ''file_id'') (media_table db)) (\<lambda>taken.
       if taken \<noteq> None then Inl integrity_error
       else ebind (insert_row fit media_columns data created (media_table db)) (\<lambda>(i, t).
              Inr (i, db\<lparr>media_table := t\<rparr>))))"

definition write_media ::
    "fitting \<Rightarrow> rat \<Rightarrow> pydict \<Rightarrow> pydict \<Rightarrow> int option \<Rightarrow> event_db \<Rightarrow> py_exc + int \<times> event_db" where
  "write_media fit now row data found db =
     (case found of
        Some i \<Rightarrow>
          ebind (update_rows fit media_columns (\<lambda>r. rid r = i)
                   (filter (\<lambda>(k, v). k \<noteq> ''file_id'') data) (media_table db)) (\<lambda>(_, t).
            Inr (i, db\<lparr>media_table := t\<rparr>))
      | None \<Rightarrow> insert_media fit now row data db)"

definition upsert_media :: "fitting \<Rightarrow> rat \<Rightarrow> pydict \<Rightarrow> event_db \<Rightarrow> py_exc + int \<times> event_db" where
  "upsert_media fit now row db =
     (let data = accepted row media_columns
      in ebind (find_media fit data db) (\<lambda>found. write_media fit now row data found db))"

definition get_media_by_file_id :: "string \<Rightarrow> event_db \<Rightarrow> pydict option" where
  "get_media_by_file_id file_id db =
     first_dict (where_rows (\<lambda>r. sql_eq (col r ''file_id'') (PStr file_id)) (media_table db))"

definition media_for_related_event :: "string \<Rightarrow> event_db \<Rightarrow> pydict list" where
  "media_for_related_event related db =
     map as_row_dict (order_up ''created_at''
       (where_rows (\<lambda>r. sql_eq (col r ''related_event'') (PStr related)) (media_table db)))"

definition is_ready :: "table_row \<Rightarrow> bool" where
  "is_ready r \<longleftrightarrow> sql_eq (col r ''status'') (PStr ''ready'')"

definition latest_media :: "int \<Rightarrow> string option \<Rightarrow> event_db \<Rightarrow> pydict option" where
  "latest_media device category db =
     first_dict (order_down ''created_at''
       (where_rows (\<lambda>r. sql_eq (col r ''device_id'') (PInt device) \<and> is_ready r
            \<and> (case category of Some c \<Rightarrow> c \<noteq> [] \<longrightarrow> sql_eq (col r ''category'') (PStr c) | None \<Rightarrow> True))
          (media_table db)))"

definition retention_rows :: "string \<Rightarrow> event_db \<Rightarrow> pydict list" where
  "retention_rows category db =
     map as_row_dict (order_down ''created_at''
       (where_rows (\<lambda>r. sql_eq (col r ''category'') (PStr category) \<and> is_ready r) (media_table db)))"

definition delete_media_row :: "int \<Rightarrow> event_db \<Rightarrow> event_db" where
  "delete_media_row i db = db\<lparr>media_table := snd (delete_rows (\<lambda>r. rid r = i) (media_table db))\<rparr>"

fun reclassify_media_categories ::
    "fitting \<Rightarrow> (string \<times> string) list \<Rightarrow> event_db \<Rightarrow> py_exc + int \<times> event_db" where
  "reclassify_media_categories fit [] db = Inr (0, db)"
| "reclassify_media_categories fit ((module_type, category) # others) db =
     ebind (update_rows fit media_columns
              (\<lambda>r. sql_eq (col r ''module_type'') (PStr module_type)
                 \<and> sql_ne (col r ''category'') (PStr category))
              [(''category'', PStr category)] (media_table db)) (\<lambda>(n, t).
     ebind (reclassify_media_categories fit others (db\<lparr>media_table := t\<rparr>)) (\<lambda>(m, db').
       Inr (n + m, db')))"

section \<open>Stitching\<close>

definition unclaimed :: "table_row \<Rightarrow> bool" where
  "unclaimed r \<longleftrightarrow> is_ready r \<and> is_null (col r ''stitch_state'')"

definition episode_key :: "table_row \<Rightarrow> pyval \<times> pyval \<times> pyval" where
  "episode_key r = (col r ''device_id'', col r ''related_event'', col r ''category'')"

definition same_episode :: "pyval \<times> pyval \<times> pyval \<Rightarrow> table_row \<Rightarrow> bool" where
  "same_episode = (\<lambda>(d, e, c) r. sql_eq (col r ''device_id'') d \<and> sql_eq (col r ''related_event'') e
     \<and> sql_eq (col r ''category'') c)"

text \<open>
  The groups of the first query, in the order of their first row, that are large and quiet enough; a
  newest time is the largest one.
\<close>

definition quiet_episodes :: "string list \<Rightarrow> rat \<Rightarrow> nat \<Rightarrow> event_db \<Rightarrow> (pyval \<times> pyval \<times> pyval) list" where
  "quiet_episodes categories quiet_before min_chunks db =
     (let rs = where_rows (\<lambda>r. unclaimed r \<and> \<not> is_null (col r ''related_event'')
                 \<and> \<not> is_null (col r ''media_path'')
                 \<and> list_ex (\<lambda>c. sql_eq (col r ''category'') (PStr c)) categories) (media_table db)
      in filter (\<lambda>k. let g = filter (same_episode k) rs
                      in min_chunks \<le> length g
                         \<and> list_all (\<lambda>r. sql_less (col r ''created_at'') (PFloat (Fin quiet_before))) g)
           (remdups (map episode_key rs)))"

definition coalesce :: "pyval \<Rightarrow> pyval \<Rightarrow> pyval" where
  "coalesce a b = (if is_null a then b else a)"

definition episode_chunks :: "pyval \<times> pyval \<times> pyval \<Rightarrow> event_db \<Rightarrow> table_row list" where
  "episode_chunks k db =
     sort_key (\<lambda>r. (sql_key (coalesce (col r ''start_ts'') (col r ''created_at'')), sql_key (col r ''created_at'')))
       (where_rows (\<lambda>r. unclaimed r \<and> same_episode k r) (media_table db))"

record stitch_episode =
  st_device :: pyval
  st_related :: pyval
  st_category :: pyval
  st_chunks :: "pydict list"

definition stitch_candidates :: "string list \<Rightarrow> rat \<Rightarrow> nat \<Rightarrow> event_db \<Rightarrow> stitch_episode list" where
  "stitch_candidates categories quiet_before min_chunks db =
     (if categories = [] then []
      else List.map_filter (\<lambda>k.
             let chunks = episode_chunks k db
             in if min_chunks \<le> length chunks
                then Some \<lparr>st_device = fst k, st_related = fst (snd k), st_category = snd (snd k),
                           st_chunks = map as_row_dict chunks\<rparr>
                else None)
           (quiet_episodes categories quiet_before min_chunks db))"

definition mark_stitch_failed :: "fitting \<Rightarrow> int list \<Rightarrow> string \<Rightarrow> event_db \<Rightarrow> py_exc + event_db" where
  "mark_stitch_failed fit ids reason db =
     (if ids = [] then Inr db
      else ebind (update_rows fit media_columns (\<lambda>r. rid r \<in> set ids) [(''stitch_state'', PStr reason)]
                    (media_table db)) (\<lambda>(_, t). Inr (db\<lparr>media_table := t\<rparr>)))"

definition replace_chunks_with_stitched ::
    "fitting \<Rightarrow> rat \<Rightarrow> int list \<Rightarrow> pydict \<Rightarrow> event_db \<Rightarrow> py_exc + int \<times> event_db" where
  "replace_chunks_with_stitched fit now ids merged db =
     insert_media fit now merged (accepted merged media_columns)
       (db\<lparr>media_table := snd (delete_rows (\<lambda>r. rid r \<in> set ids) (media_table db))\<rparr>)"

section \<open>The timeline query\<close>

definition in_timeline ::
    "int option \<Rightarrow> rat option \<Rightarrow> rat option \<Rightarrow> string option \<Rightarrow> table_row \<Rightarrow> bool" where
  "in_timeline device start_ts end_ts kind_name r \<longleftrightarrow>
     (case device of Some d \<Rightarrow> sql_eq (col r ''device_id'') (PInt d) | None \<Rightarrow> True)
   \<and> (case start_ts of Some t \<Rightarrow> \<not> is_null (col r ''ts'') \<and> \<not> sql_less (col r ''ts'') (PFloat (Fin t)) | None \<Rightarrow> True)
   \<and> (case end_ts of Some t \<Rightarrow> sql_less (col r ''ts'') (PFloat (Fin t)) | None \<Rightarrow> True)
   \<and> (case kind_name of Some k \<Rightarrow> sql_eq (col r ''event_kind'') (PStr k) | None \<Rightarrow> True)"

definition with_media :: "event_db \<Rightarrow> table_row \<Rightarrow> pydict" where
  "with_media db r =
     as_row_dict r @ [(''media'', PList (if truthy (col r ''related_event'')
        then map (\<lambda>m. PDict (as_row_dict m)) (order_up ''created_at''
               (where_rows (\<lambda>m. sql_eq (col m ''related_event'') (col r ''related_event'')) (media_table db)))
        else []))]"

definition query_timeline ::
    "int option \<Rightarrow> rat option \<Rightarrow> rat option \<Rightarrow> string option \<Rightarrow> nat \<Rightarrow> event_db \<Rightarrow> pydict list" where
  "query_timeline device start_ts end_ts kind_name limit db =
     map (with_media db) (take limit (order_down ''ts''
       (where_rows (in_timeline device start_ts end_ts kind_name) (event_table db))))"

section \<open>Pets\<close>

definition pet_data :: "(rat \<Rightarrow> string) \<Rightarrow> pydict \<Rightarrow> py_exc + pydict" where
  "pet_data fr row = dump_keys fr [''device_ids_json''] (accepted row pet_columns)"

definition upsert_pet ::
    "(rat \<Rightarrow> string) \<Rightarrow> fitting \<Rightarrow> rat \<Rightarrow> pydict \<Rightarrow> int option \<Rightarrow> event_db \<Rightarrow> py_exc + int \<times> event_db" where
  "upsert_pet fr fit now row pet_id db =
     ebind (pet_data fr row) (\<lambda>data.
       case pet_id of
         Some i \<Rightarrow>
           if data = [] then Inr (i, db)
           else ebind (update_rows fit pet_columns (\<lambda>r. rid r = i) data (pet_table db)) (\<lambda>(_, t).
                  Inr (i, db\<lparr>pet_table := t\<rparr>))
       | None \<Rightarrow>
           ebind (created_at now row) (\<lambda>created.
           ebind (insert_row fit pet_columns data created (pet_table db)) (\<lambda>(i, t).
             Inr (i, db\<lparr>pet_table := t\<rparr>))))"

definition get_pet :: "int \<Rightarrow> event_db \<Rightarrow> pydict option" where
  "get_pet i db = by_id i (pet_table db)"

definition all_pets :: "event_db \<Rightarrow> pydict list" where
  "all_pets db = map as_row_dict (sort_key rid (rows (pet_table db)))"

definition delete_pet :: "int \<Rightarrow> event_db \<Rightarrow> event_db" where
  "delete_pet i db =
     db\<lparr>face_table := snd (delete_rows (\<lambda>r. sql_eq (col r ''pet_id'') (PInt i)) (face_table db)),
        pet_table := snd (delete_rows (\<lambda>r. rid r = i) (pet_table db))\<rparr>"

section \<open>Pet faces\<close>

definition max_faces_per_pet :: nat where
  "max_faces_per_pet = 6"

definition faces_of :: "int \<Rightarrow> event_db \<Rightarrow> table_row list" where
  "faces_of pet_id db = where_rows (\<lambda>r. sql_eq (col r ''pet_id'') (PInt pet_id)) (face_table db)"

definition pet_faces :: "int \<Rightarrow> event_db \<Rightarrow> pydict list" where
  "pet_faces pet_id db = map as_row_dict (sort_key rid (faces_of pet_id db))"

definition insert_face :: "fitting \<Rightarrow> int \<Rightarrow> pyval \<Rightarrow> pyval \<Rightarrow> event_db \<Rightarrow> py_exc + int \<times> event_db" where
  "insert_face fit pet_id path created db =
     ebind (insert_row fit face_columns [(''pet_id'', PInt pet_id), (''photo_path'', path)] created (face_table db))
       (\<lambda>(i, t). Inr (i, db\<lparr>face_table := t\<rparr>))"

definition write_face ::
    "fitting \<Rightarrow> rat \<Rightarrow> int \<Rightarrow> string \<Rightarrow> nat \<Rightarrow> event_db \<Rightarrow> py_exc + int option \<times> event_db" where
  "write_face fit now pet_id path n db =
     (if max_faces_per_pet \<le> n then Inr (None, db)
      else ebind (insert_face fit pet_id (PStr path) (PFloat (Fin now)) db) (\<lambda>(i, db'). Inr (Some i, db')))"

definition add_pet_face :: "fitting \<Rightarrow> rat \<Rightarrow> int \<Rightarrow> string \<Rightarrow> event_db \<Rightarrow> py_exc + int option \<times> event_db" where
  "add_pet_face fit now pet_id path db = write_face fit now pet_id path (length (faces_of pet_id db)) db"

definition update_pet_face_path :: "fitting \<Rightarrow> int \<Rightarrow> string \<Rightarrow> event_db \<Rightarrow> py_exc + event_db" where
  "update_pet_face_path fit face_id path db =
     ebind (update_rows fit face_columns (\<lambda>r. rid r = face_id) [(''photo_path'', PStr path)] (face_table db))
       (\<lambda>(_, t). Inr (db\<lparr>face_table := t\<rparr>))"

definition get_pet_face :: "int \<Rightarrow> event_db \<Rightarrow> pydict option" where
  "get_pet_face i db = by_id i (face_table db)"

definition delete_pet_face :: "int \<Rightarrow> event_db \<Rightarrow> event_db" where
  "delete_pet_face i db = db\<lparr>face_table := snd (delete_rows (\<lambda>r. rid r = i) (face_table db))\<rparr>"

text \<open>\<open>_migrate_legacy_faces\<close>, the pets in the order of their ids.\<close>

fun adopt_faces ::
    "fitting \<Rightarrow> (string \<Rightarrow> bool) \<Rightarrow> table_row list \<Rightarrow> event_db \<Rightarrow> py_exc + event_db" where
  "adopt_faces fit is_file [] db = Inr db"
| "adopt_faces fit is_file (p # ps) db =
     (case col p ''photo_path'' of
        PStr path \<Rightarrow>
          if faces_of (rid p) db \<noteq> [] \<or> \<not> is_file path then adopt_faces fit is_file ps db
          else ebind (insert_face fit (rid p) (PStr path) (col p ''created_at'') db) (\<lambda>(_, db').
                 adopt_faces fit is_file ps db')
      | _ \<Rightarrow> adopt_faces fit is_file ps db)"

definition migrate_legacy_faces :: "fitting \<Rightarrow> (string \<Rightarrow> bool) \<Rightarrow> event_db \<Rightarrow> py_exc + event_db" where
  "migrate_legacy_faces fit is_file db =
     adopt_faces fit is_file (sort_key rid (rows (pet_table db))) db"

section \<open>Identities a device reports\<close>

text \<open>
  \<open>json.loads(text or "[]")\<close> of a column: \<open>None\<close> when it raises what every caller catches. The
  \<open>ValueError\<close> of a number with too many digits is not a \<open>JSONDecodeError\<close>.
\<close>

definition load_column :: "pyval \<Rightarrow> py_exc + pyval option" where
  "load_column v =
     (case or_else v (PStr ''[]'') of
        PStr s \<Rightarrow> (case json_loads s of
            Inr w \<Rightarrow> Inr (Some w) | Inl Malformed \<Rightarrow> Inr None | Inl _ \<Rightarrow> Inl ValueError)
      | _ \<Rightarrow> Inr None)"

text \<open>\<open>n in v\<close> for a number.\<close>

fun number_in :: "int \<Rightarrow> pyval \<Rightarrow> py_exc + bool" where
  "number_in n (PList vs) = Inr (list_ex (py_eq (PInt n)) vs)"
| "number_in n (PDict d) = Inr False"
| "number_in n _ = Inl TypeError"

fun select_e :: "('a \<Rightarrow> py_exc + bool) \<Rightarrow> 'a list \<Rightarrow> py_exc + 'a list" where
  "select_e p [] = Inr []"
| "select_e p (x # xs) =
     ebind (p x) (\<lambda>b. ebind (select_e p xs) (\<lambda>ys. Inr (if b then x # ys else ys)))"

definition claims_ref :: "int \<Rightarrow> pydict \<Rightarrow> py_exc + bool" where
  "claims_ref ref p =
     ebind (load_column (get p ''device_pet_ids_json'')) (\<lambda>v.
       case v of Some w \<Rightarrow> number_in ref w | None \<Rightarrow> Inr False)"

definition id_of :: "pydict \<Rightarrow> int" where
  "id_of p = (case get p ''id'' of PInt i \<Rightarrow> i | _ \<Rightarrow> 0)"

definition pets_claiming_ref :: "int \<Rightarrow> event_db \<Rightarrow> py_exc + int list" where
  "pets_claiming_ref ref db = ebind (select_e (claims_ref ref) (all_pets db)) (\<lambda>ps. Inr (map id_of ps))"

definition pets_for_device :: "int \<Rightarrow> event_db \<Rightarrow> py_exc + pydict list" where
  "pets_for_device device db =
     select_e (\<lambda>p. ebind (load_column (get p ''device_ids_json'')) (\<lambda>v.
                  number_in device (case v of Some w \<Rightarrow> w | None \<Rightarrow> PList []))) (all_pets db)"

definition bind_pet_ref :: "fitting \<Rightarrow> int \<Rightarrow> pyval \<Rightarrow> event_db \<Rightarrow> py_exc + int \<times> event_db" where
  "bind_pet_ref fit ref pet_id db =
     ebind (update_rows fit event_columns (\<lambda>r. sql_eq (col r ''pet_ref'') (PInt ref)) [(''pet_id'', pet_id)]
              (event_table db)) (\<lambda>(n, t). Inr (n, db\<lparr>event_table := t\<rparr>))"

text \<open>
  \<open>unbound_pet_refs\<close>: the numbers a pet's list holds before the first entry \<open>int\<close> refuses; only
  an \<open>OverflowError\<close> escapes.
\<close>

fun leading_ints :: "pyval list \<Rightarrow> py_exc + int list" where
  "leading_ints [] = Inr []"
| "leading_ints (v # vs) =
     (case py_int v of
        Inr n \<Rightarrow> ebind (leading_ints vs) (\<lambda>ns. Inr (n # ns))
      | Inl OverflowError \<Rightarrow> Inl OverflowError
      | Inl _ \<Rightarrow> Inr [])"

text \<open>A dict or a text that was decoded is walked by its keys or its characters.\<close>

fun items_of :: "pyval \<Rightarrow> pyval list" where
  "items_of (PList vs) = vs"
| "items_of (PDict d) = map (\<lambda>kv. PStr (fst kv)) d"
| "items_of (PStr s) = map (\<lambda>c. PStr [c]) s"
| "items_of _ = []"

definition aliases_of :: "pydict \<Rightarrow> py_exc + int list" where
  "aliases_of p =
     (case load_column (get p ''device_pet_ids_json'') of
        Inr (Some v) \<Rightarrow> leading_ints (items_of v)
      | _ \<Rightarrow> Inr [])"

fun all_aliases :: "pydict list \<Rightarrow> py_exc + int list" where
  "all_aliases [] = Inr []"
| "all_aliases (p # ps) = ebind (aliases_of p) (\<lambda>a. ebind (all_aliases ps) (\<lambda>b. Inr (a @ b)))"

record unbound_ref =
  ub_ref :: pyval
  ub_count :: nat
  ub_last :: pyval

definition largest :: "pyval list \<Rightarrow> pyval" where
  "largest vs = foldl (\<lambda>a v. if is_null a \<or> sql_less a v then v else a) PNone vs"

definition unbound_pet_refs :: "event_db \<Rightarrow> py_exc + unbound_ref list" where
  "unbound_pet_refs db =
     ebind (all_aliases (all_pets db)) (\<lambda>bound.
       let rs = where_rows (\<lambda>r. \<not> is_null (col r ''pet_ref'') \<and> is_null (col r ''pet_id'')) (event_table db);
           refs = filter (\<lambda>v. \<not> list_ex (\<lambda>n. py_eq v (PInt n)) bound) (remdups (map (\<lambda>r. col r ''pet_ref'') rs))
       in Inr (sort_key (\<lambda>u. - int (ub_count u)) (map (\<lambda>v.
             let g = filter (\<lambda>r. sql_eq (col r ''pet_ref'') v) rs
             in \<lparr>ub_ref = v, ub_count = length g, ub_last = largest (map (\<lambda>r. col r ''ts'') g)\<rparr>) refs)))"

text \<open>\<open>PetRegistry.resolve_pet_ref\<close> and \<open>discern_pic_payload\<close> of \<open>ai/pets.py\<close>.\<close>

fun first_claiming :: "int \<Rightarrow> pydict list \<Rightarrow> py_exc + int option" where
  "first_claiming ref [] = Inr None"
| "first_claiming ref (p # ps) =
     (if id_of p = ref then Inr (Some (id_of p))
      else ebind (load_column (get p ''device_pet_ids_json'')) (\<lambda>v.
           ebind (number_in ref (case v of Some w \<Rightarrow> w | None \<Rightarrow> PList [])) (\<lambda>b.
             if b then Inr (Some (id_of p)) else first_claiming ref ps)))"

definition resolve_pet_ref :: "int option \<Rightarrow> event_db \<Rightarrow> py_exc + int option" where
  "resolve_pet_ref ref db =
     (case ref of None \<Rightarrow> Inr None | Some n \<Rightarrow> first_claiming n (all_pets db))"

definition base_name :: "string \<Rightarrow> string" where
  "base_name path = rev (takeWhile (\<lambda>c. c \<noteq> CHR ''/'') (rev path))"

definition face_entry :: "string \<Rightarrow> pydict \<Rightarrow> pyval option" where
  "face_entry host f =
     (case get f ''photo_path'' of
        PStr path \<Rightarrow> if path = [] then None
          else Some (PDict [(''id'', get f ''id''),
                            (''url'', PStr (''http://'' @ host @ ''/faces/'' @ base_name path))])
      | _ \<Rightarrow> None)"

definition discern_pic_payload :: "int \<Rightarrow> string \<Rightarrow> event_db \<Rightarrow> py_exc + pydict" where
  "discern_pic_payload device host db =
     ebind (pets_for_device device db) (\<lambda>ps.
       Inr [(''result'', PDict [(''list'', PList (List.map_filter (\<lambda>p.
         let discern = List.map_filter (face_entry host) (pet_faces (id_of p) db)
         in if discern = [] then None
            else Some (PDict [(''id'', get p ''id''), (''discern'', PList discern)])) ps))])])"

end
