(* ===== verification/Event_Tasks.thy ===== *)
theory Event_Tasks
  imports Event_Store
begin

text \<open>
  The tasks that write to one \<open>EventStore\<close> at the same time: the write lock, the session of its
  holder, commit, rollback and a crash (\<open>_write\<close>, \<open>transaction\<close> of \<open>events/store.py\<close>), as a
  machine whose labels say which task does what. The specification it refines runs whole writes one
  after the other.
\<close>

section \<open>The writes\<close>

record store_env =
  env_fr :: "rat \<Rightarrow> string"
  env_repr :: "pyval \<Rightarrow> string"
  env_fit :: fitting
  env_is_file :: "string \<Rightarrow> bool"

datatype store_write =
    Upsert_event rat pydict
  | Update_event_fields int pydict
  | Prune_events rat
  | Add_blocked_attempts rat "pydict list"
  | Prune_blocked_attempts rat
  | Upsert_media rat pydict
  | Delete_media int
  | Reclassify_media "(string \<times> string) list"
  | Mark_stitch_failed "int list" string
  | Replace_chunks rat "int list" pydict
  | Upsert_pet rat pydict "int option"
  | Delete_pet int
  | Add_pet_face rat int string
  | Update_pet_face_path int string
  | Delete_pet_face int
  | Bind_pet_ref int pyval
  | Migrate_legacy_faces

abbreviation just_db :: "py_exc + 'a \<times> event_db \<Rightarrow> py_exc + event_db" where
  "just_db res \<equiv> ebind res (\<lambda>(_, db). Inr db)"

fun run_write :: "store_env \<Rightarrow> store_write \<Rightarrow> event_db \<Rightarrow> py_exc + event_db" where
  "run_write env (Upsert_event now row) db = just_db (upsert_event (env_fr env) (env_fit env) now row db)"
| "run_write env (Update_event_fields i given) db = just_db (update_event_fields (env_fit env) i given db)"
| "run_write env (Prune_events before) db = Inr (snd (prune_event_rows before db))"
| "run_write env (Add_blocked_attempts now attempts) db =
     just_db (add_blocked_attempts (env_repr env) (env_fr env) (env_fit env) now attempts db)"
| "run_write env (Prune_blocked_attempts before) db = Inr (snd (prune_blocked_rows before db))"
| "run_write env (Upsert_media now row) db = just_db (upsert_media (env_fit env) now row db)"
| "run_write env (Delete_media i) db = Inr (delete_media_row i db)"
| "run_write env (Reclassify_media m) db = just_db (reclassify_media_categories (env_fit env) m db)"
| "run_write env (Mark_stitch_failed ids reason) db = mark_stitch_failed (env_fit env) ids reason db"
| "run_write env (Replace_chunks now ids merged) db =
     just_db (replace_chunks_with_stitched (env_fit env) now ids merged db)"
| "run_write env (Upsert_pet now row pet_id) db = just_db (upsert_pet (env_fr env) (env_fit env) now row pet_id db)"
| "run_write env (Delete_pet i) db = Inr (delete_pet i db)"
| "run_write env (Add_pet_face now pet_id path) db = just_db (add_pet_face (env_fit env) now pet_id path db)"
| "run_write env (Update_pet_face_path i path) db = update_pet_face_path (env_fit env) i path db"
| "run_write env (Delete_pet_face i) db = Inr (delete_pet_face i db)"
| "run_write env (Bind_pet_ref ref pet_id) db = just_db (bind_pet_ref (env_fit env) ref pet_id db)"
| "run_write env Migrate_legacy_faces db = migrate_legacy_faces (env_fit env) (env_is_file env) db"

fun run_all :: "store_env \<Rightarrow> store_write list \<Rightarrow> event_db \<Rightarrow> py_exc + event_db" where
  "run_all env [] db = Inr db"
| "run_all env (w # ws) db = ebind (run_write env w db) (run_all env ws)"

text \<open>
  The two halves of a write: what it has found when it yields to other tasks, and the statement that
  follows. The other writes are one statement, or have nothing between their statements that depends
  on an earlier answer.
\<close>

datatype pending =
    Event_looked rat pydict pydict "int option"
  | Media_looked rat pydict pydict "int option"
  | Faces_counted rat int string nat
  | Direct store_write

fun look :: "store_env \<Rightarrow> store_write \<Rightarrow> event_db \<Rightarrow> py_exc + pending" where
  "look env (Upsert_event now row) db =
     ebind (event_data (env_fr env) row) (\<lambda>data.
     ebind (find_event (env_fit env) data db) (\<lambda>found. Inr (Event_looked now row data found)))"
| "look env (Upsert_media now row) db =
     (let data = accepted row media_columns
      in ebind (find_media (env_fit env) data db) (\<lambda>found. Inr (Media_looked now row data found)))"
| "look env (Add_pet_face now pet_id path) db = Inr (Faces_counted now pet_id path (length (faces_of pet_id db)))"
| "look env w db = Inr (Direct w)"

fun finish_write :: "store_env \<Rightarrow> pending \<Rightarrow> event_db \<Rightarrow> py_exc + event_db" where
  "finish_write env (Event_looked now row data found) db = just_db (write_event (env_fit env) now row data found db)"
| "finish_write env (Media_looked now row data found) db = just_db (write_media (env_fit env) now row data found db)"
| "finish_write env (Faces_counted now pet_id path n) db = just_db (write_face (env_fit env) now pet_id path n db)"
| "finish_write env (Direct w) db = run_write env w db"

section \<open>Tasks\<close>

datatype stage = Outside | Inside | Between pending

record store_sys =
  committed :: event_db
  working :: event_db
  holder :: "nat option"
  stages :: "nat \<Rightarrow> stage"

datatype task_step =
    Opened nat
  | Looked nat store_write
  | Finished nat
  | Committed nat
  | Rolled_back nat
  | Crashed

definition leave :: "nat \<Rightarrow> store_sys \<Rightarrow> store_sys" where
  "leave t s = s\<lparr>holder := None, stages := (stages s)(t := Outside)\<rparr>"

text \<open>
  One step, \<open>None\<close> when the task cannot take it. A session opens on what is committed, once the lock
  is free; a rollback is whatever exception ends the block, a crash leaves the file as the last commit
  made it.
\<close>

fun step_task :: "store_env \<Rightarrow> task_step \<Rightarrow> store_sys \<Rightarrow> store_sys option" where
  "step_task env (Opened t) s =
     (if holder s = None \<and> stages s t = Outside
      then Some (s\<lparr>working := committed s, holder := Some t, stages := (stages s)(t := Inside)\<rparr>) else None)"
| "step_task env (Looked t w) s =
     (case (stages s t, look env w (working s)) of
        (Inside, Inr p) \<Rightarrow> Some (s\<lparr>stages := (stages s)(t := Between p)\<rparr>) | _ \<Rightarrow> None)"
| "step_task env (Finished t) s =
     (case stages s t of
        Between p \<Rightarrow> (case finish_write env p (working s) of
            Inr db \<Rightarrow> Some (s\<lparr>working := db, stages := (stages s)(t := Inside)\<rparr>) | Inl _ \<Rightarrow> None)
      | _ \<Rightarrow> None)"
| "step_task env (Committed t) s =
     (case stages s t of Inside \<Rightarrow> Some (leave t (s\<lparr>committed := working s\<rparr>)) | _ \<Rightarrow> None)"
| "step_task env (Rolled_back t) s = (if stages s t = Outside then None else Some (leave t s))"
| "step_task env Crashed s = Some (s\<lparr>holder := None, stages := (\<lambda>_. Outside)\<rparr>)"

fun run_tasks :: "store_env \<Rightarrow> task_step list \<Rightarrow> store_sys \<Rightarrow> store_sys option" where
  "run_tasks env [] s = Some s"
| "run_tasks env (l # ls) s = Option.bind (step_task env l s) (run_tasks env ls)"

definition opened_on :: "event_db \<Rightarrow> store_sys" where
  "opened_on db = \<lparr>committed = db, working = db, holder = None, stages = (\<lambda>_. Outside)\<rparr>"

section \<open>The serial history of a run\<close>

text \<open>The writes that are committed, and those of the open session, with the one that has only looked.\<close>

record history =
  done_writes :: "store_write list"
  open_writes :: "store_write list"
  looking :: "store_write option"

fun note_step :: "history \<Rightarrow> task_step \<Rightarrow> history" where
  "note_step h (Opened t) = h\<lparr>open_writes := [], looking := None\<rparr>"
| "note_step h (Looked t w) = h\<lparr>looking := Some w\<rparr>"
| "note_step h (Finished t) =
     h\<lparr>open_writes := open_writes h @ (case looking h of Some w \<Rightarrow> [w] | None \<Rightarrow> []), looking := None\<rparr>"
| "note_step h (Committed t) = h\<lparr>done_writes := done_writes h @ open_writes h, open_writes := []\<rparr>"
| "note_step h (Rolled_back t) = h\<lparr>open_writes := [], looking := None\<rparr>"
| "note_step h Crashed = h\<lparr>open_writes := [], looking := None\<rparr>"

definition history_of :: "task_step list \<Rightarrow> history" where
  "history_of ls = foldl note_step \<lparr>done_writes = [], open_writes = [], looking = None\<rparr> ls"

definition committed_writes :: "task_step list \<Rightarrow> store_write list" where
  "committed_writes ls = done_writes (history_of ls)"

section \<open>Refinement\<close>

lemma write_in_halves: "run_write env w db = ebind (look env w db) (\<lambda>p. finish_write env p db)"
proof (cases w)
  case (Upsert_event now row)
  then show ?thesis
    by (cases "event_data (env_fr env) row") (auto simp: upsert_event_def ebind_def split: sum.splits)
next
  case (Upsert_media now row)
  then show ?thesis by (auto simp: upsert_media_def Let_def ebind_def split: sum.splits)
qed (simp_all add: add_pet_face_def)

lemma run_all_append: "run_all env (ws @ vs) db = ebind (run_all env ws db) (run_all env vs)"
  by (induction ws arbitrary: db) (auto simp: ebind_def split: sum.splits)

text \<open>
  The relation between a state of the tasks and the history of how it came about: only the holder of
  the lock is in a session, what is committed is what the committed writes give, and the session holds
  what its own writes make of it.
\<close>

definition simulates :: "store_env \<Rightarrow> event_db \<Rightarrow> history \<Rightarrow> store_sys \<Rightarrow> bool" where
  "simulates env db h s \<longleftrightarrow>
     (\<forall>t. stages s t \<noteq> Outside \<longrightarrow> holder s = Some t)
   \<and> run_all env (done_writes h) db = Inr (committed s)
   \<and> (\<forall>t. stages s t \<noteq> Outside \<longrightarrow> run_all env (open_writes h) (committed s) = Inr (working s))
   \<and> (\<forall>t p. stages s t = Between p \<longrightarrow> (\<exists>w. looking h = Some w \<and> look env w (working s) = Inr p))"

lemma simulates_start: "simulates env db \<lparr>done_writes = [], open_writes = [], looking = None\<rparr> (opened_on db)"
  by (simp add: simulates_def opened_on_def)

lemma simulates_idle:
  assumes "run_all env (done_writes h) db = Inr (committed s)" and "\<And>t. stages s t = Outside"
  shows "simulates env db h s"
  using assms by (simp add: simulates_def)

lemma simulatesD:
  assumes "simulates env db h s"
  shows "stages s t \<noteq> Outside \<Longrightarrow> holder s = Some t"
    and "run_all env (done_writes h) db = Inr (committed s)"
    and "stages s t \<noteq> Outside \<Longrightarrow> run_all env (open_writes h) (committed s) = Inr (working s)"
    and "stages s t = Between p \<Longrightarrow> \<exists>w. looking h = Some w \<and> look env w (working s) = Inr p"
  using assms unfolding simulates_def by blast+

lemma simulates_alone:
  assumes "simulates env db h s" and "stages s t \<noteq> Outside" and "u \<noteq> t"
  shows "stages s u = Outside"
  using simulatesD(1) [OF assms(1), of t] simulatesD(1) [OF assms(1), of u] assms(2,3) by auto

lemma simulates_step:
  assumes sim: "simulates env db h s" and step: "step_task env l s = Some s'"
  shows "simulates env db (note_step h l) s'"
proof (cases l)
  case (Opened t)
  then show ?thesis using sim step by (auto simp: simulates_def split: if_splits)
next
  case (Looked t w)
  then obtain p where p: "stages s t = Inside" "look env w (working s) = Inr p"
    "s' = s\<lparr>stages := (stages s)(t := Between p)\<rparr>"
    using step by (auto split: stage.splits sum.splits)
  then show ?thesis using sim simulates_alone [OF sim, of t] Looked by (auto simp: simulates_def)
next
  case (Finished t)
  then obtain p db' where p: "stages s t = Between p" "finish_write env p (working s) = Inr db'"
    "s' = s\<lparr>working := db', stages := (stages s)(t := Inside)\<rparr>"
    using step by (auto split: stage.splits sum.splits)
  obtain w where w: "looking h = Some w" "look env w (working s) = Inr p"
    using simulatesD(4) [OF sim p(1)] by blast
  have "run_all env (open_writes h) (committed s) = Inr (working s)"
    using simulatesD(3) [OF sim, of t] p(1) by simp
  then have "run_all env (open_writes h @ [w]) (committed s) = Inr db'"
    using w p(2) by (simp add: run_all_append write_in_halves [of env w])
  then show ?thesis
    using sim simulates_alone [OF sim, of t] p w(1) Finished by (auto simp: simulates_def)
next
  case (Committed t)
  then have t: "stages s t = Inside" and s': "s' = leave t (s\<lparr>committed := working s\<rparr>)"
    using step by (auto split: stage.splits)
  have "run_all env (done_writes h @ open_writes h) db = Inr (working s)"
    using sim t by (auto simp: simulates_def run_all_append)
  then show ?thesis
    using simulates_alone [OF sim, of t] t Committed s'
    by (intro simulates_idle) (auto simp: leave_def)
next
  case (Rolled_back t)
  then show ?thesis
    using sim step simulates_alone [OF sim, of t]
    by (intro simulates_idle) (auto simp: simulates_def leave_def split: if_splits)
next
  case Crashed
  then show ?thesis using sim step by (auto simp: simulates_def)
qed

lemma simulates_run:
  "simulates env db h s \<Longrightarrow> run_tasks env ls s = Some s' \<Longrightarrow> simulates env db (foldl note_step h ls) s'"
  by (induction ls arbitrary: h s) (auto simp: bind_eq_Some_conv intro: simulates_step)

text \<open>
  C4: however the tasks that use the store interleave, fail or are cut off, what is committed is what
  the committed writes give when each runs alone, one after the other in the order of their sessions.
\<close>

theorem tasks_run_serially:
  assumes "run_tasks env ls (opened_on db) = Some s"
  shows "run_all env (committed_writes ls) db = Inr (committed s)"
  using simulates_run [OF simulates_start assms]
  by (simp add: simulates_def committed_writes_def history_of_def)

end
