(* ===== verification/Event_Invariants.thy ===== *)
theory Event_Invariants
  imports Event_Tasks
begin

text \<open>
  What every write of the event store keeps: ids distinct and never handed out twice, at most one row
  for an event and for a media file, at most six faces for a pet. By \<open>tasks_run_serially\<close> it is
  enough to look at whole writes, one at a time.
\<close>

section \<open>The invariant\<close>

definition text_key :: "string \<Rightarrow> table_row \<Rightarrow> string option" where
  "text_key c r = (case col r c of PStr s \<Rightarrow> if s \<noteq> [] then Some s else None | _ \<Rightarrow> None)"

definition keys_once :: "string \<Rightarrow> table \<Rightarrow> bool" where
  "keys_once c t \<longleftrightarrow> distinct (List.map_filter (text_key c) (rows t))"

definition faces_capped :: "event_db \<Rightarrow> bool" where
  "faces_capped db \<longleftrightarrow> (\<forall>pet. length (faces_of pet db) \<le> max_faces_per_pet)"

definition tables_ok :: "event_db \<Rightarrow> bool" where
  "tables_ok db \<longleftrightarrow> table_ok (event_table db) \<and> table_ok (media_table db) \<and> table_ok (blocked_table db)
     \<and> table_ok (pet_table db) \<and> table_ok (face_table db)"

definition db_ok :: "event_db \<Rightarrow> bool" where
  "db_ok db \<longleftrightarrow> tables_ok db \<and> keys_once ''event_uid'' (event_table db)
     \<and> keys_once ''file_id'' (media_table db) \<and> faces_capped db"

text \<open>
  What the code relies on of the database: a text column keeps a text, an integer column an integer
  as they are, and null stays null.
\<close>

definition fit_ok :: "fitting \<Rightarrow> bool" where
  "fit_ok fit \<longleftrightarrow>
     (\<forall>c s w. c \<in> {''event_uid'', ''file_id''} \<and> fit c (PStr s) = Inr w \<longrightarrow> w = PStr s)
   \<and> (\<forall>c w. fit c PNone = Inr w \<longrightarrow> w = PNone)
   \<and> (\<forall>n w. fit ''pet_id'' (PInt n) = Inr w \<longrightarrow> w = PInt n)"

text \<open>
  How the program calls the writes: keys are texts, and no repair of stored rows touches the key of an
  event.
\<close>

definition text_or_none :: "pyval \<Rightarrow> bool" where
  "text_or_none v \<longleftrightarrow> (case v of PStr _ \<Rightarrow> True | PNone \<Rightarrow> True | _ \<Rightarrow> False)"

fun as_called :: "store_write \<Rightarrow> bool" where
  "as_called (Upsert_event now row) = text_or_none (get row ''event_uid'')"
| "as_called (Update_event_fields i given) = (\<not> has_key given ''event_uid'')"
| "as_called (Upsert_media now row) = text_or_none (get row ''file_id'')"
| "as_called (Replace_chunks now ids merged) = text_or_none (get merged ''file_id'')"
| "as_called _ = True"

section \<open>Keys\<close>

lemma lookup_merge_other: "\<not> has_key d c \<Longrightarrow> map_of (dict_merge e d) c = map_of e c"
proof (induction d arbitrary: e)
  case (Cons kv d)
  obtain k v where kv: "kv = (k, v)" by (cases kv)
  then have "map_of (dict_merge (AList.update k v e) d) c = map_of (AList.update k v e) c"
    using Cons by simp
  then show ?case using Cons.prems kv by (simp add: dict_merge_def lookup_update)
qed (simp add: dict_merge_def)

lemma col_set_other: "\<not> has_key d c \<Longrightarrow> col (set_cols d r) c = col r c"
  by (simp add: set_cols_def get_def lookup_merge_other)

lemma col_set_same: "keys_distinct d \<Longrightarrow> map_of d c = Some v \<Longrightarrow> col (set_cols d r) c = v"
  by (simp add: set_cols_def get_def lookup_merge)

lemma col_set: "keys_distinct d \<Longrightarrow> col (set_cols d r) c = (if has_key d c then get d c else col r c)"
  using key_lookup [of c d] col_set_same [of d c] col_set_other [of c d] by (auto simp: get_def)

lemma sql_eq_text: "sql_eq v (PStr s) \<longleftrightarrow> v = PStr s"
proof (cases v)
  case (PFloat f)
  then show ?thesis by (cases f) (auto simp: sql_eq_def is_null_def)
qed (auto simp: sql_eq_def is_null_def inj_map_eq_map [OF inj_of_char])

lemma map_filter_append: "List.map_filter f (xs @ ys) = List.map_filter f xs @ List.map_filter f ys"
  by (induction xs) (auto simp: List.map_filter_simps split: option.splits)

lemma in_map_filter: "y \<in> set (List.map_filter f xs) \<longleftrightarrow> (\<exists>x \<in> set xs. f x = Some y)"
  by (induction xs) (auto simp: List.map_filter_simps split: option.splits)

lemma distinct_map_filter_sub:
  "distinct (List.map_filter f xs) \<Longrightarrow> distinct (List.map_filter f (filter p xs))"
  by (induction xs) (auto simp: List.map_filter_simps in_map_filter split: option.splits)

lemma map_filter_cong_map:
  "(\<And>x. x \<in> set xs \<Longrightarrow> f (g x) = f x) \<Longrightarrow> List.map_filter f (map g xs) = List.map_filter f xs"
  by (induction xs) (auto simp: List.map_filter_simps split: option.splits)

lemma keys_once_delete: "keys_once c t \<Longrightarrow> keys_once c (snd (delete_rows p t))"
  by (simp add: keys_once_def delete_rows_def distinct_map_filter_sub)

lemma keys_once_same:
  assumes "keys_once c t" and "\<And>r. r \<in> set (rows t) \<Longrightarrow> p r \<Longrightarrow> text_key c (set_cols d r) = text_key c r"
  shows "keys_once c (t\<lparr>rows := map (\<lambda>r. if p r then set_cols d r else r) (rows t)\<rparr>)"
proof -
  have "List.map_filter (text_key c) (map (\<lambda>r. if p r then set_cols d r else r) (rows t))
      = List.map_filter (text_key c) (rows t)"
    by (rule map_filter_cong_map) (simp add: assms(2))
  then show ?thesis using assms(1) by (simp add: keys_once_def)
qed

lemma keys_once_update:
  assumes "keys_once c t" and "update_rows fit columns p data t = Inr (n, t')" and "\<not> has_key data c"
  shows "keys_once c t'"
proof -
  obtain d where d: "fit_all fit data = Inr d" "t' = t\<lparr>rows := map (\<lambda>r. if p r then set_cols d r else r) (rows t)\<rparr>"
    using update_rowsD [OF assms(2)] by blast
  have "\<not> has_key d c" using assms(3) fit_all_keys [OF d(1)] by simp
  then show ?thesis
    unfolding d(2) by (intro keys_once_same [OF assms(1)]) (simp add: text_key_def col_set_other)
qed

lemma keys_once_insert:
  assumes "keys_once c t" and "insert_row fit columns data created t = Inr (i, t')"
    and "\<And>d r s. rows t' = rows t @ [r] \<Longrightarrow> text_key c r = Some s \<Longrightarrow> \<forall>q \<in> set (rows t). text_key c q \<noteq> Some s"
  shows "keys_once c t'"
proof -
  obtain d where d: "t' = t\<lparr>rows := rows t @ [\<lparr>rid = i, rcols = d\<rparr>], sequence := i\<rparr>"
    using insert_rowD [OF assms(2)] by blast
  let ?r = "\<lparr>rid = i, rcols = d\<rparr>"
  show ?thesis
    using assms(1) assms(3) [of ?r] d
    by (cases "text_key c ?r") (auto simp: keys_once_def map_filter_append List.map_filter_simps in_map_filter)
qed

text \<open>What a row keeps of the data it was written from.\<close>

lemma accepted_lookup: "map_of (accepted row columns) c = (if c \<in> set columns then map_of row c else None)"
proof (induction columns)
  case (Cons a columns)
  have "accepted row (a # columns)
      = (case map_of row a of Some v \<Rightarrow> (a, v) # accepted row columns | None \<Rightarrow> accepted row columns)"
    by (simp add: accepted_def List.map_filter_simps split: option.splits)
  then show ?case using Cons by (cases "map_of row a") auto
qed (simp add: accepted_def List.map_filter_simps)

lemma accepted_get: "c \<in> set columns \<Longrightarrow> get (accepted row columns) c = get row c"
  by (simp add: get_def accepted_lookup)

lemma accepted_distinct: "distinct columns \<Longrightarrow> keys_distinct (accepted row columns)"
proof (induction columns)
  case (Cons c cs)
  have "set (map fst (accepted row cs)) \<subseteq> set cs"
    by (auto simp: accepted_def in_map_filter split: option.splits)
  then show ?case using Cons by (auto simp: accepted_def List.map_filter_simps split: option.splits)
qed (simp add: accepted_def List.map_filter_simps)

lemma dump_keys_fst: "dump_keys fr ks d = Inr e \<Longrightarrow> map fst e = map fst d"
  by (induction d arbitrary: e) (auto simp: ebind_Inr_iff)

lemma dump_keys_get: "dump_keys fr ks d = Inr e \<Longrightarrow> c \<notin> set ks \<Longrightarrow> get e c = get d c"
  by (induction d arbitrary: e) (auto simp: ebind_Inr_iff get_def split: if_splits)

lemma insert_col:
  assumes "insert_row fit columns data created t = Inr (i, t')" and "c \<in> set columns"
  shows "\<exists>r. rows t' = rows t @ [r]
    \<and> fit c (if get data c = PNone then server_default columns c else get data c) = Inr (col r c)"
proof -
  let ?f = "\<lambda>c. if get data c = PNone then server_default columns c else get data c"
  obtain d where d: "fit_all fit (map (\<lambda>c. (c, ?f c)) columns @ [(''created_at'', created)]) = Inr d"
    "t' = t\<lparr>rows := rows t @ [\<lparr>rid = i, rcols = d\<rparr>], sequence := i\<rparr>"
    using insert_rowD [OF assms(1)] by blast
  have "map_of (map (\<lambda>c. (c, ?f c)) columns @ [(''created_at'', created)]) c = Some (?f c)"
    using assms(2) by (simp add: map_add_Some_iff map_of_map_restrict)
  then obtain w where "fit c (?f c) = Inr w" "map_of d c = Some w"
    using fit_all_get [OF d(1)] by blast
  then show ?thesis using d(2) by (simp add: get_def)
qed

lemma fit_text:
  assumes "fit_ok fit" and "text_or_none v" and "fit c v = Inr (PStr s)" and "c \<in> {''event_uid'', ''file_id''}"
  shows "v = PStr s"
  using assms by (auto simp: fit_ok_def text_or_none_def split: pyval.splits)

lemma row_with_none:
  assumes "row_with fit c v t = Inr None" and "fit c v = Inr (PStr s)" and "r \<in> set (rows t)"
  shows "text_key c r \<noteq> Some s"
proof
  assume "text_key c r = Some s"
  then have "col r c = PStr s" by (auto simp: text_key_def split: pyval.splits if_splits)
  then show False using assms by (auto simp: row_with_def find_None_iff sql_eq_text)
qed

lemma row_with_some:
  assumes "row_with fit c v t = Inr (Some i)" and "fit c v = Inr (PStr s)"
  shows "\<exists>r \<in> set (rows t). rid r = i \<and> col r c = PStr s"
  using assms by (auto simp: row_with_def find_Some_iff sql_eq_text)

text \<open>An insert for a key no row has.\<close>

lemma keys_once_new:
  assumes "keys_once c t" and fit: "fit_ok fit" and "insert_row fit columns data created t = Inr (i, t')"
    and c: "c \<in> set columns" "c \<in> {''event_uid'', ''file_id''}" "server_default columns c = PNone"
    and v: "text_or_none (get data c)"
    and new: "\<And>s. get data c = PStr s \<Longrightarrow> s \<noteq> [] \<Longrightarrow> row_with fit c (get data c) t = Inr None"
  shows "keys_once c t'"
proof (rule keys_once_insert [OF assms(1,3)])
  fix d r s
  assume r: "rows t' = rows t @ [r]" and "text_key c r = Some s"
  then have s: "col r c = PStr s" "s \<noteq> []" by (auto simp: text_key_def split: pyval.splits if_splits)
  obtain r' where "rows t' = rows t @ [r']"
    "fit c (if get data c = PNone then server_default columns c else get data c) = Inr (col r' c)"
    using insert_col [OF assms(3) c(1)] by blast
  then have "fit c (get data c) = Inr (PStr s)" using r s c(3) by (simp split: if_splits)
  moreover from this have "get data c = PStr s" using fit_text [OF fit v _ c(2)] by blast
  ultimately show "\<forall>q \<in> set (rows t). text_key c q \<noteq> Some s"
    using row_with_none new s(2) by metis
qed

section \<open>One table at a time\<close>

lemma faces_of_simps [simp]:
  "faces_of pet (db\<lparr>event_table := t\<rparr>) = faces_of pet db"
  "faces_of pet (db\<lparr>media_table := t\<rparr>) = faces_of pet db"
  "faces_of pet (db\<lparr>blocked_table := t\<rparr>) = faces_of pet db"
  "faces_of pet (db\<lparr>pet_table := t\<rparr>) = faces_of pet db"
  "faces_of pet (db\<lparr>face_table := t\<rparr>) = where_rows (\<lambda>r. sql_eq (col r ''pet_id'') (PInt pet)) t"
  by (simp_all add: faces_of_def)

lemma db_ok_event: "db_ok db \<Longrightarrow> table_ok t \<Longrightarrow> keys_once ''event_uid'' t \<Longrightarrow> db_ok (db\<lparr>event_table := t\<rparr>)"
  by (simp add: db_ok_def tables_ok_def faces_capped_def)

lemma db_ok_media: "db_ok db \<Longrightarrow> table_ok t \<Longrightarrow> keys_once ''file_id'' t \<Longrightarrow> db_ok (db\<lparr>media_table := t\<rparr>)"
  by (simp add: db_ok_def tables_ok_def faces_capped_def)

lemma db_ok_blocked: "db_ok db \<Longrightarrow> table_ok t \<Longrightarrow> db_ok (db\<lparr>blocked_table := t\<rparr>)"
  by (simp add: db_ok_def tables_ok_def faces_capped_def)

lemma db_ok_pet: "db_ok db \<Longrightarrow> table_ok t \<Longrightarrow> db_ok (db\<lparr>pet_table := t\<rparr>)"
  by (simp add: db_ok_def tables_ok_def faces_capped_def)

lemma db_ok_face:
  "db_ok db \<Longrightarrow> table_ok t \<Longrightarrow>
   (\<And>pet. length (where_rows (\<lambda>r. sql_eq (col r ''pet_id'') (PInt pet)) t) \<le> max_faces_per_pet) \<Longrightarrow>
   db_ok (db\<lparr>face_table := t\<rparr>)"
  by (simp add: db_ok_def tables_ok_def faces_capped_def)

lemma db_okD:
  assumes "db_ok db"
  shows "table_ok (event_table db)" "table_ok (media_table db)" "table_ok (blocked_table db)"
    "table_ok (pet_table db)" "table_ok (face_table db)"
    "keys_once ''event_uid'' (event_table db)" "keys_once ''file_id'' (media_table db)"
    "length (faces_of pet db) \<le> max_faces_per_pet"
  using assms by (simp_all add: db_ok_def tables_ok_def faces_capped_def)

lemma where_delete_shorter: "length (where_rows q (snd (delete_rows p t))) \<le> length (where_rows q t)"
proof -
  have "length (filter q (filter (\<lambda>r. \<not> p r) rs)) \<le> length (filter q rs)" for rs
    by (induction rs) auto
  then show ?thesis by (simp add: where_rows_def delete_rows_def del: filter_filter)
qed

lemma db_ok_delete_face: "db_ok db \<Longrightarrow> db_ok (db\<lparr>face_table := snd (delete_rows p (face_table db))\<rparr>)"
  by (rule db_ok_face)
    (auto simp: table_ok_delete db_okD(5)
      intro: order.trans [OF where_delete_shorter] db_okD(8) [unfolded faces_of_def])

text \<open>A face more, for a pet that has room.\<close>

lemma sql_eq_int: "sql_eq (PInt m) (PInt n) \<longleftrightarrow> m = n"
  by (simp add: sql_eq_def is_null_def)

lemma db_ok_insert_face:
  assumes ok: "db_ok db" and fit: "fit_ok fit" and room: "length (faces_of pet db) < max_faces_per_pet"
    and ins: "insert_face fit pet path created db = Inr (i, db')"
  shows "db_ok db'"
proof -
  obtain t where t: "insert_row fit face_columns [(''pet_id'', PInt pet), (''photo_path'', path)] created
      (face_table db) = Inr (i, t)" and db': "db' = db\<lparr>face_table := t\<rparr>"
    using ins by (auto simp: insert_face_def ebind_Inr_iff)
  obtain r where r: "rows t = rows (face_table db) @ [r]" "fit ''pet_id'' (PInt pet) = Inr (col r ''pet_id'')"
    using insert_col [OF t, of "''pet_id''"] by (auto simp: face_columns_def get_def)
  then have "col r ''pet_id'' = PInt pet" using fit by (auto simp: fit_ok_def)
  then have "where_rows (\<lambda>r. sql_eq (col r ''pet_id'') (PInt p)) t
      = faces_of p db @ (if p = pet then [r] else [])" for p
    by (simp add: where_rows_def faces_of_def r(1) sql_eq_int)
  then show ?thesis
    unfolding db' using ok room
    by (intro db_ok_face table_ok_insert [OF _ t]) (auto simp: db_okD)
qed

lemma where_update_other:
  assumes "\<And>r. q (set_cols d r) = q r"
  shows "length (where_rows q (t\<lparr>rows := map (\<lambda>r. if p r then set_cols d r else r) (rows t)\<rparr>))
    = length (where_rows q t)"
proof -
  have "q \<circ> (\<lambda>r. if p r then set_cols d r else r) = q" by (rule ext) (simp add: assms)
  then show ?thesis by (simp add: where_rows_def filter_map)
qed

section \<open>Every write\<close>

lemma event_data_facts:
  assumes "event_data fr row = Inr data"
  shows "get data ''event_uid'' = get row ''event_uid''" and "keys_distinct data"
proof -
  have "get data ''event_uid'' = get (accepted row event_columns) ''event_uid''"
    using assms by (auto simp: event_data_def intro!: dump_keys_get)
  then show "get data ''event_uid'' = get row ''event_uid''"
    by (simp add: accepted_get event_columns_def)
  have "distinct event_columns" by code_simp
  then show "keys_distinct data"
    using assms accepted_distinct [of event_columns row] dump_keys_fst by (auto simp: event_data_def)
qed

text \<open>The row a lookup found is the one its key names, and an update with that key keeps it.\<close>

lemma keys_once_found:
  assumes once: "keys_once c t" and tab: "table_ok t" and fit: "fit_ok fit"
    and c: "c \<in> {''event_uid'', ''file_id''}" and data: "get data c = PStr s" "s \<noteq> []" "keys_distinct data"
    and found: "row_with fit c (PStr s) t = Inr (Some i)"
    and upd: "update_rows fit columns (\<lambda>r. rid r = i) data t = Inr (n, t')"
  shows "keys_once c t'"
proof -
  obtain d where d: "fit_all fit data = Inr d"
    "t' = t\<lparr>rows := map (\<lambda>r. if rid r = i then set_cols d r else r) (rows t)\<rparr>"
    using update_rowsD [OF upd] by blast
  have "fit c (PStr s) \<noteq> Inl e" for e using found by (auto simp: row_with_def)
  then have fs: "fit c (PStr s) = Inr (PStr s)"
    using fit c by (cases "fit c (PStr s)") (auto simp: fit_ok_def)
  obtain q where q: "q \<in> set (rows t)" "rid q = i" "col q c = PStr s"
    using row_with_some [OF found fs] by blast
  have "map_of data c = Some (PStr s)" using data(1) by (auto simp: get_def split: option.splits)
  then have "map_of d c = Some (PStr s)" using fit_all_get [OF d(1)] fs by fastforce
  moreover have "keys_distinct d" using fit_all_keys [OF d(1)] data(3) by simp
  ultimately have "col (set_cols d r) c = PStr s" for r by (simp add: col_set_same)
  moreover have "r = q" if "r \<in> set (rows t)" "rid r = i" for r
    using that q tab by (auto simp: table_ok_def distinct_map dest: inj_onD)
  ultimately show ?thesis
    unfolding d(2) using q(3) by (intro keys_once_same [OF once]) (auto simp: text_key_def)
qed

lemma upsert_event_ok:
  assumes ok: "db_ok db" and fit: "fit_ok fit" and uid: "text_or_none (get row ''event_uid'')"
    and up: "upsert_event fr fit now row db = Inr (i, db')"
  shows "db_ok db'"
proof -
  obtain data found where data: "event_data fr row = Inr data" and found: "find_event fit data db = Inr found"
    and wr: "write_event fit now row data found db = Inr (i, db')"
    using up by (auto simp: upsert_event_def ebind_Inr_iff)
  note facts = event_data_facts [OF data]
  have uid': "text_or_none (get data ''event_uid'')" using uid facts(1) by simp
  show ?thesis
  proof (cases found)
    case None
    then obtain created t where t: "insert_row fit event_columns data created (event_table db) = Inr (i, t)"
      "db' = db\<lparr>event_table := t\<rparr>"
      using wr by (auto simp: write_event_def ebind_Inr_iff)
    have "keys_once ''event_uid'' t"
    proof (rule keys_once_new [OF db_okD(6) [OF ok] fit t(1)])
      show "server_default event_columns ''event_uid'' = PNone" by code_simp
      show "\<And>s. get data ''event_uid'' = PStr s \<Longrightarrow> s \<noteq> [] \<Longrightarrow>
          row_with fit ''event_uid'' (get data ''event_uid'') (event_table db) = Inr None"
        using found None by (simp add: find_event_def)
    qed (simp_all add: event_columns_def uid')
    then show ?thesis using t ok by (auto intro: db_ok_event table_ok_insert db_okD)
  next
    case (Some j)
    then obtain n t where t: "update_rows fit event_columns (\<lambda>r. rid r = j) data (event_table db) = Inr (n, t)"
      "db' = db\<lparr>event_table := t\<rparr>"
      using wr by (auto simp: write_event_def ebind_Inr_iff)
    have "truthy (get data ''event_uid'')" using found Some by (auto simp: find_event_def split: if_splits)
    then obtain s where s: "get data ''event_uid'' = PStr s" "s \<noteq> []"
      using uid' by (auto simp: text_or_none_def split: pyval.splits)
    then have "row_with fit ''event_uid'' (PStr s) (event_table db) = Inr (Some j)"
      using found Some by (simp add: find_event_def)
    then have "keys_once ''event_uid'' t"
      using keys_once_found [OF db_okD(6) [OF ok] db_okD(1) [OF ok] fit _ s facts(2) _ t(1)] by simp
    then show ?thesis using t ok by (auto intro: db_ok_event table_ok_update db_okD)
  qed
qed

lemma file_id_col: "''file_id'' \<in> set media_columns"
  by (simp add: media_columns_def)

lemma update_media_ok:
  assumes ok: "db_ok db" and up: "update_rows fit media_columns p data (media_table db) = Inr (n, t)"
    and data: "\<not> has_key data ''file_id''"
  shows "db_ok (db\<lparr>media_table := t\<rparr>)"
  by (intro db_ok_media ok table_ok_update [OF _ up] keys_once_update [OF _ up data] db_okD)

lemma update_event_ok:
  assumes ok: "db_ok db" and up: "update_rows fit event_columns p data (event_table db) = Inr (n, t)"
    and data: "\<not> has_key data ''event_uid''"
  shows "db_ok (db\<lparr>event_table := t\<rparr>)"
  by (intro db_ok_event ok table_ok_update [OF _ up] keys_once_update [OF _ up data] db_okD)

lemma insert_media_ok:
  assumes ok: "db_ok db" and fit: "fit_ok fit" and key: "text_or_none (get data ''file_id'')"
    and ins: "insert_media fit now row data db = Inr (i, db')"
  shows "db_ok db'"
proof -
  obtain created t where free: "row_with fit ''file_id'' (get data ''file_id'') (media_table db) = Inr None"
    and t: "insert_row fit media_columns data created (media_table db) = Inr (i, t)"
    and db': "db' = db\<lparr>media_table := t\<rparr>"
    using ins by (auto simp: insert_media_def ebind_Inr_iff split: if_splits)
  have "keys_once ''file_id'' t"
  proof (rule keys_once_new [OF db_okD(7) [OF ok] fit t])
    show "server_default media_columns ''file_id'' = PNone" by code_simp
    show "\<And>s. get data ''file_id'' = PStr s \<Longrightarrow> s \<noteq> [] \<Longrightarrow>
        row_with fit ''file_id'' (get data ''file_id'') (media_table db) = Inr None" by (rule free)
  qed (simp_all add: file_id_col key)
  then show ?thesis using t ok by (auto simp: db' intro: db_ok_media table_ok_insert db_okD)
qed

lemma delete_media_ok: "db_ok db \<Longrightarrow> db_ok (db\<lparr>media_table := snd (delete_rows p (media_table db))\<rparr>)"
  by (intro db_ok_media table_ok_delete keys_once_delete db_okD)

lemma upsert_media_ok:
  assumes ok: "db_ok db" and fit: "fit_ok fit" and key: "text_or_none (get row ''file_id'')"
    and up: "upsert_media fit now row db = Inr (i, db')"
  shows "db_ok db'"
proof -
  let ?data = "accepted row media_columns"
  obtain found where wr: "write_media fit now row ?data found db = Inr (i, db')"
    using up by (auto simp: upsert_media_def Let_def ebind_Inr_iff)
  show ?thesis
  proof (cases found)
    case None
    then show ?thesis
      using wr insert_media_ok [OF ok fit, of ?data now row i db'] key
      by (simp add: write_media_def accepted_get file_id_col)
  next
    case (Some j)
    then obtain n t where "update_rows fit media_columns (\<lambda>r. rid r = j)
        (filter (\<lambda>(k, v). k \<noteq> ''file_id'') ?data) (media_table db) = Inr (n, t)" "db' = db\<lparr>media_table := t\<rparr>"
      using wr by (auto simp: write_media_def ebind_Inr_iff)
    moreover have "\<not> has_key (filter (\<lambda>(k, v). k \<noteq> ''file_id'') ?data) ''file_id''" by auto
    ultimately show ?thesis using update_media_ok [OF ok] by simp
  qed
qed

lemma replace_chunks_ok:
  assumes "db_ok db" and "fit_ok fit" and "text_or_none (get merged ''file_id'')"
    and "replace_chunks_with_stitched fit now ids merged db = Inr (i, db')"
  shows "db_ok db'"
  using assms(3,4) unfolding replace_chunks_with_stitched_def
  by (intro insert_media_ok [OF delete_media_ok [OF assms(1)] assms(2)])
    (simp_all add: accepted_get file_id_col)

lemma reclassify_ok:
  "db_ok db \<Longrightarrow> reclassify_media_categories fit m db = Inr (n, db') \<Longrightarrow> db_ok db'"
proof (induction m arbitrary: db n)
  case (Cons mc m)
  obtain a c where mc: "mc = (a, c)" by (cases mc)
  obtain k t j where up: "update_rows fit media_columns
        (\<lambda>r. sql_eq (col r ''module_type'') (PStr a) \<and> sql_ne (col r ''category'') (PStr c))
        [(''category'', PStr c)] (media_table db) = Inr (k, t)"
    and rest: "reclassify_media_categories fit m (db\<lparr>media_table := t\<rparr>) = Inr (j, db')"
    using Cons.prems(2) by (auto simp: mc ebind_Inr_iff)
  show ?case using Cons.IH [OF update_media_ok [OF Cons.prems(1) up] rest] by simp
qed simp

lemma insert_blocked_ok: "table_ok t \<Longrightarrow> insert_blocked repr fr fit now attempts t = Inr t' \<Longrightarrow> table_ok t'"
  by (induction attempts arbitrary: t) (auto simp: ebind_Inr_iff dest: table_ok_insert)

lemma adopt_faces_ok:
  "db_ok db \<Longrightarrow> fit_ok fit \<Longrightarrow> adopt_faces fit is_file ps db = Inr db' \<Longrightarrow> db_ok db'"
proof (induction ps arbitrary: db)
  case (Cons p ps)
  show ?case
  proof (cases "\<exists>path. col p ''photo_path'' = PStr path \<and> faces_of (rid p) db = [] \<and> is_file path")
    case True
    then obtain path i db1 where ins: "insert_face fit (rid p) (PStr path) (col p ''created_at'') db = Inr (i, db1)"
      and rest: "adopt_faces fit is_file ps db1 = Inr db'" and none: "faces_of (rid p) db = []"
      using Cons.prems(3) by (auto simp: ebind_Inr_iff)
    have "length (faces_of (rid p) db) < max_faces_per_pet" by (simp add: none max_faces_per_pet_def)
    then show ?thesis
      using Cons.IH [OF db_ok_insert_face [OF Cons.prems(1,2) _ ins] Cons.prems(2) rest] by simp
  next
    case False
    then have "adopt_faces fit is_file ps db = Inr db'"
      using Cons.prems(3) by (auto split: pyval.splits if_splits)
    then show ?thesis using Cons.IH Cons.prems by blast
  qed
qed simp

lemma upsert_pet_ok:
  assumes ok: "db_ok db" and up: "upsert_pet fr fit now row pet_id db = Inr (i, db')"
  shows "db_ok db'"
proof -
  obtain data where data: "pet_data fr row = Inr data" using up by (auto simp: upsert_pet_def ebind_Inr_iff)
  show ?thesis
  proof (cases pet_id)
    case None
    then obtain created t where "insert_row fit pet_columns data created (pet_table db) = Inr (i, t)"
      "db' = db\<lparr>pet_table := t\<rparr>"
      using up data by (auto simp: upsert_pet_def ebind_Inr_iff)
    then show ?thesis using db_ok_pet [OF ok] table_ok_insert [OF db_okD(4) [OF ok]] by blast
  next
    case (Some j)
    show ?thesis
    proof (cases "data = []")
      case True
      then show ?thesis using up data Some ok by (simp add: upsert_pet_def)
    next
      case False
      then obtain n t where "update_rows fit pet_columns (\<lambda>r. rid r = j) data (pet_table db) = Inr (n, t)"
        "db' = db\<lparr>pet_table := t\<rparr>"
        using up data Some by (auto simp: upsert_pet_def ebind_Inr_iff)
      then show ?thesis using db_ok_pet [OF ok] table_ok_update [OF db_okD(4) [OF ok]] by blast
    qed
  qed
qed

lemma update_face_path_ok:
  assumes ok: "db_ok db" and up: "update_pet_face_path fit i path db = Inr db'"
  shows "db_ok db'"
proof -
  obtain n t where t: "update_rows fit face_columns (\<lambda>r. rid r = i) [(''photo_path'', PStr path)] (face_table db)
      = Inr (n, t)" and db': "db' = db\<lparr>face_table := t\<rparr>"
    using up by (auto simp: update_pet_face_path_def ebind_Inr_iff)
  obtain d where d: "fit_all fit [(''photo_path'', PStr path)] = Inr d"
    "t = (face_table db)\<lparr>rows := map (\<lambda>r. if rid r = i then set_cols d r else r) (rows (face_table db))\<rparr>"
    using update_rowsD [OF t] by blast
  have "\<not> has_key d ''pet_id''" using fit_all_keys [OF d(1)] by simp
  then have "length (where_rows (\<lambda>r. sql_eq (col r ''pet_id'') (PInt pet)) t) = length (faces_of pet db)" for pet
    unfolding d(2) faces_of_def by (intro where_update_other) (simp add: col_set_other)
  then show ?thesis
    unfolding db' by (intro db_ok_face ok table_ok_update [OF _ t]) (simp_all add: db_okD [OF ok])
qed

lemma run_write_ok:
  assumes ok: "db_ok db" and fit: "fit_ok (env_fit env)" and called: "as_called w" and run: "run_write env w db = Inr db'"
  shows "db_ok db'"
proof (cases w)
  case (Upsert_event now row)
  then show ?thesis using run called by (auto simp: ebind_Inr_iff dest!: upsert_event_ok [OF ok fit])
next
  case (Update_event_fields i given)
  let ?data = "filter (\<lambda>(k, v). k \<in> set event_columns) given"
  have "\<not> has_key ?data ''event_uid''" using called Update_event_fields by auto
  then show ?thesis
    using run ok update_event_ok [OF ok, of "env_fit env" _ ?data]
    by (auto simp: Update_event_fields update_event_fields_def Let_def ebind_Inr_iff split: if_splits)
next
  case (Prune_events before)
  then show ?thesis using run ok
    by (auto simp: prune_event_rows_def split_beta intro!: db_ok_event table_ok_delete keys_once_delete db_okD)
next
  case (Add_blocked_attempts now attempts)
  then show ?thesis using run ok
    by (auto simp: add_blocked_attempts_def ebind_Inr_iff split: if_splits
        intro!: db_ok_blocked dest: insert_blocked_ok [rotated] db_okD(3))
next
  case (Prune_blocked_attempts before)
  then show ?thesis using run ok
    by (auto simp: prune_blocked_rows_def split_beta intro!: db_ok_blocked table_ok_delete db_okD)
next
  case (Upsert_media now row)
  then show ?thesis using run called by (auto simp: ebind_Inr_iff dest!: upsert_media_ok [OF ok fit])
next
  case (Delete_media i)
  then show ?thesis using run ok by (auto simp: delete_media_row_def intro: delete_media_ok)
next
  case (Reclassify_media m)
  then show ?thesis using run reclassify_ok [OF ok] by (auto simp: ebind_Inr_iff)
next
  case (Mark_stitch_failed ids reason)
  then show ?thesis
    using run ok update_media_ok [OF ok, of "env_fit env" _ "[(''stitch_state'', PStr reason)]"]
    by (auto simp: mark_stitch_failed_def ebind_Inr_iff split: if_splits)
next
  case (Replace_chunks now ids merged)
  then show ?thesis using run called by (auto simp: ebind_Inr_iff dest!: replace_chunks_ok [OF ok fit])
next
  case (Upsert_pet now row pet_id)
  then show ?thesis using run upsert_pet_ok [OF ok] by (auto simp: ebind_Inr_iff)
next
  case (Delete_pet i)
  then show ?thesis
    using run db_ok_delete_face [OF ok] by (auto simp: delete_pet_def intro!: db_ok_pet table_ok_delete db_okD ok)
next
  case (Add_pet_face now pet path)
  then show ?thesis
    using run ok db_ok_insert_face [OF ok fit, of pet]
    by (auto simp: add_pet_face_def write_face_def ebind_Inr_iff split: if_splits)
next
  case (Update_pet_face_path i path)
  then show ?thesis using run update_face_path_ok [OF ok] by auto
next
  case (Delete_pet_face i)
  then show ?thesis using run ok by (auto simp: delete_pet_face_def intro: db_ok_delete_face)
next
  case (Bind_pet_ref ref pet_id)
  then show ?thesis
    using run update_event_ok [OF ok, of "env_fit env" _ "[(''pet_id'', pet_id)]"]
    by (auto simp: bind_pet_ref_def ebind_Inr_iff)
next
  case Migrate_legacy_faces
  then show ?thesis using run adopt_faces_ok [OF ok fit] by (auto simp: migrate_legacy_faces_def)
qed

end
