(* ===== verification/Event_Growth.thy ===== *)
theory Event_Growth
  imports Event_Invariants
begin

text \<open>
  The ids of the event store: every table of it only grows in the ids it has handed out, and a deleted
  id never comes back. The writes are a growing machine; with \<open>tasks_run_serially\<close> this gives what
  holds of every state that tasks commit.
\<close>

section \<open>No id comes back\<close>

definition grows :: "table \<Rightarrow> table \<Rightarrow> bool" where
  "grows t u \<longleftrightarrow> sequence t \<le> sequence u \<and> (\<forall>i \<in> rid ` set (rows u). i \<le> sequence t \<longrightarrow> i \<in> rid ` set (rows t))"

definition db_grows :: "event_db \<Rightarrow> event_db \<Rightarrow> bool" where
  "db_grows db e \<longleftrightarrow> grows (event_table db) (event_table e) \<and> grows (media_table db) (media_table e)
     \<and> grows (blocked_table db) (blocked_table e) \<and> grows (pet_table db) (pet_table e)
     \<and> grows (face_table db) (face_table e)"

lemma grows_refl [simp]: "grows t t"
  by (simp add: grows_def)

lemma grows_trans: "grows t u \<Longrightarrow> grows u v \<Longrightarrow> grows t v"
  unfolding grows_def by (meson order.trans)

lemma db_grows_refl [simp]: "db_grows db db"
  by (simp add: db_grows_def)

lemma db_grows_trans: "db_grows a b \<Longrightarrow> db_grows b c \<Longrightarrow> db_grows a c"
  unfolding db_grows_def using grows_trans by blast

lemma grows_insert: "insert_row fit columns data created t = Inr (i, u) \<Longrightarrow> grows t u"
  by (auto simp: grows_def dest!: insert_rowD)

lemma grows_update:
  assumes "update_rows fit columns p data t = Inr (n, u)"
  shows "grows t u"
proof -
  obtain d where "u = t\<lparr>rows := map (\<lambda>r. if p r then set_cols d r else r) (rows t)\<rparr>"
    using update_rowsD [OF assms] by blast
  then show ?thesis by (auto simp: grows_def)
qed

lemma grows_delete [simp]: "grows t (snd (delete_rows p t))"
  by (auto simp: grows_def delete_rows_def)

lemma db_grows_simps [simp]:
  "db_grows db (db\<lparr>event_table := t\<rparr>) \<longleftrightarrow> grows (event_table db) t"
  "db_grows db (db\<lparr>media_table := t\<rparr>) \<longleftrightarrow> grows (media_table db) t"
  "db_grows db (db\<lparr>blocked_table := t\<rparr>) \<longleftrightarrow> grows (blocked_table db) t"
  "db_grows db (db\<lparr>pet_table := t\<rparr>) \<longleftrightarrow> grows (pet_table db) t"
  "db_grows db (db\<lparr>face_table := t\<rparr>) \<longleftrightarrow> grows (face_table db) t"
  by (simp_all add: db_grows_def)

lemma write_event_grows: "write_event fit now row data found db = Inr (i, db') \<Longrightarrow> db_grows db db'"
  by (cases found) (auto simp: write_event_def ebind_Inr_iff intro: grows_insert grows_update)

lemma insert_media_grows: "insert_media fit now row data db = Inr (i, db') \<Longrightarrow> db_grows db db'"
  by (auto simp: insert_media_def ebind_Inr_iff split: if_splits intro: grows_insert)

lemma write_media_grows: "write_media fit now row data found db = Inr (i, db') \<Longrightarrow> db_grows db db'"
  by (cases found) (auto simp: write_media_def ebind_Inr_iff intro: insert_media_grows grows_update)

lemma insert_face_grows: "insert_face fit pet path created db = Inr (i, db') \<Longrightarrow> db_grows db db'"
  by (auto simp: insert_face_def ebind_Inr_iff intro: grows_insert)

lemma insert_blocked_grows: "insert_blocked repr fr fit now attempts t = Inr u \<Longrightarrow> grows t u"
proof (induction attempts arbitrary: t)
  case (Cons row others)
  obtain created i v where "insert_row fit blocked_columns (blocked_data repr fr row) created t = Inr (i, v)"
    "insert_blocked repr fr fit now others v = Inr u"
    using Cons.prems by (auto simp: ebind_Inr_iff)
  then show ?case using Cons.IH grows_insert grows_trans by blast
qed simp

lemma reclassify_grows: "reclassify_media_categories fit m db = Inr (n, db') \<Longrightarrow> db_grows db db'"
proof (induction m arbitrary: db n)
  case (Cons mc m)
  obtain a c where mc: "mc = (a, c)" by (cases mc)
  obtain k t j where up: "update_rows fit media_columns
        (\<lambda>r. sql_eq (col r ''module_type'') (PStr a) \<and> sql_ne (col r ''category'') (PStr c))
        [(''category'', PStr c)] (media_table db) = Inr (k, t)"
    and rest: "reclassify_media_categories fit m (db\<lparr>media_table := t\<rparr>) = Inr (j, db')"
    using Cons.prems by (auto simp: mc ebind_Inr_iff)
  have "db_grows db (db\<lparr>media_table := t\<rparr>)" using grows_update [OF up] by simp
  then show ?case using Cons.IH [OF rest] by (rule db_grows_trans)
qed simp

lemma adopt_faces_grows: "adopt_faces fit is_file ps db = Inr db' \<Longrightarrow> db_grows db db'"
proof (induction ps arbitrary: db)
  case (Cons p ps)
  show ?case
  proof (cases "\<exists>path. col p ''photo_path'' = PStr path \<and> faces_of (rid p) db = [] \<and> is_file path")
    case True
    then obtain path i db1 where "insert_face fit (rid p) (PStr path) (col p ''created_at'') db = Inr (i, db1)"
      "adopt_faces fit is_file ps db1 = Inr db'"
      using Cons.prems by (auto simp: ebind_Inr_iff)
    then show ?thesis using Cons.IH insert_face_grows db_grows_trans by blast
  next
    case False
    then have "adopt_faces fit is_file ps db = Inr db'"
      using Cons.prems by (auto split: pyval.splits if_splits)
    then show ?thesis by (rule Cons.IH)
  qed
qed simp

lemma upsert_pet_grows:
  assumes up: "upsert_pet fr fit now row pet_id db = Inr (i, db')"
  shows "db_grows db db'"
proof -
  obtain data where data: "pet_data fr row = Inr data" using up by (auto simp: upsert_pet_def ebind_Inr_iff)
  show ?thesis
  proof (cases pet_id)
    case None
    then show ?thesis using up data by (auto simp: upsert_pet_def ebind_Inr_iff intro: grows_insert)
  next
    case (Some j)
    then show ?thesis
      using up data by (cases "data = []") (auto simp: upsert_pet_def ebind_Inr_iff intro: grows_update)
  qed
qed

lemma finish_grows:
  assumes "finish_write env p db = Inr db'" and "\<And>w. p \<noteq> Direct w"
  shows "db_grows db db'"
  using assms
  by (cases p) (auto simp: ebind_Inr_iff write_face_def split: if_splits
      intro: write_event_grows write_media_grows insert_face_grows)

lemma run_write_grows:
  assumes run: "run_write env w db = Inr db'"
  shows "db_grows db db'"
proof (cases w)
  case (Update_event_fields i given)
  then show ?thesis
    using run by (auto simp: update_event_fields_def Let_def ebind_Inr_iff split: if_splits intro: grows_update)
next
  case (Replace_chunks now ids merged)
  then obtain i where ins: "insert_media (env_fit env) now merged (accepted merged media_columns)
      (db\<lparr>media_table := snd (delete_rows (\<lambda>r. rid r \<in> set ids) (media_table db))\<rparr>) = Inr (i, db')"
    using run by (auto simp: replace_chunks_with_stitched_def ebind_Inr_iff)
  show ?thesis by (rule db_grows_trans [OF _ insert_media_grows [OF ins]]) simp
next
  case (Upsert_event now row)
  then show ?thesis
    using run finish_grows by (auto simp: write_in_halves ebind_Inr_iff intro: write_event_grows simp del: run_write.simps)
next
  case (Upsert_media now row)
  then show ?thesis
    using run by (auto simp: write_in_halves Let_def ebind_Inr_iff intro: write_media_grows simp del: run_write.simps)
next
  case (Add_pet_face now pet path)
  then show ?thesis
    using run by (auto simp: add_pet_face_def write_face_def ebind_Inr_iff split: if_splits intro: insert_face_grows)
next
  case (Upsert_pet now row pet_id)
  then show ?thesis using run by (auto simp: ebind_Inr_iff intro: upsert_pet_grows)
next
  case (Mark_stitch_failed ids reason)
  then show ?thesis
    using run by (auto simp: mark_stitch_failed_def ebind_Inr_iff split: if_splits intro: grows_update)
next
  case (Add_blocked_attempts now attempts)
  then show ?thesis
    using run by (auto simp: add_blocked_attempts_def ebind_Inr_iff split: if_splits intro: insert_blocked_grows)
next
  case (Delete_pet i)
  then show ?thesis using run by (auto simp: delete_pet_def db_grows_def)
qed (use run in \<open>auto simp: prune_event_rows_def prune_blocked_rows_def delete_media_row_def delete_pet_face_def
    update_pet_face_path_def bind_pet_ref_def migrate_legacy_faces_def split_beta ebind_Inr_iff
    intro: grows_update reclassify_grows adopt_faces_grows\<close>)

section \<open>The writes as a machine\<close>

definition called_write :: "store_env \<Rightarrow> event_db \<Rightarrow> store_write \<Rightarrow> event_db" where
  "called_write env db w =
     (if as_called w then (case run_write env w db of Inr db' \<Rightarrow> db' | Inl _ \<Rightarrow> db) else db)"

interpretation store_writes: growing_machine "called_write env" "\<lambda>db. fit_ok (env_fit env) \<and> db_ok db" db_grows
  by unfold_locales
    (auto simp: called_write_def split: sum.splits intro: run_write_ok run_write_grows db_grows_trans)

lemma run_all_machine:
  "run_all env ws db = Inr db' \<Longrightarrow> list_all as_called ws \<Longrightarrow> foldl (called_write env) db ws = db'"
  by (induction ws arbitrary: db) (auto simp: called_write_def ebind_Inr_iff)

lemma committed_were_looked:
  assumes "list_all as_called (done_writes h @ open_writes h)" "\<And>w. looking h = Some w \<Longrightarrow> as_called w"
    and "\<And>t w. Looked t w \<in> set ls \<Longrightarrow> as_called w"
  shows "list_all as_called (done_writes (foldl note_step h ls))"
  using assms
proof (induction ls arbitrary: h)
  case (Cons l ls)
  have "list_all as_called (done_writes (note_step h l) @ open_writes (note_step h l))
      \<and> (\<forall>w. looking (note_step h l) = Some w \<longrightarrow> as_called w)"
    using Cons.prems by (cases l) (auto split: option.splits)
  then show ?case using Cons.IH [of "note_step h l"] Cons.prems(3) by (auto simp: list_all_iff)
qed simp

text \<open>
  C5: tasks that use the store at once keep it sound: every table's ids are distinct, an event and a
  media file have at most one row each, no pet has more than six faces, and no id a table ever handed
  out comes back once its row is deleted.
\<close>

theorem store_stays_sound:
  assumes fit: "fit_ok (env_fit env)" and ok: "db_ok db"
    and run: "run_tasks env ls (opened_on db) = Some s"
    and called: "\<And>t w. Looked t w \<in> set ls \<Longrightarrow> as_called w"
  shows "db_ok (committed s) \<and> db_grows db (committed s)"
proof -
  have "run_all env (committed_writes ls) db = Inr (committed s)"
    using simulates_run [OF simulates_start run] by (simp add: simulates_def committed_writes_def history_of_def)
  moreover have "list_all as_called (committed_writes ls)"
    unfolding committed_writes_def history_of_def by (rule committed_were_looked) (auto intro: called)
  ultimately have "foldl (called_write env) db (committed_writes ls) = committed s"
    by (rule run_all_machine)
  then show ?thesis using store_writes.run_inv store_writes.run_le fit ok by metis
qed

end
