(* ===== verification/Event_Map.thy ===== *)
theory Event_Map
  imports Event_Growth
begin

text \<open>
  What an upsert promises: the event table is a map from the key of an event to its columns, and
  \<open>upsert_event\<close> of a keyed row is an update of that map, errors included. Also concrete runs of the
  tasks of \<open>Event_Tasks\<close>.
\<close>

section \<open>The map of events\<close>

definition event_map :: "event_db \<Rightarrow> string \<Rightarrow> pydict option" where
  "event_map db u = map_option rcols (find (\<lambda>r. text_key ''event_uid'' r = Some u) (rows (event_table db)))"

text \<open>The columns of an event that is new, and of one that is overwritten.\<close>

definition fresh_event :: "fitting \<Rightarrow> pydict \<Rightarrow> pyval \<Rightarrow> py_exc + pydict" where
  "fresh_event fit data created =
     ebind (fit_all fit (map (\<lambda>c. (c, get data c)) event_columns @ [(''created_at'', created)]))
       (check_required event_columns)"

definition overwritten :: "fitting \<Rightarrow> pydict \<Rightarrow> pydict \<Rightarrow> py_exc + pydict" where
  "overwritten fit data old =
     ebind (fit_all fit data) (\<lambda>d.
       if list_ex (\<lambda>c. has_key d c \<and> is_null (get d c)) (required_columns event_columns)
       then Inl integrity_error else Inr (dict_merge old d))"

definition upsert_in_map ::
    "(rat \<Rightarrow> string) \<Rightarrow> fitting \<Rightarrow> rat \<Rightarrow> pydict \<Rightarrow> string \<Rightarrow> (string \<Rightarrow> pydict option) \<Rightarrow> py_exc + (string \<Rightarrow> pydict option)" where
  "upsert_in_map fr fit now row u m =
     ebind (event_data fr row) (\<lambda>data.
     ebind (case m u of
              Some old \<Rightarrow> overwritten fit data old
            | None \<Rightarrow> ebind (created_at now row) (fresh_event fit data)) (\<lambda>d. Inr (m(u \<mapsto> d))))"

lemma no_default: "c \<in> set event_columns \<Longrightarrow> server_default event_columns c = PNone"
proof -
  have "list_all (\<lambda>c. server_default event_columns c = PNone) event_columns" by code_simp
  then show "c \<in> set event_columns \<Longrightarrow> server_default event_columns c = PNone" by (simp add: list_all_iff)
qed

lemma insert_row_fresh:
  "insert_row fit event_columns data created t =
     ebind (fresh_event fit data created) (\<lambda>d.
       Inr (sequence t + 1, t\<lparr>rows := rows t @ [\<lparr>rid = sequence t + 1, rcols = d\<rparr>], sequence := sequence t + 1\<rparr>))"
proof -
  have "map (\<lambda>c. (c, if get data c = PNone then server_default event_columns c else get data c)) event_columns
      = map (\<lambda>c. (c, get data c)) event_columns"
    by (rule map_cong) (auto simp: no_default)
  then have "insert_row fit event_columns data created t
      = ebind (fit_all fit (map (\<lambda>c. (c, get data c)) event_columns @ [(''created_at'', created)])) (\<lambda>d.
        ebind (check_required event_columns d) (\<lambda>d. Inr (sequence t + 1,
          t\<lparr>rows := rows t @ [\<lparr>rid = sequence t + 1, rcols = d\<rparr>], sequence := sequence t + 1\<rparr>)))"
    unfolding insert_row_def Let_def by (rule arg_cong)
  then show ?thesis by (auto simp: fresh_event_def ebind_def split: sum.splits)
qed

lemma find_map: "(\<And>x. P (f x) = P x) \<Longrightarrow> find P (map f xs) = map_option f (find P xs)"
  by (induction xs) auto

lemma find_append: "find P (xs @ ys) = (case find P xs of Some x \<Rightarrow> Some x | None \<Rightarrow> find P ys)"
  by (induction xs) auto

lemma fresh_key:
  assumes "fresh_event fit data created = Inr d" and "get data ''event_uid'' = PStr u"
    and "fit ''event_uid'' (PStr u) = Inr (PStr u)"
  shows "get d ''event_uid'' = PStr u"
proof -
  let ?full = "map (\<lambda>c. (c, get data c)) event_columns @ [(''created_at'', created)]"
  have d: "fit_all fit ?full = Inr d"
    using assms(1) by (auto simp: fresh_event_def check_required_def ebind_Inr_iff split: if_splits)
  have "map_of ?full ''event_uid'' = Some (PStr u)"
    by (simp add: event_columns_def assms(2))
  then show ?thesis using fit_all_get [OF d] assms(3) by (fastforce simp: get_def)
qed

text \<open>The lookup of an upsert finds the row the map shows.\<close>

lemma find_event_map:
  assumes "fit ''event_uid'' (PStr u) = Inr (PStr u)" and "get data ''event_uid'' = PStr u" and "u \<noteq> []"
  shows "find_event fit data db
    = Inr (map_option rid (find (\<lambda>r. text_key ''event_uid'' r = Some u) (rows (event_table db))))"
proof -
  have "sql_eq (col r ''event_uid'') (PStr u) \<longleftrightarrow> text_key ''event_uid'' r = Some u" for r
    using assms(3) by (auto simp: sql_eq_text text_key_def split: pyval.splits)
  then show ?thesis using assms by (simp add: find_event_def row_with_def)
qed

lemma new_event_in_map:
  assumes none: "find (\<lambda>r. text_key ''event_uid'' r = Some u) (rows (event_table db)) = None"
    and key: "get d ''event_uid'' = PStr u" "u \<noteq> []"
  shows "event_map (db\<lparr>event_table := (event_table db)\<lparr>rows := rows (event_table db) @ [\<lparr>rid = i, rcols = d\<rparr>],
      sequence := i\<rparr>\<rparr>) = (event_map db)(u \<mapsto> d)"
proof
  fix v
  have "text_key ''event_uid'' \<lparr>rid = i, rcols = d\<rparr> = Some u" using key by (simp add: text_key_def)
  then show "event_map (db\<lparr>event_table := (event_table db)\<lparr>rows := rows (event_table db) @ [\<lparr>rid = i, rcols = d\<rparr>],
      sequence := i\<rparr>\<rparr>) v = ((event_map db)(u \<mapsto> d)) v"
    using none by (auto simp: event_map_def find_append split: option.splits)
qed

lemma found_key:
  assumes "find (\<lambda>r. text_key c r = Some u) rs = Some q"
  shows "q \<in> set rs" and "col q c = PStr u"
proof -
  show "q \<in> set rs" using assms by (auto simp: find_Some_iff)
  have "text_key c q = Some u" using assms by (auto simp: find_Some_iff)
  then show "col q c = PStr u" by (auto simp: text_key_def split: pyval.splits if_splits)
qed

lemma old_event_in_map:
  assumes tab: "table_ok (event_table db)"
    and q: "find (\<lambda>r. text_key ''event_uid'' r = Some u) (rows (event_table db)) = Some q"
    and same: "col (set_cols d q) ''event_uid'' = col q ''event_uid''"
  shows "event_map (db\<lparr>event_table := (event_table db)\<lparr>rows :=
      map (\<lambda>r. if rid r = rid q then set_cols d r else r) (rows (event_table db))\<rparr>\<rparr>)
    = (event_map db)(u \<mapsto> dict_merge (rcols q) d)"
proof
  fix v
  let ?rs = "rows (event_table db)" and ?f = "\<lambda>r. if rid r = rid q then set_cols d r else r"
  have q': "q \<in> set ?rs" "text_key ''event_uid'' q = Some u"
    using q by (auto simp: find_Some_iff)
  have only: "r = q" if "r \<in> set ?rs" "rid r = rid q" for r
    using that q'(1) tab by (auto simp: table_ok_def distinct_map dest: inj_onD)
  have here: "map ?f ?rs = map (\<lambda>r. if r = q then set_cols d r else r) ?rs"
    using only by (intro map_cong) auto
  have key: "text_key ''event_uid'' (if r = q then set_cols d r else r) = text_key ''event_uid'' r" for r
    using same by (simp add: text_key_def)
  have "event_map (db\<lparr>event_table := (event_table db)\<lparr>rows := map ?f ?rs\<rparr>\<rparr>) v
      = map_option rcols (find (\<lambda>r. text_key ''event_uid'' r = Some v)
          (map (\<lambda>r. if r = q then set_cols d r else r) ?rs))"
    unfolding here by (simp add: event_map_def)
  also have "\<dots> = map_option (\<lambda>r. rcols (if r = q then set_cols d r else r))
      (find (\<lambda>r. text_key ''event_uid'' r = Some v) ?rs)"
    by (subst find_map) (simp_all add: key option.map_comp comp_def)
  also have "\<dots> = ((event_map db)(u \<mapsto> dict_merge (rcols q) d)) v"
  proof (cases "v = u")
    case True
    then show ?thesis using q by (simp add: set_cols_def)
  next
    case False
    then have "find (\<lambda>r. text_key ''event_uid'' r = Some v) ?rs \<noteq> Some q"
      using q'(2) by (auto simp: find_Some_iff)
    then show ?thesis using False by (auto simp: event_map_def option.map_id map_option_case split: option.splits)
  qed
  finally show "event_map (db\<lparr>event_table := (event_table db)\<lparr>rows := map ?f ?rs\<rparr>\<rparr>) v
      = ((event_map db)(u \<mapsto> dict_merge (rcols q) d)) v" .
qed

text \<open>
  C6: the upsert of a row with a key is the update of the map of events at that key: a new key gets
  the row's columns, a known one has them overwritten, no other event changes, and the same errors
  are raised.
\<close>

theorem upsert_refines_map:
  assumes ok: "db_ok db" and key: "get row ''event_uid'' = PStr u" "u \<noteq> []"
    and fit: "fit ''event_uid'' (PStr u) = Inr (PStr u)"
  shows "map_sum id (\<lambda>(i, db'). event_map db') (upsert_event fr fit now row db)
    = upsert_in_map fr fit now row u (event_map db)"
proof (cases "event_data fr row")
  case (Inl e)
  then show ?thesis by (simp add: upsert_event_def upsert_in_map_def)
next
  case (Inr data)
  note facts = event_data_facts [OF Inr]
  have uid: "get data ''event_uid'' = PStr u" using facts(1) key(1) by simp
  note found = find_event_map [of fit u data db, OF fit uid key(2)]
  show ?thesis
  proof (cases "find (\<lambda>r. text_key ''event_uid'' r = Some u) (rows (event_table db))")
    case None
    then have "event_map db u = None" by (simp add: event_map_def)
    moreover have "upsert_event fr fit now row db = write_event fit now row data None db"
      using Inr found None by (simp add: upsert_event_def)
    moreover have "event_map (db\<lparr>event_table := (event_table db)\<lparr>rows := rows (event_table db) @ [\<lparr>rid = i, rcols = d\<rparr>],
        sequence := i\<rparr>\<rparr>) = (event_map db)(u \<mapsto> d)" if "fresh_event fit data created = Inr d" for created d i
      using new_event_in_map [OF None fresh_key [OF that uid fit] key(2)] .
    ultimately show ?thesis
      using Inr by (auto simp: upsert_in_map_def write_event_def insert_row_fresh ebind_def split: sum.splits)
  next
    case (Some q)
    note q = found_key [OF Some]
    have "event_map db u = Some (rcols q)" using Some by (simp add: event_map_def)
    moreover have "upsert_event fr fit now row db = write_event fit now row data (Some (rid q)) db"
      using Inr found Some by (simp add: upsert_event_def)
    moreover have "list_ex (\<lambda>r. rid r = rid q) (rows (event_table db))" using q(1) by (auto simp: list_ex_iff)
    moreover have "event_map (db\<lparr>event_table := (event_table db)\<lparr>rows :=
        map (\<lambda>r. if rid r = rid q then set_cols d r else r) (rows (event_table db))\<rparr>\<rparr>)
      = (event_map db)(u \<mapsto> dict_merge (rcols q) d)" if "fit_all fit data = Inr d" for d
    proof (rule old_event_in_map [OF db_okD(1) [OF ok] Some])
      have "map_of data ''event_uid'' = Some (PStr u)" using uid by (auto simp: get_def split: option.splits)
      then have "map_of d ''event_uid'' = Some (PStr u)" using fit_all_get [OF that] fit by fastforce
      moreover have "keys_distinct d" using fit_all_keys [OF that] facts(2) by simp
      ultimately show "col (set_cols d q) ''event_uid'' = col q ''event_uid''" by (simp add: col_set_same q(2))
    qed
    ultimately show ?thesis
      using Inr by (auto simp: upsert_in_map_def overwritten_def write_event_def update_rows_def ebind_def
          split: sum.splits)
  qed
qed

section \<open>Concrete runs\<close>

text \<open>A database that keeps what it is given, and one that is still empty.\<close>

definition plain_fit :: fitting where
  "plain_fit c v = (case v of PList _ \<Rightarrow> Inl TypeError | PDict _ \<Rightarrow> Inl TypeError | _ \<Rightarrow> Inr v)"

definition sample_env :: store_env where
  "sample_env = \<lparr>env_fr = half_text, env_repr = (\<lambda>_. []), env_fit = plain_fit, env_is_file = (\<lambda>_. False)\<rparr>"

definition empty_table :: table where
  "empty_table = \<lparr>rows = [], sequence = 0\<rparr>"

definition empty_db :: event_db where
  "empty_db = \<lparr>event_table = empty_table, media_table = empty_table, blocked_table = empty_table,
     pet_table = empty_table, face_table = empty_table\<rparr>"

definition visit_report :: pydict where
  "visit_report = [(''event_uid'', PStr ''7:10''), (''device_id'', PInt 42), (''event_type'', PStr ''10''),
     (''unknown'', PInt 1)]"

text \<open>
  Two tasks store the same report: the second opens only once the first has committed, and finds its
  row. A third is cut off before it commits.
\<close>

definition two_reports :: "task_step list" where
  "two_reports = [Opened 1, Looked 1 (Upsert_event 5 visit_report), Finished 1, Committed 1,
     Opened 2, Looked 2 (Upsert_event 9 visit_report), Finished 2, Committed 2,
     Opened 3, Looked 3 (Add_pet_face 9 1 ''a.jpg''), Finished 3, Crashed]"

definition event_rows :: "event_db \<Rightarrow> pydict list" where
  "event_rows db = map as_row_dict (rows (event_table db))"

definition reports_stored :: "store_sys option \<Rightarrow> (int \<times> int) option" where
  "reports_stored s = map_option (\<lambda>s. (int (length (rows (event_table (committed s)))),
     int (length (rows (face_table (committed s)))))) s"

lemma two_reports_run: "reports_stored (run_tasks sample_env two_reports (opened_on empty_db)) = Some (1, 0)"
  by code_simp

lemma plain_fit_ok: "fit_ok plain_fit"
  by (simp add: fit_ok_def plain_fit_def)

lemma empty_db_ok: "db_ok empty_db"
  by (simp add: db_ok_def tables_ok_def table_ok_def keys_once_def faces_capped_def faces_of_def
      where_rows_def empty_db_def empty_table_def List.map_filter_simps)

lemma two_reports_called: "Looked t w \<in> set two_reports \<Longrightarrow> as_called w"
  by (auto simp: two_reports_def visit_report_def get_def text_or_none_def)

theorem tasks_run_serially_witness:
  "\<exists>s. run_tasks sample_env two_reports (opened_on empty_db) = Some s
    \<and> run_all sample_env (committed_writes two_reports) empty_db = Inr (committed s)
    \<and> committed_writes two_reports = [Upsert_event 5 visit_report, Upsert_event 9 visit_report]"
proof -
  obtain s where s: "run_tasks sample_env two_reports (opened_on empty_db) = Some s"
    using two_reports_run by (auto simp: reports_stored_def)
  have "committed_writes two_reports = [Upsert_event 5 visit_report, Upsert_event 9 visit_report]"
    by (simp add: committed_writes_def history_of_def two_reports_def)
  then show ?thesis using s tasks_run_serially [OF s] by blast
qed

theorem store_stays_sound_witness:
  "\<exists>s. run_tasks sample_env two_reports (opened_on empty_db) = Some s
    \<and> length (rows (event_table (committed s))) = 1 \<and> db_ok (committed s) \<and> db_grows empty_db (committed s)"
proof -
  obtain s where s: "run_tasks sample_env two_reports (opened_on empty_db) = Some s"
    "length (rows (event_table (committed s))) = 1"
    using two_reports_run by (auto simp: reports_stored_def)
  have env: "fit_ok (env_fit sample_env)" by (simp add: sample_env_def plain_fit_ok)
  have "db_ok (committed s) \<and> db_grows empty_db (committed s)"
    by (rule store_stays_sound [OF env empty_db_ok s(1)]) (rule two_reports_called)
  then show ?thesis using s by blast
qed

theorem upsert_refines_map_witness:
  "map_sum id (\<lambda>(i, db'). event_map db') (upsert_event half_text plain_fit 5 visit_report empty_db)
    = upsert_in_map half_text plain_fit 5 visit_report ''7:10'' (event_map empty_db)
  \<and> upsert_event half_text plain_fit 5 visit_report empty_db \<noteq> Inl TypeError"
proof -
  have "get visit_report ''event_uid'' = PStr ''7:10''" by (simp add: visit_report_def get_def)
  moreover have "plain_fit ''event_uid'' (PStr ''7:10'') = Inr (PStr ''7:10'')" by (simp add: plain_fit_def)
  moreover have "isl (upsert_event half_text plain_fit 5 visit_report empty_db) = False" by code_simp
  ultimately show ?thesis using upsert_refines_map [OF empty_db_ok, of visit_report "''7:10''"] by auto
qed

end
