(* ===== verification/Event_History.thy ===== *)
theory Event_History
  imports Normalize Event_Map
begin

text \<open>
  Readings of the stored history: the figures of one pet's visits (\<open>pet_visit_stats\<close> of
  \<open>events/store.py\<close>) and the repair of rows stored before a field or a code was known
  (\<open>events/migrations.py\<close>), with the proof that the repair settles: a second start writes nothing.
\<close>

section \<open>One pet's visits\<close>

text \<open>\<open>float(x)\<close>; a text may have underscores between digits and may name an infinity.\<close>

fun drop_underscores :: "bool \<Rightarrow> string \<Rightarrow> string option" where
  "drop_underscores d [] = Some []"
| "drop_underscores d (c # r) =
     (if c = CHR ''_''
      then (if d \<and> r \<noteq> [] \<and> is_digit (hd r) then drop_underscores False r else None)
      else map_option ((#) c) (drop_underscores (is_digit c) r))"

definition float_of_text :: "string \<Rightarrow> py_exc + pyfloat" where
  "float_of_text s =
     (let t = str_lower (str_strip s); (sg, r) = split_sign t
      in if r = ''inf'' \<or> r = ''infinity'' then Inr (if sg = 1 then PosInf else NegInf)
         else if r = ''nan'' then Inr NaN
         else case Option.bind (drop_underscores False t) float_text_value of
                Some q \<Rightarrow> Inr (round_b64 q) | None \<Rightarrow> Inl ValueError)"

fun py_float :: "pyval \<Rightarrow> py_exc + pyfloat" where
  "py_float (PBool b) = Inr (Fin (if b then 1 else 0))"
| "py_float (PInt n) = (case round_b64 (of_int n) of Fin q \<Rightarrow> Inr (Fin q) | _ \<Rightarrow> Inl OverflowError)"
| "py_float (PFloat f) = Inr f"
| "py_float (PStr s) = float_of_text s"
| "py_float (PBytes b) = float_of_text (map (\<lambda>x. char_of (unat x)) b)"
| "py_float _ = Inl TypeError"

fun py_round :: "pyfloat \<Rightarrow> py_exc + int" where
  "py_round (Fin q) = Inr (round_half_even q)"
| "py_round NaN = Inl ValueError"
| "py_round _ = Inl OverflowError"

text \<open>An exception of the two kinds the caller catches is no weight.\<close>

definition visit_weight :: "pyval \<Rightarrow> py_exc + int option" where
  "visit_weight w =
     (if w = PNone then Inr None
      else case ebind (py_float w) py_round of
             Inr n \<Rightarrow> Inr (Some n)
           | Inl OverflowError \<Rightarrow> Inl OverflowError
           | Inl _ \<Rightarrow> Inr None)"

text \<open>\<open>round(max(0.0, a - b))\<close> of two stored times.\<close>

definition visit_length :: "pyval \<Rightarrow> pyval \<Rightarrow> py_exc + int option" where
  "visit_length a b =
     (if a = PNone \<or> b = PNone then Inr None
      else case (num_of a, num_of b) of
             (Some (Fin p), Some (Fin q)) \<Rightarrow>
               ebind (py_round (case round_b64 (p - q) of Fin d \<Rightarrow> Fin (max 0 d) | NegInf \<Rightarrow> Fin 0 | f \<Rightarrow> f))
                 (\<lambda>n. Inr (Some n))
           | (Some f, Some g) \<Rightarrow>
               if f = g \<or> f = NaN \<or> g = NaN \<or> f = NegInf \<or> g = PosInf then Inr (Some 0) else Inl OverflowError
           | _ \<Rightarrow> Inl TypeError)"

text \<open>
  The content of the last visit. A content that is not an object has no \<open>get\<close>.
\<close>

definition visit_content :: "table_row \<Rightarrow> py_exc + pydict" where
  "visit_content r =
     (if \<not> truthy (col r ''content_json'') then Inr []
      else ebind (load_column (col r ''content_json'')) (\<lambda>v.
             case v of None \<Rightarrow> Inr [] | Some (PDict d) \<Rightarrow> Inr d | Some _ \<Rightarrow> Inl (Refused ''AttributeError'')))"

record visit_stats =
  vs_last_ts :: pyval
  vs_today :: nat
  vs_weight :: "int option"
  vs_duration :: "int option"
  vs_device :: pyval

text \<open>\<open>day_start\<close> is local midnight.\<close>

definition pet_visit_stats :: "int \<Rightarrow> rat \<Rightarrow> event_db \<Rightarrow> py_exc + visit_stats" where
  "pet_visit_stats pet day_start db =
     (let visits = where_rows (\<lambda>r. sql_eq (col r ''pet_id'') (PInt pet)
            \<and> sql_eq (col r ''event_kind'') (PStr KIND_TOILET)) (event_table db);
          today = length (filter (\<lambda>r. \<not> is_null (col r ''ts'')
            \<and> \<not> sql_less (col r ''ts'') (PFloat (Fin day_start))) visits)
      in case order_down ''ts'' visits of
           [] \<Rightarrow> Inr \<lparr>vs_last_ts = PNone, vs_today = today, vs_weight = None, vs_duration = None, vs_device = PNone\<rparr>
         | r # _ \<Rightarrow>
             ebind (visit_content r) (\<lambda>content.
             ebind (visit_weight (get_or content ''pet_weight'' (get content ''petWeight''))) (\<lambda>weight.
             ebind (if truthy (col r ''related_event'')
                    then case order_up ''ts'' (where_rows (\<lambda>e. sql_eq (col e ''related_event'') (col r ''related_event'')
                                \<and> sql_eq (col e ''event_type'') (PStr ''pet_in'')) (event_table db)) of
                           e # _ \<Rightarrow> visit_length (col r ''ts'') (col e ''ts'')
                         | [] \<Rightarrow> Inr None
                    else Inr None) (\<lambda>duration.
               Inr \<lparr>vs_last_ts = col r ''ts'', vs_today = today, vs_weight = weight, vs_duration = duration,
                    vs_device = col r ''device_id''\<rparr>))))"

section \<open>The repair of stored rows\<close>

definition text_option :: "pyval \<Rightarrow> string option" where
  "text_option v = (case v of PStr s \<Rightarrow> Some s | _ \<Rightarrow> None)"

text \<open>\<open>uid.rsplit(":", 1)[0] if ":" in uid else uid\<close>.\<close>

definition session_of_uid :: "string \<Rightarrow> string" where
  "session_of_uid uid =
     (if CHR '':'' \<in> set uid then rev (tl (dropWhile (\<lambda>c. c \<noteq> CHR '':'') (rev uid))) else uid)"

definition row_content :: "pydict \<Rightarrow> py_exc + pydict" where
  "row_content d = (case as_dict (get d ''content_json'') of Inr c \<Rightarrow> Inr c | Inl _ \<Rightarrow> Inl ValueError)"

definition row_kind :: "pydict \<Rightarrow> pydict \<Rightarrow> pyval" where
  "row_kind d content =
     PStr (classify_event_kind (text_option (get d ''event_type'')) content (text_option (get d ''device_type'')))"

text \<open>\<open>updates\<close>, in the order the loop body adds to it.\<close>

definition row_updates :: "(pyval \<Rightarrow> string) \<Rightarrow> pydict \<Rightarrow> pydict \<Rightarrow> pydict" where
  "row_updates repr d content =
     (if row_kind d content \<noteq> get d ''event_kind'' then [(''event_kind'', row_kind d content)] else [])
   @ (case parent_event_of repr content of
        Some p \<Rightarrow> if p \<noteq> [] \<and> PStr p \<noteq> get d ''parent_event'' then [(''parent_event'', PStr p)] else []
      | None \<Rightarrow> [])
   @ (if \<not> truthy (get d ''related_event'') \<and> truthy (get d ''event_uid'')
      then [(''related_event'', PStr (session_of_uid (py_str repr (get d ''event_uid''))))] else [])
   @ (case extract_pet_ref content of
        Some n \<Rightarrow> if \<not> py_eq (PInt n) (get d ''pet_ref'') then [(''pet_ref'', PInt n)] else []
      | None \<Rightarrow> [])"

fun backfill_rows ::
    "(pyval \<Rightarrow> string) \<Rightarrow> fitting \<Rightarrow> pydict list \<Rightarrow> event_db \<Rightarrow> py_exc + nat \<times> event_db" where
  "backfill_rows repr fit [] db = Inr (0, db)"
| "backfill_rows repr fit (d # ds) db =
     ebind (row_content d) (\<lambda>content.
       let updates = row_updates repr d content
       in if updates = [] then backfill_rows repr fit ds db
          else ebind (update_event_fields fit (id_of d) updates db) (\<lambda>(_, db').
               ebind (backfill_rows repr fit ds db') (\<lambda>(n, db''). Inr (Suc n, db''))))"

definition all_events_limit :: nat where
  "all_events_limit = 100000"

text \<open>One transaction: an exception leaves the store as it was.\<close>

definition backfill_event_rows ::
    "(pyval \<Rightarrow> string) \<Rightarrow> fitting \<Rightarrow> event_db \<Rightarrow> py_exc + nat \<times> event_db" where
  "backfill_event_rows repr fit db = backfill_rows repr fit (all_events all_events_limit db) db"

section \<open>The repair settles\<close>

text \<open>A database that keeps texts and numbers in the four columns the repair writes.\<close>

definition repaired_columns :: "string list" where
  "repaired_columns = [''event_kind'', ''parent_event'', ''related_event'', ''pet_ref'']"

definition fit_exact :: "fitting \<Rightarrow> bool" where
  "fit_exact fit \<longleftrightarrow>
     (\<forall>c s w. c \<in> set repaired_columns \<and> fit c (PStr s) = Inr w \<longrightarrow> w = PStr s)
   \<and> (\<forall>n w. fit ''pet_ref'' (PInt n) = Inr w \<longrightarrow> w = PInt n)"

definition fixed_row :: "(pyval \<Rightarrow> string) \<Rightarrow> table_row \<Rightarrow> table_row" where
  "fixed_row repr r =
     (case row_content (as_row_dict r) of
        Inr content \<Rightarrow> set_cols (row_updates repr (as_row_dict r) content) r
      | Inl _ \<Rightarrow> r)"

lemma rid_fixed [simp]: "rid (fixed_row repr r) = rid r"
  by (simp add: fixed_row_def split: sum.splits)

lemma get_row: "c \<noteq> ''id'' \<Longrightarrow> get (as_row_dict r) c = col r c"
  by (simp add: as_row_dict_def get_def)

lemma id_of_row [simp]: "id_of (as_row_dict r) = rid r"
  by (simp add: as_row_dict_def id_of_def get_def)

lemma row_updates_keys: "set (map fst (row_updates repr d content)) \<subseteq> set repaired_columns"
  by (auto simp: row_updates_def repaired_columns_def split: option.splits if_splits)

lemma row_updates_distinct: "keys_distinct (row_updates repr d content)"
  by (simp add: row_updates_def split: option.splits)

lemma row_updates_values:
  "map_of (row_updates repr d content) c = Some v \<Longrightarrow>
   (c \<in> set repaired_columns \<and> (\<exists>s. v = PStr s)) \<or> (c = ''pet_ref'' \<and> (\<exists>n. v = PInt n))"
  by (auto simp: row_updates_def repaired_columns_def row_kind_def dest!: map_of_SomeD
      split: option.splits if_splits)

text \<open>What the repair writes in each column.\<close>

lemma row_updates_get:
  "map_of (row_updates repr d content) ''event_kind''
     = (if row_kind d content \<noteq> get d ''event_kind'' then Some (row_kind d content) else None)"
  "map_of (row_updates repr d content) ''parent_event''
     = (case parent_event_of repr content of
          Some p \<Rightarrow> if p \<noteq> [] \<and> PStr p \<noteq> get d ''parent_event'' then Some (PStr p) else None
        | None \<Rightarrow> None)"
  "map_of (row_updates repr d content) ''related_event''
     = (if \<not> truthy (get d ''related_event'') \<and> truthy (get d ''event_uid'')
        then Some (PStr (session_of_uid (py_str repr (get d ''event_uid'')))) else None)"
  "map_of (row_updates repr d content) ''pet_ref''
     = (case extract_pet_ref content of
          Some n \<Rightarrow> if \<not> py_eq (PInt n) (get d ''pet_ref'') then Some (PInt n) else None | None \<Rightarrow> None)"
  by (simp_all add: row_updates_def split: option.splits)

lemma row_updates_none:
  "row_updates repr d content = [] \<longleftrightarrow> (\<forall>c \<in> set repaired_columns. map_of (row_updates repr d content) c = None)"
proof
  assume none: "\<forall>c \<in> set repaired_columns. map_of (row_updates repr d content) c = None"
  show "row_updates repr d content = []"
  proof (rule ccontr)
    assume "row_updates repr d content \<noteq> []"
    then obtain c v where "(c, v) \<in> set (row_updates repr d content)" by (cases "row_updates repr d content") auto
    then have "c \<in> set (map fst (row_updates repr d content))" by force
    then show False
      using none row_updates_keys [of repr d content] by (auto simp: map_of_eq_None_iff)
  qed
qed simp

lemma fixed_col:
  assumes "row_content (as_row_dict r) = Inr content"
  shows "col (fixed_row repr r) c
    = (case map_of (row_updates repr (as_row_dict r) content) c of Some v \<Rightarrow> v | None \<Rightarrow> col r c)"
  using assms row_updates_distinct
  by (auto simp: fixed_row_def set_cols_def get_def lookup_merge map_add_def split: option.splits)

lemma fixed_other:
  assumes "row_content (as_row_dict r) = Inr content" and "c \<notin> set repaired_columns"
  shows "col (fixed_row repr r) c = col r c"
proof -
  have "map_of (row_updates repr (as_row_dict r) content) c = None"
    using assms(2) row_updates_keys [of repr "as_row_dict r" content] by (auto simp: map_of_eq_None_iff)
  then show ?thesis by (simp add: fixed_col [OF assms(1)])
qed

text \<open>The session part of a key, where the repair takes one from it.\<close>

definition names_session :: "(pyval \<Rightarrow> string) \<Rightarrow> table_row \<Rightarrow> bool" where
  "names_session repr r \<longleftrightarrow> (truthy (col r ''event_uid'') \<longrightarrow> session_of_uid (py_str repr (col r ''event_uid'')) \<noteq> [])"

lemma py_eq_int: "py_eq (PInt n) (PInt n)"
  by simp

lemma fixed_row_settled:
  assumes content: "row_content (as_row_dict r) = Inr content" and named: "names_session repr r"
  shows "row_content (as_row_dict (fixed_row repr r)) = Inr content
    \<and> row_updates repr (as_row_dict (fixed_row repr r)) content = []"
proof
  let ?d = "as_row_dict r" and ?e = "as_row_dict (fixed_row repr r)"
  note other = fixed_other [OF content, of _ repr]
  note cols = fixed_col [OF content, of repr]
  have same: "get ?e ''content_json'' = get ?d ''content_json''" "get ?e ''event_type'' = get ?d ''event_type''"
    "get ?e ''device_type'' = get ?d ''device_type''" "get ?e ''event_uid'' = get ?d ''event_uid''"
    by (simp_all add: get_row other repaired_columns_def)
  show "row_content ?e = Inr content" using content by (simp add: row_content_def same)
  have kind: "row_kind ?e content = row_kind ?d content" by (simp add: row_kind_def same)
  have "map_of (row_updates repr ?e content) ''event_kind'' = None"
    unfolding row_updates_get kind by (simp add: get_row cols row_updates_get)
  moreover have "map_of (row_updates repr ?e content) ''parent_event'' = None"
    unfolding row_updates_get by (auto simp: get_row cols row_updates_get split: option.splits)
  moreover have "map_of (row_updates repr ?e content) ''related_event'' = None"
    using named unfolding row_updates_get same(4)
    by (auto simp: get_row cols row_updates_get names_session_def)
  moreover have "map_of (row_updates repr ?e content) ''pet_ref'' = None"
    unfolding row_updates_get
    by (cases "extract_pet_ref content") (simp_all add: get_row cols row_updates_get)
  ultimately show "row_updates repr ?e content = []"
    unfolding row_updates_none by (simp add: repaired_columns_def)
qed

text \<open>The loop, row by row: each row of the list is replaced by its repaired one.\<close>

lemma fit_all_exact:
  "\<forall>(c, v) \<in> set u. \<forall>w. fit c v = Inr w \<longrightarrow> w = v \<Longrightarrow> fit_all fit u = Inr d \<Longrightarrow> d = u"
  by (induction u arbitrary: d) (auto simp: ebind_Inr_iff)

definition with_rows :: "(table_row \<Rightarrow> table_row) \<Rightarrow> event_db \<Rightarrow> event_db" where
  "with_rows g db = db\<lparr>event_table := (event_table db)\<lparr>rows := map g (rows (event_table db))\<rparr>\<rparr>"

lemma rows_with_rows [simp]: "rows (event_table (with_rows g db)) = map g (rows (event_table db))"
  by (simp add: with_rows_def)

lemma with_rows_comp: "with_rows f (with_rows g db) = with_rows (\<lambda>r. f (g r)) db"
  by (simp add: with_rows_def comp_def)

lemma with_rows_cong:
  "(\<And>r. r \<in> set (rows (event_table db)) \<Longrightarrow> f r = g r) \<Longrightarrow> with_rows f db = with_rows g db"
  by (simp add: with_rows_def cong: map_cong)

lemma with_rows_id: "(\<And>r. r \<in> set (rows (event_table db)) \<Longrightarrow> g r = r) \<Longrightarrow> with_rows g db = db"
  by (simp add: with_rows_def map_idI)

lemma repair_one:
  assumes fit: "fit_exact fit"
    and up: "update_event_fields fit i (row_updates repr d content) db = Inr (b, db')"
  shows "db' = with_rows (\<lambda>q. if rid q = i then set_cols (row_updates repr d content) q else q) db"
proof -
  let ?u = "row_updates repr d content"
  have "list_all (\<lambda>c. c \<in> set event_columns) repaired_columns" by code_simp
  then have "k \<in> set event_columns" if "(k, v) \<in> set ?u" for k v
    using that row_updates_keys [of repr d content] by (force simp: list_all_iff)
  then have all: "filter (\<lambda>(k, v). k \<in> set event_columns) ?u = ?u" by (auto simp: filter_id_conv)
  have exact: "\<forall>(c, v) \<in> set ?u. \<forall>w. fit c v = Inr w \<longrightarrow> w = v"
  proof (clarify)
    fix c v w
    assume "(c, v) \<in> set ?u" and w: "fit c v = Inr w"
    then have "map_of ?u c = Some v" using row_updates_distinct by simp
    then show "w = v" using row_updates_values [of repr d content c v] w fit by (auto simp: fit_exact_def)
  qed
  show ?thesis
  proof (cases "?u = []")
    case True
    then have "db' = db" using up by (simp add: update_event_fields_def)
    moreover have "with_rows (\<lambda>q. if rid q = i then set_cols ?u q else q) db = db"
      by (rule with_rows_id) (simp add: True set_cols_def dict_merge_def)
    ultimately show ?thesis by simp
  next
    case False
    then obtain n t where "update_rows fit event_columns (\<lambda>r. rid r = i) ?u (event_table db) = Inr (n, t)"
      "db' = db\<lparr>event_table := t\<rparr>"
      using up by (auto simp: update_event_fields_def Let_def all ebind_Inr_iff)
    moreover from this obtain e where "fit_all fit ?u = Inr e"
      "t = (event_table db)\<lparr>rows := map (\<lambda>r. if rid r = i then set_cols e r else r) (rows (event_table db))\<rparr>"
      using update_rowsD by blast
    ultimately show ?thesis using fit_all_exact [OF exact] by (simp add: with_rows_def)
  qed
qed

lemma backfill_loop:
  assumes fit: "fit_exact fit"
  shows "backfill_rows repr fit (map as_row_dict rs) db = Inr (n, db') \<Longrightarrow> distinct (map rid rs) \<Longrightarrow>
    (\<And>r q. r \<in> set rs \<Longrightarrow> q \<in> set (rows (event_table db)) \<Longrightarrow> rid q = rid r \<Longrightarrow> q = r) \<Longrightarrow>
    db' = with_rows (\<lambda>q. if rid q \<in> rid ` set rs then fixed_row repr q else q) db
    \<and> (\<forall>r \<in> set rs. \<exists>c. row_content (as_row_dict r) = Inr c)"
proof (induction rs arbitrary: db n)
  case Nil
  then show ?case by (simp add: with_rows_id)
next
  case (Cons r rs)
  obtain content where content: "row_content (as_row_dict r) = Inr content"
    using Cons.prems(1) by (auto simp: ebind_Inr_iff)
  let ?u = "row_updates repr (as_row_dict r) content"
  let ?g = "\<lambda>q. if rid q = rid r then set_cols ?u q else q"
  have "\<exists>m db1. db1 = with_rows ?g db \<and> backfill_rows repr fit (map as_row_dict rs) db1 = Inr (m, db')"
  proof (cases "?u = []")
    case True
    then have "with_rows ?g db = db" by (intro with_rows_id) (simp add: set_cols_def dict_merge_def)
    then show ?thesis using Cons.prems(1) content True by (auto simp: ebind_Inr_iff)
  next
    case False
    then obtain b db1 m where up: "update_event_fields fit (rid r) ?u db = Inr (b, db1)"
      and rest: "backfill_rows repr fit (map as_row_dict rs) db1 = Inr (m, db')"
      using Cons.prems(1) content by (auto simp: Let_def ebind_Inr_iff)
    show ?thesis by (rule exI [of _ m], rule exI [of _ db1]) (simp add: repair_one [OF fit up] flip: rest)
  qed
  then obtain m where rest: "backfill_rows repr fit (map as_row_dict rs) (with_rows ?g db) = Inr (m, db')"
    by blast
  have keep: "q = p" if p: "p \<in> set rs" and q: "q \<in> set (rows (event_table (with_rows ?g db)))"
    and same: "rid q = rid p" for p q
  proof -
    obtain x where x: "x \<in> set (rows (event_table db))" "q = ?g x" using q by auto
    have "rid p \<in> rid ` set rs" using p by simp
    moreover have "rid r \<notin> rid ` set rs" using Cons.prems(2) by simp
    moreover have "rid q = rid x" using x(2) by simp
    ultimately have "rid x \<noteq> rid r" using same by metis
    then show ?thesis using Cons.prems(3) [of p x] p same x by simp
  qed
  note ih = Cons.IH [OF rest _ keep]
  have "(if rid (?g q) \<in> rid ` set rs then fixed_row repr (?g q) else ?g q)
      = (if rid q \<in> rid ` set (r # rs) then fixed_row repr q else q)" if "q \<in> set (rows (event_table db))" for q
    using Cons.prems(2) Cons.prems(3) [of r q] that content by (auto simp: fixed_row_def)
  then have "with_rows (\<lambda>q. if rid q \<in> rid ` set rs then fixed_row repr q else q) (with_rows ?g db)
      = with_rows (\<lambda>q. if rid q \<in> rid ` set (r # rs) then fixed_row repr q else q) db"
    unfolding with_rows_comp by (rule with_rows_cong)
  then show ?case using ih Cons.prems(2) content by auto
qed

lemma backfill_nothing:
  "(\<And>r. r \<in> set rs \<Longrightarrow> \<exists>c. row_content (as_row_dict r) = Inr c \<and> row_updates repr (as_row_dict r) c = []) \<Longrightarrow>
   backfill_rows repr fit (map as_row_dict rs) db = Inr (0, db)"
proof (induction rs)
  case (Cons r rs)
  obtain c where "row_content (as_row_dict r) = Inr c" "row_updates repr (as_row_dict r) c = []"
    using Cons.prems [of r] by auto
  then show ?case using Cons by simp
qed simp

lemma insort_key_map: "insort_key k (g x) (map g xs) = map g (insort_key (\<lambda>x. k (g x)) x xs)"
  by (induction xs) auto

lemma sort_key_map: "sort_key k (map g xs) = map g (sort_key (\<lambda>x. k (g x)) xs)"
  by (induction xs) (auto simp: insort_key_map)

text \<open>
  C7: the repair of stored rows settles: when it has run, running it again (as every start does) finds
  nothing to write, as long as every stored key names a session.
\<close>

theorem backfill_settles:
  assumes fit: "fit_exact fit" and tab: "table_ok (event_table db)"
    and named: "\<And>r. r \<in> set (rows (event_table db)) \<Longrightarrow> names_session repr r"
    and run: "backfill_event_rows repr fit db = Inr (n, db')"
  shows "backfill_event_rows repr fit db' = Inr (0, db')"
proof -
  let ?rs = "take all_events_limit (sort_key rid (rows (event_table db)))"
  let ?g = "\<lambda>q. if rid q \<in> rid ` set ?rs then fixed_row repr q else q"
  have sub: "set ?rs \<subseteq> set (rows (event_table db))"
    using set_take_subset [of all_events_limit "sort_key rid (rows (event_table db))"] by simp
  have only: "q = r" if "r \<in> set ?rs" "q \<in> set (rows (event_table db))" "rid q = rid r" for r q
    using that sub tab by (auto simp: table_ok_def distinct_map dest: inj_onD)
  have "distinct (map rid (sort_key rid (rows (event_table db))))"
    using tab by (simp add: table_ok_def distinct_map)
  then have dist: "distinct (map rid ?rs)" by (simp add: distinct_take flip: take_map)
  have "backfill_rows repr fit (map as_row_dict ?rs) db = Inr (n, db')"
    using run by (simp add: backfill_event_rows_def all_events_def)
  then have db': "db' = with_rows ?g db" and read: "\<forall>r \<in> set ?rs. \<exists>c. row_content (as_row_dict r) = Inr c"
    using backfill_loop [OF fit _ dist only] by blast+
  have ids: "(\<lambda>x. rid (?g x)) = rid" by (rule ext) simp
  have "sort_key rid (rows (event_table db')) = map ?g (sort_key rid (rows (event_table db)))"
    unfolding db' rows_with_rows sort_key_map by (simp only: ids)
  then have rs': "take all_events_limit (sort_key rid (rows (event_table db'))) = map ?g ?rs"
    by (simp add: take_map)
  have "\<exists>c. row_content (as_row_dict q) = Inr c \<and> row_updates repr (as_row_dict q) c = []"
    if q: "q \<in> set (map ?g ?rs)" for q
  proof -
    obtain r where r: "r \<in> set ?rs" "q = fixed_row repr r" using q by fastforce
    then obtain c where "row_content (as_row_dict r) = Inr c" using read by blast
    then show ?thesis using fixed_row_settled named [of r] sub r by blast
  qed
  then show ?thesis
    unfolding backfill_event_rows_def all_events_def rs' by (rule backfill_nothing)
qed

text \<open>
  A cleaning report stored before its code was known: the first start gives it a kind and a session,
  the second leaves it.
\<close>

definition stale_row :: table_row where
  "stale_row = \<lparr>rid = 3, rcols = [(''event_uid'', PStr ''7_1:5''), (''device_id'', PInt 42),
     (''device_type'', PStr ''t5''), (''event_kind'', PStr ''other''),
     (''content_json'', PStr (json_text half_text (PDict [(''cleanEvent'', PInt 1)]))),
     (''created_at'', PFloat (Fin 1))]\<rparr>"

definition stale_db :: event_db where
  "stale_db = empty_db\<lparr>event_table := \<lparr>rows = [stale_row], sequence = 3\<rparr>\<rparr>"

definition backfilled :: "py_exc + nat \<times> event_db \<Rightarrow> (nat \<times> pydict list) option" where
  "backfilled res = (case res of Inr (n, db) \<Rightarrow> Some (n, event_rows db) | Inl _ \<Rightarrow> None)"

lemma stale_backfilled:
  "backfilled (backfill_rows (\<lambda>_. []) plain_fit [as_row_dict stale_row] stale_db)
    = Some (1, [as_row_dict (set_cols [(''event_kind'', PStr KIND_CLEANING), (''related_event'', PStr ''7_1'')] stale_row)])"
  by code_simp

theorem backfill_settles_witness:
  "\<exists>db'. backfill_event_rows (\<lambda>_. []) plain_fit stale_db = Inr (1, db')
    \<and> event_rows db' \<noteq> event_rows stale_db \<and> backfill_event_rows (\<lambda>_. []) plain_fit db' = Inr (0, db')"
proof -
  have all: "all_events all_events_limit stale_db = [as_row_dict stale_row]"
    by (simp add: all_events_def all_events_limit_def stale_db_def)
  obtain db' where run: "backfill_event_rows (\<lambda>_. []) plain_fit stale_db = Inr (1, db')"
    and rows: "event_rows db' = [as_row_dict (set_cols [(''event_kind'', PStr KIND_CLEANING), (''related_event'', PStr ''7_1'')] stale_row)]"
    using stale_backfilled by (auto simp: backfill_event_rows_def all backfilled_def split: sum.splits prod.splits)
  have "get (hd (event_rows db')) ''event_kind'' \<noteq> get (hd (event_rows stale_db)) ''event_kind''"
    unfolding rows by code_simp
  then have "event_rows db' \<noteq> event_rows stale_db" by auto
  moreover have "fit_exact plain_fit" by (simp add: fit_exact_def plain_fit_def)
  moreover have "table_ok (event_table stale_db)" by (simp add: stale_db_def table_ok_def stale_row_def)
  moreover have "names_session (\<lambda>_. []) r" if "r \<in> set (rows (event_table stale_db))" for r
  proof -
    have "session_of_uid (py_str (\<lambda>_. []) (col stale_row ''event_uid'')) = ''7_1''" by code_simp
    then show ?thesis using that by (simp add: names_session_def stale_db_def)
  qed
  ultimately show ?thesis using backfill_settles run by blast
qed

end
