(* ===== verification/Ble_Relay.thy ===== *)
theory Ble_Relay
  imports Ble_Registry Ble_Command Device Json
begin

text \<open>
  The relay that talks to Bluetooth accessories through the device they are paired to
  (\<open>mqtt/ble_relay.py\<close>): sessions, command frames and their sequence byte, the periodic poll with
  its throttle, the readings that come back. What it hands to the bridge and to the publisher is
  kept in the state as the list of what was sent. Times are rationals; each reading of the
  clock is an argument. In the poll what becomes of a message is an argument as well; the other operations
  are those of a bridge that takes what it is given.
\<close>

section \<open>State\<close>

record published =
  pub_device :: int
  pub_service :: string
  pub_body :: pydict

record relay =
  rl_connected :: bool
  rl_ble :: "ble_registry option"
  rl_devices :: "(int \<times> device) list"
  rl_has_ha :: bool
  rl_poll :: "(int \<times> rat) list"
  rl_seq :: "(int \<times> int) list"
  rl_sent :: "published list"
  rl_ha :: "int list"

definition ble_session_hold_seconds :: int where
  "ble_session_hold_seconds = 30"

definition seconds :: "rat \<Rightarrow> int" where
  "seconds t = trunc t"

section \<open>What is sent\<close>

definition envelope :: "string \<Rightarrow> rat \<Rightarrow> pydict \<Rightarrow> pydict" where
  "envelope meth now params =
     [(''method'', PStr meth), (''id'', PStr (int_text (seconds now))), (''params'', PDict params),
      (''version'', PStr ''1.0.0'')]"

definition ble_address :: "ble_device \<Rightarrow> pyval" where
  "ble_address b = PDict [(''type'', PInt (ble_type_int b)), (''mac'', PStr (wire_mac b))]"

definition send :: "device \<Rightarrow> string \<Rightarrow> pydict \<Rightarrow> relay \<Rightarrow> relay" where
  "send dev service body s =
     s\<lparr>rl_sent := rl_sent s @ [\<lparr>pub_device = petkit_id dev, pub_service = service, pub_body = body\<rparr>]\<rparr>"

definition connect_params :: "ble_device \<Rightarrow> int \<Rightarrow> rat \<Rightarrow> pydict" where
  "connect_params b action now =
     [(''connect_action'', PInt action)]
     @ (if action \<noteq> 0 then [(''time'', PInt ble_session_hold_seconds)] else [])
     @ [(''device'', ble_address b), (''timestamp'', PInt (seconds now))]"

definition ble_connect :: "device \<Rightarrow> ble_device \<Rightarrow> int \<Rightarrow> rat \<Rightarrow> relay \<Rightarrow> relay" where
  "ble_connect dev b action now s =
     (if \<not> rl_connected s then s
      else send dev ''connect'' (envelope ''thing.service.connect'' now (connect_params b action now)) s)"

definition next_seq :: "ble_device \<Rightarrow> relay \<Rightarrow> int" where
  "next_seq b s = (case map_of (rl_seq s) (ble_petkit_id b) of Some n \<Rightarrow> n | None \<Rightarrow> 0)"

definition command_body :: "ble_device \<Rightarrow> int \<Rightarrow> string \<Rightarrow> rat \<Rightarrow> pydict" where
  "command_body b cmd data now =
     envelope ''thing.service.ble'' now
       [(''device'', ble_address b),
        (''payload'', PDict [(''cmd'', PInt cmd), (''data'', PStr data)]),
        (''timestamp'', PInt (seconds now))]"

definition publish_ble_command ::
    "device \<Rightarrow> ble_device \<Rightarrow> int \<Rightarrow> bytes \<Rightarrow> rat \<Rightarrow> rat \<Rightarrow> relay \<Rightarrow> bool \<times> relay" where
  "publish_ble_command dev b cmd payload opened now s =
     (if \<not> rl_connected s then (False, s)
      else let s1 = ble_connect dev b 1 opened s;
               n = next_seq b s1;
               s2 = s1\<lparr>rl_seq := AList.update (ble_petkit_id b) ((n + 1) AND 255) (rl_seq s1)\<rparr>
           in case ble_command_frame cmd n payload of
                None \<Rightarrow> (False, s2)
              | Some data \<Rightarrow> (True, send dev ''ble'' (command_body b cmd data now) s2))"

definition request_ble_reading :: "device \<Rightarrow> ble_device \<Rightarrow> rat \<Rightarrow> rat \<Rightarrow> relay \<Rightarrow> bool \<times> relay" where
  "request_ble_reading dev b opened now s =
     (if \<not> rl_connected s then (False, s)
      else let s1 = ble_connect dev b 1 opened s
           in (True, s1\<lparr>rl_poll := AList.update (ble_petkit_id b) now (rl_poll s1)\<rparr>))"

definition publish_relay_update :: "device \<Rightarrow> rat \<Rightarrow> relay \<Rightarrow> bool \<times> relay" where
  "publish_relay_update dev now s =
     (if \<not> rl_connected s then (False, s)
      else (True, send dev ''ble_relay_update''
                    (envelope ''thing.service.ble_relay_update'' now [(''update_action'', PInt 1)]) s))"

section \<open>The periodic poll\<close>

definition interval_of :: "ble_device \<Rightarrow> rat" where
  "interval_of b = (if ble_interval b \<noteq> 0 then of_int (ble_interval b) else 240)"

definition last_poll :: "int \<Rightarrow> relay \<Rightarrow> rat" where
  "last_poll pid s = (case map_of (rl_poll s) pid of Some t \<Rightarrow> t | None \<Rightarrow> 0)"

text \<open>
  What can happen to one message: it goes out; the bridge has lost its client meanwhile, so that it is
  dropped without an error; or publishing it raises. A visit is one call of \<open>_poll_ble_accessories\<close>: whether
  the bridge is connected, the reading of the clock, and for each accessory the later reading that stamps
  its message and what becomes of it.
\<close>

datatype fate = Sent | Lost | Raised

record visit =
  visit_connected :: bool
  visit_now :: rat
  visit_send :: "ble_device \<Rightarrow> rat \<times> fate"

definition try_connect :: "device \<Rightarrow> ble_device \<Rightarrow> rat \<times> fate \<Rightarrow> relay \<Rightarrow> bool \<times> relay" where
  "try_connect dev b how s =
     (case snd how of
        Sent \<Rightarrow> (True, ble_connect dev b 1 (fst how) s) | Lost \<Rightarrow> (True, s) | Raised \<Rightarrow> (False, s))"

text \<open>The loop over the accessories; the flag says that nothing was raised.\<close>

fun poll_each :: "device \<Rightarrow> visit \<Rightarrow> ble_device list \<Rightarrow> relay \<Rightarrow> bool \<times> relay" where
  "poll_each dev v [] s = (True, s)"
| "poll_each dev v (b # bs) s =
     (if visit_now v - last_poll (ble_petkit_id b) s < interval_of b then poll_each dev v bs s
      else (case try_connect dev b (visit_send v b)
                   (s\<lparr>rl_poll := AList.update (ble_petkit_id b) (visit_now v) (rl_poll s)\<rparr>) of
              (True, s') \<Rightarrow> poll_each dev v bs s' | (False, s') \<Rightarrow> (False, s')))"

definition poll_ble_accessories :: "device \<Rightarrow> visit \<Rightarrow> relay \<Rightarrow> bool \<times> relay" where
  "poll_ble_accessories dev v s =
     (case rl_ble s of
        Some r \<Rightarrow>
          if rl_connected s \<and> visit_connected v then poll_each dev v (non_k3_for_parent (petkit_id dev) r) s
          else (True, s)
      | None \<Rightarrow> (True, s))"

text \<open>
  One turn of \<open>poll_ble_loop\<close>, after its sleep: its visits are numbered by the accessories of the list. What
  is raised ends the turn, not the loop.
\<close>

fun poll_parents :: "(nat \<Rightarrow> visit) \<Rightarrow> nat \<Rightarrow> ble_device list \<Rightarrow> relay \<Rightarrow> relay" where
  "poll_parents t i [] s = s"
| "poll_parents t i (b # bs) s =
     (if ble_link_with b = 0 then poll_parents t (Suc i) bs s
      else case map_of (rl_devices s) (ble_link_with b) of
             None \<Rightarrow> poll_parents t (Suc i) bs s
           | Some parent \<Rightarrow>
               (case poll_ble_accessories parent (t i) s of
                  (True, s') \<Rightarrow> poll_parents t (Suc i) bs s' | (False, s') \<Rightarrow> s'))"

definition poll_turn :: "relay \<Rightarrow> (nat \<Rightarrow> visit) \<Rightarrow> relay" where
  "poll_turn s t =
     (case rl_ble s of
        Some r \<Rightarrow> if rl_connected s then poll_parents t 0 (map snd (reg_entries r)) s else s
      | None \<Rightarrow> s)"

section \<open>Readings\<close>

definition put_state :: "string \<Rightarrow> pydict \<Rightarrow> (string \<times> pydict) list \<Rightarrow> (string \<times> pydict) list" where
  "put_state section vals st =
     AList.update section (dict_merge (case map_of st section of Some d \<Rightarrow> d | None \<Rightarrow> []) vals) st"

definition store_accessory :: "bool \<Rightarrow> bool \<Rightarrow> ble_device \<Rightarrow> ble_registry \<Rightarrow> ble_registry" where
  "store_accessory loop io b r =
     mark_dirty dump_accessories loop io (r\<lparr>reg_entries := AList.update (ble_petkit_id b) b (reg_entries r)\<rparr>)"

definition k3_fields :: "pydict \<Rightarrow> pydict" where
  "k3_fields params =
     List.map_filter (\<lambda>k. map_option (Pair k) (map_of params k)) [''battery'', ''liquid'']"

definition update_linked_k3 ::
    "bool \<Rightarrow> bool \<Rightarrow> device \<Rightarrow> pydict \<Rightarrow> ble_registry option \<Rightarrow> ble_device option \<times> ble_registry option" where
  "update_linked_k3 loop io dev params reg =
     (case reg of None \<Rightarrow> (None, reg) | Some r \<Rightarrow>
      (case get_linked_k3 (petkit_id dev) r of None \<Rightarrow> (None, reg) | Some k3 \<Rightarrow>
         (if k3_fields params = [] then (None, reg)
          else let k3' = k3\<lparr>ble_state := put_state ''consumables'' (k3_fields params) (ble_state k3)\<rparr>
               in (Some k3', Some (store_accessory loop io k3' r)))))"

text \<open>A content that is a text is decoded; whatever \<open>json.loads\<close> raises makes it empty.\<close>

definition response_content :: "pydict \<Rightarrow> pyval" where
  "response_content params =
     (case get_or params ''content'' (PDict []) of
        PStr s \<Rightarrow> (case json_loads s of Inr v \<Rightarrow> v | Inl _ \<Rightarrow> PDict [])
      | v \<Rightarrow> v)"

text \<open>
  The \<open>mac\<close> of the content. The lookup joins the alphanumeric items of whatever it is given, so
  a list of texts, or the keys of a dict, serve as well as a text; an item that is not a text has no
  \<open>isalnum\<close>, and what cannot be iterated raises too.
\<close>

definition joined_items :: "pyval list \<Rightarrow> py_exc + string" where
  "joined_items vs =
     (if list_all (\<lambda>v. case v of PStr _ \<Rightarrow> True | _ \<Rightarrow> False) vs
      then Inr (concat (map (\<lambda>v. case v of PStr t \<Rightarrow> if list_all is_alnum t then t else [] | _ \<Rightarrow> []) vs))
      else Inl AttributeError)"

definition response_mac :: "pyval \<Rightarrow> py_exc + string" where
  "response_mac content =
     (case dig content [''device'', ''mac''] (PStr []) of
        PStr m \<Rightarrow> Inr m
      | PList vs \<Rightarrow> joined_items vs
      | PDict d \<Rightarrow> joined_items (map (PStr \<circ> fst) d)
      | v \<Rightarrow> if truthy v then Inl TypeError else Inr [])"

definition fragment_of :: "ble_device \<Rightarrow> pyval \<Rightarrow> (string \<times> pydict) list" where
  "fragment_of b content = (case parser_for (ble_type b) of Some parse \<Rightarrow> parse content | None \<Rightarrow> [])"

definition apply_fragment :: "(string \<times> pydict) list \<Rightarrow> rat \<Rightarrow> ble_device \<Rightarrow> ble_device" where
  "apply_fragment fragment now b =
     b\<lparr>ble_state := fold (\<lambda>(section, vals). put_state section vals) fragment (ble_state b), ble_last_seen := now\<rparr>"

definition handle_ble_response ::
    "bool \<Rightarrow> bool \<Rightarrow> device \<Rightarrow> pydict \<Rightarrow> rat \<Rightarrow> rat \<Rightarrow> relay \<Rightarrow> py_exc + relay" where
  "handle_ble_response loop io dev params now hung s =
     (case rl_ble s of None \<Rightarrow> Inr s | Some r \<Rightarrow>
        ebind (response_mac (response_content params)) (\<lambda>m.
          case (if m = [] then None else get_by_mac m r) of
            None \<Rightarrow> Inr s
          | Some b \<Rightarrow>
              let fragment = fragment_of b (response_content params);
                  b' = apply_fragment fragment now b;
                  s1 = (if fragment = [] then s
                        else ble_connect dev b' 0 hung (s\<lparr>rl_ble := Some (store_accessory loop io b' r)\<rparr>))
              in Inr (if rl_has_ha s1 then s1\<lparr>rl_ha := rl_ha s1 @ [ble_petkit_id b]\<rparr> else s1)))"

section \<open>What a poll keeps\<close>

definition relay_fixed :: "relay \<Rightarrow> relay \<Rightarrow> bool" where
  "relay_fixed s s' \<longleftrightarrow> rl_connected s' = rl_connected s \<and> rl_ble s' = rl_ble s \<and> rl_devices s' = rl_devices s
     \<and> set (rl_sent s) \<subseteq> set (rl_sent s')"

lemma relay_fixed_refl [simp]: "relay_fixed s s"
  by (simp add: relay_fixed_def)

lemma relay_fixed_trans: "relay_fixed s t \<Longrightarrow> relay_fixed t u \<Longrightarrow> relay_fixed s u"
  by (auto simp: relay_fixed_def)

lemma relay_fixed_try: "relay_fixed s (snd (try_connect dev b how (s\<lparr>rl_poll := p\<rparr>)))"
  by (auto simp: try_connect_def relay_fixed_def ble_connect_def send_def split: fate.split)

lemma last_poll_try [simp]:
  "last_poll pid (snd (try_connect dev b how (s\<lparr>rl_poll := AList.update q t (rl_poll s)\<rparr>)))
    = (if pid = q then t else last_poll pid s)"
  by (simp add: try_connect_def last_poll_def ble_connect_def send_def lookup_update split: fate.split)

lemma poll_each_fixed: "relay_fixed s (snd (poll_each dev v bs s))"
proof (induction bs arbitrary: s)
  case (Cons b bs)
  let ?r = "try_connect dev b (visit_send v b) (s\<lparr>rl_poll := AList.update (ble_petkit_id b) (visit_now v) (rl_poll s)\<rparr>)"
  have "relay_fixed s (snd ?r)" by (rule relay_fixed_try)
  then show ?case using Cons.IH relay_fixed_trans by (auto split: prod.split bool.split)
qed simp

lemma poll_accessories_fixed: "relay_fixed s (snd (poll_ble_accessories dev v s))"
  by (simp add: poll_ble_accessories_def poll_each_fixed split: option.splits)

lemma poll_parents_fixed: "relay_fixed s (poll_parents t i bs s)"
proof (induction bs arbitrary: s i)
  case (Cons b bs)
  have "relay_fixed s (poll_parents t (Suc i) bs (snd (poll_ble_accessories parent (t i) s)))" for parent
    using poll_accessories_fixed Cons.IH by (rule relay_fixed_trans)
  then show ?case
    using Cons.IH poll_accessories_fixed [of s _ "t i"]
    by (auto split: option.split prod.split bool.split; metis snd_conv)
qed simp

lemma poll_turn_fixed: "relay_fixed s (poll_turn s t)"
  by (simp add: poll_turn_def poll_parents_fixed split: option.splits)

lemma poll_turns_fixed: "relay_fixed s (foldl poll_turn s ts)"
  by (induction ts arbitrary: s) (auto intro: relay_fixed_trans [OF poll_turn_fixed])

definition asked :: "device \<Rightarrow> ble_device \<Rightarrow> rat \<Rightarrow> published" where
  "asked dev b now = \<lparr>pub_device = petkit_id dev, pub_service = ''connect'',
     pub_body = envelope ''thing.service.connect'' now (connect_params b 1 now)\<rparr>"

text \<open>A visit in which the accessory is not due leaves its last request.\<close>

lemma poll_each_early:
  "\<forall>c \<in> set bs. ble_petkit_id c = pid \<longrightarrow> visit_now v - last_poll pid s < interval_of c \<Longrightarrow>
   last_poll pid (snd (poll_each dev v bs s)) = last_poll pid s"
proof (induction bs arbitrary: s)
  case (Cons c bs)
  let ?r = "try_connect dev c (visit_send v c) (s\<lparr>rl_poll := AList.update (ble_petkit_id c) (visit_now v) (rl_poll s)\<rparr>)"
  show ?case
  proof (cases "visit_now v - last_poll (ble_petkit_id c) s < interval_of c")
    case False
    then have other: "ble_petkit_id c \<noteq> pid" using Cons.prems by auto
    then have same: "last_poll pid (snd ?r) = last_poll pid s" by simp
    then have "last_poll pid (snd (poll_each dev v bs (snd ?r))) = last_poll pid s"
      using Cons.IH [of "snd ?r"] Cons.prems by simp
    then show ?thesis using False same by (cases ?r) (auto split: bool.split)
  qed (use Cons in simp)
qed simp

text \<open>A visit in which every message goes out asks the accessory exactly when it is due.\<close>

lemma poll_each_sends:
  assumes "rl_connected s" and "\<forall>c \<in> set bs. ble_petkit_id c = ble_petkit_id b \<longrightarrow> c = b"
    and "\<forall>c. snd (visit_send v c) = Sent"
  shows "fst (poll_each dev v bs s)
    \<and> (if b \<in> set bs \<and> interval_of b \<le> visit_now v - last_poll (ble_petkit_id b) s
       then last_poll (ble_petkit_id b) (snd (poll_each dev v bs s)) = visit_now v
         \<and> asked dev b (fst (visit_send v b)) \<in> set (rl_sent (snd (poll_each dev v bs s)))
       else last_poll (ble_petkit_id b) (snd (poll_each dev v bs s)) = last_poll (ble_petkit_id b) s)"
  using assms(1,2)
proof (induction bs arbitrary: s)
  case (Cons c bs)
  let ?s = "ble_connect dev c 1 (fst (visit_send v c))
      (s\<lparr>rl_poll := AList.update (ble_petkit_id c) (visit_now v) (rl_poll s)\<rparr>)"
  have sent: "try_connect dev c (visit_send v c)
      (s\<lparr>rl_poll := AList.update (ble_petkit_id c) (visit_now v) (rl_poll s)\<rparr>) = (True, ?s)"
    using assms(3) by (simp add: try_connect_def)
  have last: "last_poll pid ?s = (if pid = ble_petkit_id c then visit_now v else last_poll pid s)" for pid
    by (simp add: last_poll_def ble_connect_def send_def lookup_update)
  have con: "rl_connected ?s" using Cons.prems(1) by (simp add: ble_connect_def send_def)
  show ?case
  proof (cases "visit_now v - last_poll (ble_petkit_id c) s < interval_of c")
    case True
    then show ?thesis using Cons by (cases "c = b") auto
  next
    case due: False
    then have step: "poll_each dev v (c # bs) s = poll_each dev v bs ?s" using sent by simp
    show ?thesis
    proof (cases "c = b")
      case True
      have "asked dev b (fst (visit_send v b)) \<in> set (rl_sent ?s)"
        using Cons.prems(1) True by (simp add: ble_connect_def send_def asked_def)
      then have "asked dev b (fst (visit_send v b)) \<in> set (rl_sent (snd (poll_each dev v bs ?s)))"
        using poll_each_fixed [of ?s dev v bs] by (auto simp: relay_fixed_def)
      then show ?thesis
        using Cons.IH [OF con] Cons.prems(2) due True last unfolding step by (auto split: if_splits)
    next
      case False
      then have "ble_petkit_id c \<noteq> ble_petkit_id b" using Cons.prems(2) by auto
      then show ?thesis using Cons.IH [OF con] Cons.prems(2) False last unfolding step by auto
    qed
  qed
qed simp

section \<open>An accessory is asked in time\<close>

text \<open>
  An accessory, not a K3, of a known parent, in a registry whose keys are the ids of its entries; the
  bridge is connected.
\<close>

definition relayed :: "relay \<Rightarrow> device \<Rightarrow> ble_device \<Rightarrow> bool" where
  "relayed s dev b \<longleftrightarrow> rl_connected s
     \<and> (\<forall>(k, d) \<in> set (rl_devices s). petkit_id d = k)
     \<and> map_of (rl_devices s) (ble_link_with b) = Some dev \<and> ble_link_with b \<noteq> 0 \<and> ble_type b \<noteq> ''k3''
     \<and> (\<exists>r. rl_ble s = Some r \<and> b \<in> set (map snd (reg_entries r))
          \<and> (\<forall>c \<in> set (map snd (reg_entries r)). ble_petkit_id c = ble_petkit_id b \<longrightarrow> c = b))"

text \<open>A turn whose visits find the bridge connected and whose messages all go out.\<close>

definition all_sent :: "(nat \<Rightarrow> visit) \<Rightarrow> bool" where
  "all_sent t \<longleftrightarrow> (\<forall>i. visit_connected (t i) \<and> (\<forall>c. snd (visit_send (t i) c) = Sent))"

text \<open>Some visit of the turn is the accessory's last request, and its message went out.\<close>

definition asked_in :: "device \<Rightarrow> ble_device \<Rightarrow> (nat \<Rightarrow> visit) \<Rightarrow> relay \<Rightarrow> bool" where
  "asked_in dev b t s \<longleftrightarrow>
     (\<exists>i. last_poll (ble_petkit_id b) s = visit_now (t i)
        \<and> asked dev b (fst (visit_send (t i) b)) \<in> set (rl_sent s))"

lemma relayed_parent_id:
  assumes "relayed s dev b" and "map_of (rl_devices s) k = Some d"
  shows "petkit_id d = k"
proof -
  have "(k, d) \<in> set (rl_devices s)" using assms(2) by (rule map_of_SomeD)
  moreover have "\<forall>(k, d) \<in> set (rl_devices s). petkit_id d = k" using assms(1) by (simp add: relayed_def)
  ultimately show ?thesis by blast
qed

lemma relayed_fixed: "relayed s dev b \<Longrightarrow> relay_fixed s s' \<Longrightarrow> relayed s' dev b"
  unfolding relayed_def relay_fixed_def by simp

lemma accessories_early:
  assumes "relayed s dev b" and "visit_now v - last_poll (ble_petkit_id b) s < interval_of b"
  shows "last_poll (ble_petkit_id b) (snd (poll_ble_accessories parent v s)) = last_poll (ble_petkit_id b) s"
proof -
  obtain r where r: "rl_ble s = Some r" "\<forall>c \<in> set (map snd (reg_entries r)). ble_petkit_id c = ble_petkit_id b \<longrightarrow> c = b"
    using assms(1) by (auto simp: relayed_def)
  then have "\<forall>c \<in> set (non_k3_for_parent q r). ble_petkit_id c = ble_petkit_id b
      \<longrightarrow> visit_now v - last_poll (ble_petkit_id b) s < interval_of c" for q
    using assms(2) by (fastforce simp: non_k3_for_parent_def)
  then show ?thesis using r(1) by (simp add: poll_ble_accessories_def poll_each_early)
qed

lemma accessories_send:
  assumes rel: "relayed s dev b" and sent: "visit_connected v" "\<forall>c. snd (visit_send v c) = Sent"
  shows "fst (poll_ble_accessories parent v s)
    \<and> (if petkit_id parent = ble_link_with b \<and> interval_of b \<le> visit_now v - last_poll (ble_petkit_id b) s
       then last_poll (ble_petkit_id b) (snd (poll_ble_accessories parent v s)) = visit_now v
         \<and> asked dev b (fst (visit_send v b)) \<in> set (rl_sent (snd (poll_ble_accessories parent v s)))
       else last_poll (ble_petkit_id b) (snd (poll_ble_accessories parent v s)) = last_poll (ble_petkit_id b) s)"
proof -
  obtain r where r: "rl_ble s = Some r" "b \<in> set (map snd (reg_entries r))"
    "\<forall>c \<in> set (map snd (reg_entries r)). ble_petkit_id c = ble_petkit_id b \<longrightarrow> c = b"
    using rel by (auto simp: relayed_def)
  let ?bs = "non_k3_for_parent (petkit_id parent) r"
  have mem: "b \<in> set ?bs \<longleftrightarrow> petkit_id parent = ble_link_with b"
    using r(2) rel by (auto simp: non_k3_for_parent_def relayed_def)
  have "\<forall>c \<in> set ?bs. ble_petkit_id c = ble_petkit_id b \<longrightarrow> c = b"
    using r(3) by (auto simp: non_k3_for_parent_def)
  moreover have con: "rl_connected s" using rel by (simp add: relayed_def)
  moreover have "asked parent b = asked dev b" if "petkit_id parent = ble_link_with b"
    using that relayed_parent_id [OF rel, of "ble_link_with b" dev] rel by (auto simp: asked_def relayed_def fun_eq_iff)
  ultimately show ?thesis
    using poll_each_sends [of s ?bs b v parent] r(1) sent mem by (auto simp: poll_ble_accessories_def split: if_splits)
qed

lemma parents_early:
  "relayed s dev b \<Longrightarrow> \<forall>i. visit_now (t i) - last_poll (ble_petkit_id b) s < interval_of b \<Longrightarrow>
   last_poll (ble_petkit_id b) (poll_parents t i cs s) = last_poll (ble_petkit_id b) s"
proof (induction cs arbitrary: s i)
  case (Cons c cs)
  have keep: "last_poll (ble_petkit_id b) (poll_parents t (Suc i) cs (snd (poll_ble_accessories parent (t i) s)))
      = last_poll (ble_petkit_id b) s" for parent
    using Cons.IH [OF relayed_fixed [OF Cons.prems(1) poll_accessories_fixed]] Cons.prems(2)
      accessories_early [OF Cons.prems(1), of "t i" parent] by simp
  have stay: "last_poll (ble_petkit_id b) (snd (poll_ble_accessories parent (t i) s)) = last_poll (ble_petkit_id b) s" for parent
    using accessories_early [OF Cons.prems(1), of "t i" parent] Cons.prems(2) by simp
  show ?case
  proof (cases "map_of (rl_devices s) (ble_link_with c)")
    case (Some parent)
    then show ?thesis using Cons keep [of parent] stay [of parent]
      by (cases "poll_ble_accessories parent (t i) s") (auto split: bool.split)
  qed (use Cons in simp)
qed simp

lemma asked_in_accessories:
  assumes rel: "relayed s dev b" and t: "all_sent t"
    and "asked_in dev b t s \<or> petkit_id parent = ble_link_with b \<and> interval_of b \<le> visit_now (t i) - last_poll (ble_petkit_id b) s"
  shows "asked_in dev b t (snd (poll_ble_accessories parent (t i) s))"
proof (cases "petkit_id parent = ble_link_with b \<and> interval_of b \<le> visit_now (t i) - last_poll (ble_petkit_id b) s")
  case True
  then show ?thesis using accessories_send [OF rel, of "t i" parent] t by (auto simp: asked_in_def all_sent_def)
next
  case False
  then have "last_poll (ble_petkit_id b) (snd (poll_ble_accessories parent (t i) s)) = last_poll (ble_petkit_id b) s"
    using accessories_send [OF rel, of "t i" parent] t unfolding all_sent_def
    by (metis (full_types))
  then show ?thesis
    using False assms(3) poll_accessories_fixed [of s parent "t i"] by (auto simp: asked_in_def relay_fixed_def)
qed

lemma parents_ask:
  "relayed s dev b \<Longrightarrow> all_sent t \<Longrightarrow>
   asked_in dev b t s \<or> b \<in> set cs \<and> (\<forall>j. interval_of b \<le> visit_now (t j) - last_poll (ble_petkit_id b) s) \<Longrightarrow>
   asked_in dev b t (poll_parents t i cs s)"
proof (induction cs arbitrary: s i)
  case (Cons c cs)
  show ?case
  proof (cases "ble_link_with c = 0 \<or> map_of (rl_devices s) (ble_link_with c) = None")
    case True
    then have "c \<noteq> b" using Cons.prems(1) by (auto simp: relayed_def)
    then show ?thesis using True Cons by auto
  next
    case False
    then obtain parent where parent: "map_of (rl_devices s) (ble_link_with c) = Some parent" by auto
    let ?s = "snd (poll_ble_accessories parent (t i) s)"
    have fst: "fst (poll_ble_accessories parent (t i) s)"
      using accessories_send [OF Cons.prems(1), of "t i" parent] Cons.prems(2) by (simp add: all_sent_def)
    then have step: "poll_parents t i (c # cs) s = poll_parents t (Suc i) cs ?s"
      using False parent by (cases "poll_ble_accessories parent (t i) s") simp
    have rel: "relayed ?s dev b" by (rule relayed_fixed [OF Cons.prems(1) poll_accessories_fixed])
    have id: "petkit_id parent = ble_link_with c" by (rule relayed_parent_id [OF Cons.prems(1) parent])
    have "asked_in dev b t ?s \<or> b \<in> set cs \<and> (\<forall>j. interval_of b \<le> visit_now (t j) - last_poll (ble_petkit_id b) ?s)"
    proof (cases "asked_in dev b t s \<or> ble_link_with c = ble_link_with b")
      case True
      then show ?thesis using asked_in_accessories [OF Cons.prems(1,2), of parent i] Cons.prems(3) id by auto
    next
      case other: False
      then have "last_poll (ble_petkit_id b) ?s = last_poll (ble_petkit_id b) s"
        using accessories_send [OF Cons.prems(1), of "t i" parent] Cons.prems(2) id by (simp add: all_sent_def)
      then show ?thesis using Cons.prems(3) other by auto
    qed
    then show ?thesis unfolding step by (rule Cons.IH [OF rel Cons.prems(2)])
  qed
qed simp

lemma turns_early:
  "relayed s dev b \<Longrightarrow> \<forall>t \<in> set ts. \<forall>i. visit_now (t i) - last_poll (ble_petkit_id b) s < interval_of b \<Longrightarrow>
   last_poll (ble_petkit_id b) (foldl poll_turn s ts) = last_poll (ble_petkit_id b) s"
proof (induction ts arbitrary: s)
  case (Cons t ts)
  have "last_poll (ble_petkit_id b) (poll_turn s t) = last_poll (ble_petkit_id b) s"
    using Cons.prems parents_early [OF Cons.prems(1)] by (auto simp: poll_turn_def split: option.splits)
  then show ?case using Cons relayed_fixed [OF Cons.prems(1) poll_turn_fixed] by simp
qed simp

text \<open>
  C19: an accessory that is not a K3, in a registry without repeated ids, with a known parent, is left alone
  by every turn of the poll loop all of whose visits come before its interval since the last request is
  over, whatever else happens in those turns; and in the first turn all of whose visits come after it, it is
  asked, provided the bridge stays connected through that turn and none of its messages fails: the last
  request is then a visit of that turn whose message went out.
\<close>

theorem accessory_polled_in_time:
  assumes rel: "relayed s dev b"
    and early: "\<forall>u \<in> set us. \<forall>i. visit_now (u i) - last_poll (ble_petkit_id b) s < interval_of b"
    and due: "\<forall>i. interval_of b \<le> visit_now (t i) - last_poll (ble_petkit_id b) s" and sent: "all_sent t"
  shows "last_poll (ble_petkit_id b) (foldl poll_turn s us) = last_poll (ble_petkit_id b) s
    \<and> (\<exists>i. last_poll (ble_petkit_id b) (foldl poll_turn s (us @ [t])) = visit_now (t i)
         \<and> asked dev b (fst (visit_send (t i) b)) \<in> set (rl_sent (foldl poll_turn s (us @ [t]))))"
proof -
  let ?s = "foldl poll_turn s us"
  have kept: "last_poll (ble_petkit_id b) ?s = last_poll (ble_petkit_id b) s"
    by (rule turns_early [OF rel early])
  have rel': "relayed ?s dev b" by (rule relayed_fixed [OF rel poll_turns_fixed])
  then obtain r where r: "rl_ble ?s = Some r" "rl_connected ?s" "b \<in> set (map snd (reg_entries r))"
    by (auto simp: relayed_def)
  have "asked_in dev b t (poll_turn ?s t)"
    using parents_ask [OF rel' sent] due kept r by (simp add: poll_turn_def)
  then show ?thesis using kept by (simp add: asked_in_def)
qed

section \<open>Sequence numbers\<close>

lemma and_byte: "(n::int) AND 255 = n mod 256"
proof -
  have "n AND mask 8 = n mod 2 ^ 8" by (simp only: take_bit_eq_mask [symmetric] take_bit_eq_mod)
  moreover have "mask 8 = (255::int)" by (simp add: mask_eq_exp_minus_1)
  ultimately show ?thesis by simp
qed

lemma publish_seq:
  assumes "rl_connected s" and "publish_ble_command dev b cmd payload t u s = (ok, s')"
  shows "rl_connected s' \<and> next_seq b s' = (next_seq b s + 1) mod 256"
proof -
  have "next_seq b (ble_connect dev b 1 t s) = next_seq b s" "rl_connected (ble_connect dev b 1 t s)"
    using assms(1) by (simp_all add: next_seq_def ble_connect_def send_def)
  then show ?thesis
    using assms by (auto simp: publish_ble_command_def Let_def next_seq_def send_def lookup_update and_byte
        split: option.splits)
qed

text \<open>A command that has no opcode is refused, after the session for it was opened.\<close>

theorem refused_command_opens_session:
  assumes "rl_connected s" and "cmd \<notin> set ble_sendable"
  shows "fst (publish_ble_command dev b cmd payload t u s) = False
    \<and> rl_sent (snd (publish_ble_command dev b cmd payload t u s)) = rl_sent s @ [asked dev b t]"
  using assms by (simp add: publish_ble_command_def ble_command_frame_def Let_def ble_connect_def send_def asked_def)

text \<open>
  A feeder with a fountain paired to it, polled every thirty seconds: the fountain was asked at 1000,
  its interval is 240.
\<close>

definition relay_parent :: device where
  "relay_parent = new_device \<lparr>minted_key = ''pk'', minted_secret = ''ds'', minted_time = 0\<rparr> ''d4sh'' 5 [] [] [] []"

definition sample_relay :: relay where
  "sample_relay = \<lparr>rl_connected = True, rl_ble = Some (no_accessories\<lparr>reg_entries := [(77, sample_ble)]\<rparr>),
     rl_devices = [(5, relay_parent)], rl_has_ha = False, rl_poll = [(77, 1000)], rl_seq = [], rl_sent = [], rl_ha = []\<rparr>"

lemma sample_relayed: "relayed sample_relay relay_parent sample_ble"
proof -
  have "petkit_id relay_parent = 5" by code_simp
  then show ?thesis by (simp add: relayed_def sample_relay_def sample_ble_def)
qed

definition steady_turn :: "rat \<Rightarrow> fate \<Rightarrow> nat \<Rightarrow> visit" where
  "steady_turn now f = (\<lambda>i. \<lparr>visit_connected = True, visit_now = now, visit_send = (\<lambda>c. (now, f))\<rparr>)"

theorem accessory_polled_in_time_witness:
  "last_poll 77 (foldl poll_turn sample_relay ([steady_turn 1030 Raised, steady_turn 1239 Sent] @ [steady_turn 1260 Sent])) = 1260
    \<and> asked relay_parent sample_ble 1260
        \<in> set (rl_sent (foldl poll_turn sample_relay ([steady_turn 1030 Raised, steady_turn 1239 Sent] @ [steady_turn 1260 Sent])))"
proof -
  have facts: "last_poll (ble_petkit_id sample_ble) sample_relay = 1000" "interval_of sample_ble = 240"
    "ble_petkit_id sample_ble = 77"
    by (simp_all add: last_poll_def sample_relay_def sample_ble_def interval_of_def)
  have "all_sent (steady_turn 1260 Sent)" by (simp add: all_sent_def steady_turn_def)
  then show ?thesis
    using accessory_polled_in_time [OF sample_relayed, of "[steady_turn 1030 Raised, steady_turn 1239 Sent]" "steady_turn 1260 Sent"] facts
    by (simp add: steady_turn_def)
qed

theorem refused_command_opens_session_witness:
  "fst (publish_ble_command relay_parent sample_ble 1 [] 0 0 sample_relay) = False
    \<and> rl_sent (snd (publish_ble_command relay_parent sample_ble 1 [] 0 0 sample_relay)) = [asked relay_parent sample_ble 0]"
proof -
  have "(1::int) \<notin> set ble_sendable" by code_simp
  moreover have "rl_connected sample_relay" "rl_sent sample_relay = []" by (simp_all add: sample_relay_def)
  ultimately show ?thesis using refused_command_opens_session [of sample_relay 1 relay_parent sample_ble "[]" 0 0] by simp
qed

section \<open>The sequence byte\<close>

definition publish_all :: "device \<Rightarrow> ble_device \<Rightarrow> (int \<times> bytes \<times> rat \<times> rat) list \<Rightarrow> relay \<Rightarrow> relay" where
  "publish_all dev b cs s =
     foldl (\<lambda>s (cmd, payload, t, u). snd (publish_ble_command dev b cmd payload t u s)) s cs"

lemma publish_all_seq:
  "rl_connected s \<Longrightarrow> 0 \<le> next_seq b s \<Longrightarrow> next_seq b s < 256 \<Longrightarrow>
   rl_connected (publish_all dev b cs s)
   \<and> next_seq b (publish_all dev b cs s) = (next_seq b s + int (length cs)) mod 256"
proof (induction cs arbitrary: s)
  case (Cons c cs)
  obtain cmd payload t u where c: "c = (cmd, payload, t, u)" by (cases c) auto
  obtain ok s' where s': "publish_ble_command dev b cmd payload t u s = (ok, s')" by fastforce
  have step: "rl_connected s'" "next_seq b s' = (next_seq b s + 1) mod 256"
    using publish_seq [OF Cons.prems(1) s'] by auto
  have "publish_all dev b (c # cs) s = publish_all dev b cs s'" by (simp add: publish_all_def c s')
  moreover have "(next_seq b s' + int (length cs)) mod 256 = (next_seq b s + int (length (c # cs))) mod 256"
    by (simp add: step(2) mod_simps ac_simps)
  ultimately show ?case using Cons.IH [OF step(1)] step(2) by simp
qed (simp add: publish_all_def)

text \<open>
  C20: the sequence number of an accessory's frames counts the commands since the start, modulo a byte, and
  the next frame carries it: the bytes that go out are those of the frame with that number.
\<close>

theorem sequence_counts_commands:
  assumes con: "rl_connected s" and fresh: "map_of (rl_seq s) (ble_petkit_id b) = None"
    and cmd: "cmd \<in> set ble_sendable"
  shows "\<exists>s'. publish_ble_command dev b cmd payload t u (publish_all dev b cs s) = (True, s')
    \<and> last (rl_sent s') = \<lparr>pub_device = petkit_id dev, pub_service = ''ble'',
        pub_body = command_body b cmd (build_ble_frame cmd (int (length cs) mod 256) payload) u\<rparr>"
proof -
  let ?s = "publish_all dev b cs s"
  have s: "rl_connected ?s" "next_seq b ?s = int (length cs) mod 256"
    using publish_all_seq [OF con, of b dev cs] fresh by (simp_all add: next_seq_def)
  moreover have "next_seq b (ble_connect dev b 1 t ?s) = next_seq b ?s"
    by (simp add: next_seq_def ble_connect_def send_def)
  ultimately show ?thesis
    using cmd by (simp add: publish_ble_command_def Let_def ble_command_frame_def send_def)
qed

theorem sequence_counts_commands_witness:
  "\<exists>s'. publish_ble_command relay_parent sample_ble cmd_reset_filter [] 0 0
      (publish_all relay_parent sample_ble (replicate 257 (1, [], 0, 0)) sample_relay) = (True, s')
    \<and> last (rl_sent s') = \<lparr>pub_device = petkit_id relay_parent, pub_service = ''ble'',
        pub_body = command_body sample_ble cmd_reset_filter (build_ble_frame cmd_reset_filter 1 []) 0\<rparr>"
proof -
  have "cmd_reset_filter \<in> set ble_sendable" by code_simp
  moreover have "rl_connected sample_relay" "map_of (rl_seq sample_relay) (ble_petkit_id sample_ble) = None"
    by (simp_all add: sample_relay_def)
  moreover have "int (length (replicate 257 (1::int, [] :: bytes, 0::rat, 0::rat))) mod 256 = 1" by simp
  ultimately show ?thesis
    using sequence_counts_commands [of sample_relay sample_ble cmd_reset_filter relay_parent "[]" 0 0
        "replicate 257 (1, [], 0, 0)"] by metis
qed

end
