(* ===== verification/Paths.thy ===== *)
theory Paths
  imports Prelude
begin

text \<open>
  File names and paths made from what a device or a user sends (\<open>utils/paths.py\<close>). A text is a list
  of code points below 256. \<open>os.path.realpath\<close>, which asks the file system, is an argument.
\<close>

section \<open>File names\<close>

definition unsafe_char :: "char \<Rightarrow> bool" where
  "unsafe_char c \<longleftrightarrow> c \<in> set (CHR 0x5C # CHR 0x22 # ''/:*?<>|#&%'')"

definition control_char :: "char \<Rightarrow> bool" where
  "control_char c \<longleftrightarrow> char_in 0 31 c \<or> char_in 127 159 c"

text \<open>\<open>_DOT_RUNS.sub("-", name)\<close>.\<close>

function dash_dot_runs :: "string \<Rightarrow> string" where
  "dash_dot_runs s =
     (case s of
        [] \<Rightarrow> []
      | c # r \<Rightarrow>
          if c = CHR ''.'' \<and> r \<noteq> [] \<and> hd r = CHR ''.''
          then CHR ''-'' # dash_dot_runs (dropWhile (\<lambda>c. c = CHR ''.'') r)
          else c # dash_dot_runs r)"
  by auto
termination
  by (relation "measure length") (auto simp: le_imp_less_Suc length_dropWhile_le)

declare dash_dot_runs.simps [simp del]

definition edge_char :: "char \<Rightarrow> bool" where
  "edge_char c \<longleftrightarrow> c \<in> set '' .-''"

definition strip_edges :: "string \<Rightarrow> string" where
  "strip_edges s = rev (dropWhile edge_char (rev (dropWhile edge_char s)))"

text \<open>\<open>os.path.splitext\<close> of a name without separators and without leading dots.\<close>

definition split_ext :: "string \<Rightarrow> string \<times> string" where
  "split_ext s =
     (if CHR ''.'' \<in> set s
      then let ext = CHR ''.'' # rev (takeWhile (\<lambda>c. c \<noteq> CHR ''.'') (rev s))
           in (take (length s - length ext) s, ext)
      else (s, []))"

definition fallback_filename :: string where "fallback_filename = ''file''"
definition max_filename_length :: nat where "max_filename_length = 120"
definition max_extension_length :: nat where "max_extension_length = 12"

definition cleaned :: "string \<Rightarrow> string" where
  "cleaned name =
     strip_edges (dash_dot_runs (map (\<lambda>c. if unsafe_char c then CHR ''-'' else c)
       (filter (\<lambda>c. \<not> control_char c) name)))"

definition shortened :: "nat \<Rightarrow> string \<Rightarrow> string" where
  "shortened max_length name =
     (if length name \<le> max_length then name
      else let (stem, ext) = split_ext name;
               (stem, ext) = (if max_extension_length < length ext \<or> max_length \<le> length ext
                              then (name, []) else (stem, ext))
           in strip_edges (take (max_length - length ext) stem @ ext))"

definition sanitize_filename :: "string \<Rightarrow> string \<Rightarrow> nat \<Rightarrow> string" where
  "sanitize_filename name fallback max_length =
     (if cleaned name = [] then fallback
      else let short = shortened max_length (cleaned name) in if short = [] then fallback else short)"

section \<open>Joined paths\<close>

definition path_parts :: "string \<Rightarrow> string list" where
  "path_parts s = filter (\<lambda>p. p \<noteq> []) (split_on (CHR ''/'') (map (\<lambda>c. if c = CHR 0x5C then CHR ''/'' else c) s))"

definition relative_parts :: "string list \<Rightarrow> string list" where
  "relative_parts untrusted = concat (map (\<lambda>s. filter (\<lambda>p. p \<noteq> ''.'') (path_parts s)) untrusted)"

text \<open>\<open>os.path.join\<close> of relative parts.\<close>

definition join_path :: "string \<Rightarrow> string list \<Rightarrow> string" where
  "join_path root_dir parts =
     foldl (\<lambda>p q. if p = [] \<or> ends_with p ''/'' then p @ q else p @ ''/'' @ q) root_dir parts"

definition unsafe_path :: "string \<Rightarrow> py_exc" where
  "unsafe_path msg = Refused msg"

definition safe_join :: "(string \<Rightarrow> string) \<Rightarrow> string \<Rightarrow> string list \<Rightarrow> py_exc + string" where
  "safe_join realpath root_dir untrusted =
     (if CHR 0x00 \<in> set (concat (root_dir # untrusted)) then Inl (unsafe_path ''path contains a NUL byte'')
      else let root_real = realpath root_dir;
               candidate = realpath (join_path root_real (relative_parts untrusted))
           in if take (length (path_parts root_real)) (path_parts candidate) \<noteq> path_parts root_real
              then Inl (unsafe_path ''path escapes root'')
              else Inr candidate)"

section \<open>Lemmas\<close>

lemma dash_run:
  "c = CHR ''.'' \<and> r \<noteq> [] \<and> hd r = CHR ''.'' \<Longrightarrow>
   dash_dot_runs (c # r) = CHR ''-'' # dash_dot_runs (dropWhile (\<lambda>c. c = CHR ''.'') r)"
  by (subst dash_dot_runs.simps) simp

lemma dash_single:
  "\<not> (c = CHR ''.'' \<and> r \<noteq> [] \<and> hd r = CHR ''.'') \<Longrightarrow> dash_dot_runs (c # r) = c # dash_dot_runs r"
  by (subst dash_dot_runs.simps) auto

lemma dash_dot_runs_chars: "set (dash_dot_runs s) \<subseteq> insert (CHR ''-'') (set s)"
proof (induction s rule: dash_dot_runs.induct)
  case (1 s)
  show ?case
  proof (cases s)
    case Nil
    then show ?thesis by (simp add: dash_dot_runs.simps)
  next
    case (Cons c r)
    show ?thesis
    proof (cases "c = CHR ''.'' \<and> r \<noteq> [] \<and> hd r = CHR ''.''")
      case True
      then have "set (dash_dot_runs (dropWhile (\<lambda>c. c = CHR ''.'') r))
          \<subseteq> insert (CHR ''-'') (set (dropWhile (\<lambda>c. c = CHR ''.'') r))"
        using 1(1) [OF Cons] by blast
      then show ?thesis
        using Cons set_dropWhileD unfolding Cons dash_run [OF True] by fastforce
    next
      case False
      then have "set (dash_dot_runs r) \<subseteq> insert (CHR ''-'') (set r)" using 1(2) [OF Cons] by blast
      then show ?thesis unfolding Cons dash_single [OF False] by auto
    qed
  qed
qed

text \<open>Two dots side by side.\<close>

definition has_dot_run :: "string \<Rightarrow> bool" where
  "has_dot_run s \<longleftrightarrow> (\<exists>a b. s = a @ ''..'' @ b)"

lemma has_dot_run_Cons:
  "has_dot_run (c # s) \<longleftrightarrow> (c = CHR ''.'' \<and> s \<noteq> [] \<and> hd s = CHR ''.'') \<or> has_dot_run s"
proof
  assume "has_dot_run (c # s)"
  then obtain a b where "c # s = a @ ''..'' @ b" by (auto simp: has_dot_run_def)
  then show "(c = CHR ''.'' \<and> s \<noteq> [] \<and> hd s = CHR ''.'') \<or> has_dot_run s"
    by (cases a) (auto simp: has_dot_run_def)
next
  assume "(c = CHR ''.'' \<and> s \<noteq> [] \<and> hd s = CHR ''.'') \<or> has_dot_run s"
  then show "has_dot_run (c # s)"
  proof
    assume "c = CHR ''.'' \<and> s \<noteq> [] \<and> hd s = CHR ''.''"
    then have "c # s = [] @ ''..'' @ tl s" by (cases s) auto
    then show ?thesis unfolding has_dot_run_def by blast
  next
    assume "has_dot_run s"
    then obtain a b where "c # s = (c # a) @ ''..'' @ b" by (auto simp: has_dot_run_def)
    then show ?thesis unfolding has_dot_run_def by blast
  qed
qed

lemma dash_dot_runs_first: "s \<noteq> [] \<Longrightarrow> hd s \<noteq> CHR ''.'' \<Longrightarrow> hd (dash_dot_runs s) \<noteq> CHR ''.''"
  by (cases s) (auto simp: dash_dot_runs.simps)

lemma no_dot_run: "\<not> has_dot_run (dash_dot_runs s)"
proof (induction s rule: dash_dot_runs.induct)
  case (1 s)
  have none: "\<not> has_dot_run []" by (simp add: has_dot_run_def)
  show ?case
  proof (cases s)
    case Nil
    then show ?thesis using none by (simp add: dash_dot_runs.simps)
  next
    case (Cons c r)
    show ?thesis
    proof (cases "c = CHR ''.'' \<and> r \<noteq> [] \<and> hd r = CHR ''.''")
      case True
      then have "\<not> has_dot_run (dash_dot_runs (dropWhile (\<lambda>c. c = CHR ''.'') r))"
        using 1(1) [OF Cons] by blast
      then show ?thesis unfolding Cons dash_run [OF True] by (simp add: has_dot_run_Cons)
    next
      case False
      then have "\<not> has_dot_run (dash_dot_runs r)" using 1(2) [OF Cons] by blast
      moreover have "dash_dot_runs [] = []" by (simp add: dash_dot_runs.simps)
      ultimately show ?thesis
        using False dash_dot_runs_first [of r] unfolding Cons dash_single [OF False]
        by (cases "r = []") (auto simp: has_dot_run_Cons)
    qed
  qed
qed

lemma strip_edges_parts: "\<exists>a b. s = a @ strip_edges s @ b"
proof -
  let ?d = "dropWhile edge_char s"
  have "s = takeWhile edge_char s @ ?d" by simp
  moreover have "rev ?d = takeWhile edge_char (rev ?d) @ dropWhile edge_char (rev ?d)" by simp
  then have "?d = strip_edges s @ rev (takeWhile edge_char (rev ?d))"
    by (metis rev_append rev_rev_ident strip_edges_def)
  ultimately show ?thesis by metis
qed

lemma strip_edges_chars: "set (strip_edges s) \<subseteq> set s"
  using strip_edges_parts [of s] by (metis Un_upper1 Un_upper2 order_trans set_append)

lemma strip_edges_length: "length (strip_edges s) \<le> length s"
  using strip_edges_parts [of s] by (metis le_add1 le_add2 length_append order_trans)

lemma strip_edges_dots: "\<not> has_dot_run s \<Longrightarrow> \<not> has_dot_run (strip_edges s)"
proof
  assume "\<not> has_dot_run s" and "has_dot_run (strip_edges s)"
  moreover obtain a b where ab: "s = a @ strip_edges s @ b" using strip_edges_parts by blast
  ultimately obtain c d where "strip_edges s = c @ ''..'' @ d" by (auto simp: has_dot_run_def)
  then have "s = (a @ c) @ ''..'' @ (d @ b)" using ab by simp
  then show False using \<open>\<not> has_dot_run s\<close> unfolding has_dot_run_def by blast
qed

lemma strip_edges_ends:
  assumes "strip_edges s \<noteq> []"
  shows "\<not> edge_char (hd (strip_edges s))" and "\<not> edge_char (last (strip_edges s))"
proof -
  let ?d = "dropWhile edge_char s" and ?e = "dropWhile edge_char (rev (dropWhile edge_char s))"
  have e: "?e \<noteq> []" using assms by (simp add: strip_edges_def)
  show "\<not> edge_char (last (strip_edges s))"
    using hd_dropWhile [OF e] by (simp add: strip_edges_def last_rev e)
  have "rev ?d = takeWhile edge_char (rev ?d) @ ?e" by simp
  then have "?d = strip_edges s @ rev (takeWhile edge_char (rev ?d))"
    by (metis rev_append rev_rev_ident strip_edges_def)
  then have "hd ?d = hd (strip_edges s)" using assms by (metis hd_append)
  moreover have "?d \<noteq> []"
  proof
    assume "?d = []"
    then show False using assms by (simp only: strip_edges_def) simp
  qed
  ultimately show "\<not> edge_char (hd (strip_edges s))" using hd_dropWhile [of edge_char s] by simp
qed

section \<open>Properties\<close>

text \<open>A name that can stand as one component of a path, a URL or a line of a list.\<close>

definition plain_name :: "string \<Rightarrow> bool" where
  "plain_name s \<longleftrightarrow> s \<noteq> [] \<and> list_all (\<lambda>c. \<not> unsafe_char c \<and> \<not> control_char c) s
     \<and> \<not> edge_char (hd s) \<and> \<not> edge_char (last s)"

lemma cleaned_chars: "c \<in> set (cleaned name) \<Longrightarrow> \<not> unsafe_char c \<and> \<not> control_char c"
proof -
  assume c: "c \<in> set (cleaned name)"
  let ?m = "map (\<lambda>c. if unsafe_char c then CHR ''-'' else c) (filter (\<lambda>c. \<not> control_char c) name)"
  have dash: "\<not> unsafe_char (CHR ''-'')" "\<not> control_char (CHR ''-'')" by code_simp+
  have "c \<in> insert (CHR ''-'') (set ?m)"
    using c strip_edges_chars [of "dash_dot_runs ?m"] dash_dot_runs_chars [of ?m] by (auto simp: cleaned_def)
  then show ?thesis using dash by auto
qed

lemma split_ext_chars: "set (fst (split_ext s)) \<subseteq> set s" "set (snd (split_ext s)) \<subseteq> set s"
  by (auto simp: split_ext_def Let_def dest: in_set_takeD set_takeWhileD)

lemma shortened_cases:
  "shortened n s = s \<or> (\<exists>k a b. shortened n s = strip_edges (take k a @ b) \<and> set a \<subseteq> set s \<and> set b \<subseteq> set s)"
proof (cases "length s \<le> n")
  case True
  then show ?thesis by (simp add: shortened_def)
next
  case False
  show ?thesis
  proof (cases "max_extension_length < length (snd (split_ext s)) \<or> n \<le> length (snd (split_ext s))")
    case True
    then have "shortened n s = strip_edges (take n s @ [])" using False by (simp add: shortened_def split_beta)
    then show ?thesis by (metis empty_subsetI list.set(1) order_refl)
  next
    case other: False
    then have "shortened n s
        = strip_edges (take (n - length (snd (split_ext s))) (fst (split_ext s)) @ snd (split_ext s))"
      using False by (simp add: shortened_def split_beta)
    then show ?thesis using split_ext_chars [of s] by blast
  qed
qed

lemma shortened_chars: "set (shortened n s) \<subseteq> set s"
proof (cases "shortened n s = s")
  case False
  then obtain k a b where "shortened n s = strip_edges (take k a @ b)" "set a \<subseteq> set s" "set b \<subseteq> set s"
    using shortened_cases [of n s] by blast
  then show ?thesis using strip_edges_chars [of "take k a @ b"] set_take_subset [of k a] by auto
qed simp

lemma shortened_length: "length (shortened n s) \<le> n"
  using strip_edges_length
  by (auto simp: shortened_def Let_def split_beta intro!: order.trans [OF strip_edges_length] split: if_splits)

lemma shortened_ends:
  assumes "\<not> edge_char (hd s)" "\<not> edge_char (last s)" "shortened n s \<noteq> []"
  shows "\<not> edge_char (hd (shortened n s)) \<and> \<not> edge_char (last (shortened n s))"
  using assms strip_edges_ends by (auto simp: shortened_def Let_def split_beta split: if_splits)

text \<open>
  C21: whatever a device or a user calls a file, the sanitised name is one harmless component: no
  separator, no control character, nothing a shell tool or a URL reads specially at its ends, and
  no longer than the cap; without truncation it has no two dots side by side.
\<close>

theorem sanitized_name_is_plain:
  assumes "plain_name fallback" and "length fallback \<le> n"
  shows "plain_name (sanitize_filename name fallback n) \<and> length (sanitize_filename name fallback n) \<le> n
    \<and> (length (cleaned name) \<le> n \<and> cleaned name \<noteq> [] \<longrightarrow> \<not> has_dot_run (sanitize_filename name fallback n))"
proof (cases "cleaned name = [] \<or> shortened n (cleaned name) = []")
  case True
  then have "sanitize_filename name fallback n = fallback" by (auto simp: sanitize_filename_def)
  moreover have "cleaned name = [] \<or> n < length (cleaned name)"
    using True by (auto simp: shortened_def split: if_splits)
  ultimately show ?thesis using assms by auto
next
  case False
  then have s: "sanitize_filename name fallback n = shortened n (cleaned name)"
    by (simp add: sanitize_filename_def Let_def)
  have "\<not> edge_char (hd (cleaned name)) \<and> \<not> edge_char (last (cleaned name))"
    using False strip_edges_ends by (auto simp: cleaned_def)
  then have "plain_name (shortened n (cleaned name))"
    using False shortened_ends [of "cleaned name" n] shortened_chars [of n "cleaned name"] cleaned_chars
    by (auto simp: plain_name_def list_all_iff)
  moreover have "\<not> has_dot_run (cleaned name)" by (simp add: cleaned_def strip_edges_dots no_dot_run)
  ultimately show ?thesis using s shortened_length [of n "cleaned name"] by (simp add: shortened_def)
qed

theorem sanitized_name_is_plain_witness:
  "plain_name (sanitize_filename (''../'' @ [CHR 0x0A] @ ''etc/passwd'') fallback_filename max_filename_length)
   \<and> sanitize_filename (''../'' @ [CHR 0x0A] @ ''etc/passwd'') fallback_filename max_filename_length = ''etc-passwd''"
proof -
  have "plain_name fallback_filename" by code_simp
  moreover have "length fallback_filename \<le> max_filename_length" by code_simp
  moreover have "sanitize_filename (''../'' @ [CHR 0x0A] @ ''etc/passwd'') fallback_filename max_filename_length = ''etc-passwd''"
    by code_simp
  ultimately show ?thesis using sanitized_name_is_plain by metis
qed

text \<open>
  Truncation can put two dots side by side again: the cut stem may end in one, and the extension that
  is put back begins with one.
\<close>

theorem truncation_restores_dot_run:
  "has_dot_run (sanitize_filename ''a.bb.c'' fallback_filename 4)"
proof -
  have "sanitize_filename ''a.bb.c'' fallback_filename 4 = [CHR ''a''] @ ''..'' @ [CHR ''c'']" by code_simp
  then show ?thesis unfolding has_dot_run_def by blast
qed

text \<open>A plain name is joined as one component below the root.\<close>

lemma plain_name_parts: "plain_name s \<Longrightarrow> relative_parts [s] = [s]"
proof -
  assume p: "plain_name s"
  have "CHR 0x5C \<notin> set s" "CHR ''/'' \<notin> set s"
    using p by (auto simp: plain_name_def list_all_iff unsafe_char_def)
  then have "map (\<lambda>c. if c = CHR 0x5C then CHR ''/'' else c) s = s" by (intro map_idI) auto
  moreover have "s \<noteq> [] \<and> s \<noteq> ''.''" using p by (auto simp: plain_name_def edge_char_def)
  ultimately show ?thesis
    using \<open>CHR ''/'' \<notin> set s\<close> by (simp add: relative_parts_def path_parts_def split_on_single)
qed

end
