(* ===== verification/Consumables.thy ===== *)
theory Consumables
  imports Device Dicts
begin

text \<open>
  The countdowns of replaceable parts (\<open>devices/consumables.py\<close>): the replacement dates this
  server records, the date the device reports for one of them, and the days left computed from
  either. The clock is an argument; the readings one recomputation makes of it are one argument.
\<close>

definition spray_days :: int where "spray_days = 45"
definition deodorant_days :: int where "deodorant_days = 30"
definition desiccant_days :: int where "desiccant_days = 30"
definition consumable_record_key :: string where "consumable_record_key = ''consumables''"

definition consumable_totals :: "(string \<times> string \<times> int) list" where
  "consumable_totals =
     [(''n50'', ''deodorantLeftDays'', deodorant_days), (''n60'', ''sprayLeftDays'', spray_days),
      (''desiccant'', ''desiccantLeftDays'', desiccant_days)]"

text \<open>
  \<open>_days_left_from_reset\<close>. The three operations are rounded to binary64; only a difference that
  overflows makes \<open>math.ceil\<close> raise.
\<close>

definition float_then :: "pyfloat \<Rightarrow> (rat \<Rightarrow> pyfloat) \<Rightarrow> pyfloat" where
  "float_then f g = (case f of Fin q \<Rightarrow> g q | _ \<Rightarrow> f)"

definition days_left_from_reset :: "rat \<Rightarrow> pyval \<Rightarrow> int \<Rightarrow> py_exc + int option" where
  "days_left_from_reset now stamp total_days =
     (case to_float stamp of
        Some (Fin ts) \<Rightarrow>
          if ts = 0 then Inr None
          else (case float_then (float_then (round_b64 (now - ts)) (\<lambda>d. round_b64 (d / 86400)))
                       (\<lambda>days. round_b64 (of_int total_days - days)) of
                  Fin left \<Rightarrow> Inr (Some (max 0 \<lceil>left\<rceil>))
                | NaN \<Rightarrow> Inl ValueError
                | _ \<Rightarrow> Inl OverflowError)
      | _ \<Rightarrow> Inr None)"

text \<open>A stamp that converts to a number other than zero.\<close>

definition live_stamp :: "pyval \<Rightarrow> pyval option" where
  "live_stamp v =
     (case to_float v of Some f \<Rightarrow> if f = Fin 0 then None else Some (PFloat f) | None \<Rightarrow> None)"

definition recorded :: "device \<Rightarrow> pydict" where
  "recorded dev = (case get (dev_config dev) consumable_record_key of PDict d \<Rightarrow> d | _ \<Rightarrow> [])"

definition set_state :: "string \<Rightarrow> pyval \<Rightarrow> device \<Rightarrow> device" where
  "set_state k v dev = dev\<lparr>dev_state := AList.update k v (dev_state dev)\<rparr>"

definition set_record :: "pydict \<Rightarrow> device \<Rightarrow> device" where
  "set_record rec dev = dev\<lparr>dev_config := AList.update consumable_record_key (PDict rec) (dev_config dev)\<rparr>"

fun fill_countdowns :: "rat \<Rightarrow> pydict \<Rightarrow> (string \<times> string \<times> int) list \<Rightarrow> device \<Rightarrow> py_exc + device" where
  "fill_countdowns now rec [] dev = Inr dev"
| "fill_countdowns now rec ((which, state_key, total_days) # others) dev =
     ebind (days_left_from_reset now (get rec which) total_days) (\<lambda>left.
       fill_countdowns now rec others
         (case left of Some n \<Rightarrow> set_state state_key (PInt n) dev | None \<Rightarrow> dev))"

text \<open>The stamp the device reports wins over the one kept; without one the kept stamp is shown.\<close>

definition apply_consumable_state :: "rat \<Rightarrow> device \<Rightarrow> py_exc + device" where
  "apply_consumable_state now dev =
     (let rec = recorded dev
      in case live_stamp (get (dev_state dev) ''sprayResetTime'') of
           Some f \<Rightarrow>
             let rec' = AList.update ''n60'' f rec
             in fill_countdowns now rec' consumable_totals (set_record rec' dev)
         | None \<Rightarrow>
             fill_countdowns now rec consumable_totals
               (case live_stamp (get rec ''n60'') of
                  Some f \<Rightarrow> set_state ''sprayResetTime'' f (set_record rec dev)
                | None \<Rightarrow> set_record rec dev))"

text \<open>
  The stamp is the caller's time, or the clock's when it gives none; the countdowns are computed from
  a later reading.
\<close>

definition record_consumable_reset ::
    "device \<Rightarrow> string \<Rightarrow> rat \<Rightarrow> rat \<Rightarrow> py_exc + rat option \<times> device" where
  "record_consumable_reset dev which stamp now =
     (if map_of consumable_totals which = None then Inr (None, dev)
      else case get_or (dev_config dev) consumable_record_key (PDict []) of
             PDict rec \<Rightarrow>
               ebind (apply_consumable_state now (set_record (AList.update which (PFloat (Fin stamp)) rec) dev))
                 (\<lambda>dev'. Inr (Some stamp, dev'))
           | _ \<Rightarrow> Inl TypeError)"

text \<open>What a report carries, into the state of either transport.\<close>

definition extract_consumable_days :: "rat \<Rightarrow> pydict \<Rightarrow> pydict \<Rightarrow> py_exc + pydict" where
  "extract_consumable_days now body st =
     ebind (days_left_from_reset now (get body ''sprayResetTime'') spray_days) (\<lambda>spray.
     ebind (days_left_from_reset now (get body ''liquidReset'') deodorant_days) (\<lambda>liquid.
       let st1 = (case spray of Some n \<Rightarrow> AList.update ''sprayLeftDays'' (PInt n) st | None \<Rightarrow> st)
       in Inr (case liquid of Some n \<Rightarrow> AList.update ''deodorantLeftDays'' (PInt n) st1 | None \<Rightarrow> st1)))"

section \<open>Properties\<close>

lemma get_after_update: "get (AList.update k v d) c = (if c = k then v else get d c)"
  by (simp add: get_def lookup_update)

lemma set_state_simps [simp]:
  "dev_config (set_state k v dev) = dev_config dev"
  "dev_state (set_state k v dev) = AList.update k v (dev_state dev)"
  "dev_state (set_record rec dev) = dev_state dev"
  "recorded (set_record rec dev) = rec"
  by (simp_all add: set_state_def set_record_def recorded_def get_after_update)

text \<open>A countdown is never negative.\<close>

lemma days_left_nonneg: "days_left_from_reset now v n = Inr (Some left) \<Longrightarrow> 0 \<le> left"
  by (auto simp: days_left_from_reset_def split: option.splits pyfloat.splits if_splits)

lemma total_float: "total_days \<in> {30, 45} \<Longrightarrow> round_b64 (of_int total_days) = Fin (of_int total_days)"
  by (rule round_b64_int) auto

lemma zero_float: "round_b64 0 = Fin 0"
  by (simp add: round_b64_def)

lemma days_left_fresh:
  "now \<noteq> 0 \<Longrightarrow> total_days \<in> {30, 45} \<Longrightarrow>
   days_left_from_reset now (PFloat (Fin now)) total_days = Inr (Some total_days)"
  using total_float [of total_days] zero_float
  by (auto simp: days_left_from_reset_def float_then_def)

text \<open>What the loop leaves under a key that no later consumable fills.\<close>

lemma fill_other:
  "fill_countdowns now rec cs dev = Inr dev' \<Longrightarrow> k \<notin> fst ` snd ` set cs \<Longrightarrow> get (dev_state dev') k = get (dev_state dev) k"
proof (induction cs arbitrary: dev)
  case (Cons c cs)
  obtain w sk n where c: "c = (w, sk, n)" by (cases c) auto
  obtain left where "days_left_from_reset now (get rec w) n = Inr left"
    "fill_countdowns now rec cs (case left of Some n \<Rightarrow> set_state sk (PInt n) dev | None \<Rightarrow> dev) = Inr dev'"
    using Cons.prems(1) by (auto simp: c ebind_Inr_iff)
  then show ?case using Cons.IH Cons.prems(2) by (cases left) (auto simp: c get_after_update)
qed simp

lemma fill_which:
  "fill_countdowns now rec cs dev = Inr dev' \<Longrightarrow> (which, sk, n) \<in> set cs \<Longrightarrow> distinct (map (fst \<circ> snd) cs) \<Longrightarrow>
   days_left_from_reset now (get rec which) n = Inr (Some left) \<Longrightarrow> get (dev_state dev') sk = PInt left"
proof (induction cs arbitrary: dev)
  case (Cons c cs)
  obtain w k m where c: "c = (w, k, m)" by (cases c) auto
  obtain l where l: "days_left_from_reset now (get rec w) m = Inr l"
    and rest: "fill_countdowns now rec cs (case l of Some n \<Rightarrow> set_state k (PInt n) dev | None \<Rightarrow> dev) = Inr dev'"
    using Cons.prems(1) by (auto simp: c ebind_Inr_iff)
  show ?case
  proof (cases "(which, sk, n) = c")
    case True
    then have "l = Some left" "k = sk" using l Cons.prems(4) c by auto
    moreover have "sk \<notin> fst ` snd ` set cs" using Cons.prems(3) c True by (auto simp: image_comp)
    ultimately show ?thesis using fill_other [OF rest, of sk] by (simp add: get_after_update)
  next
    case False
    then show ?thesis using Cons.IH [OF rest] Cons.prems by simp
  qed
qed simp

text \<open>
  Pressing the reset of a part that only this server can date shows its full number of days
  at once.
\<close>

theorem reset_shows_full_countdown:
  assumes which: "(which, sk, n) \<in> set consumable_totals" "which \<noteq> ''n60''" and now: "now \<noteq> 0"
    and reset: "record_consumable_reset dev which now now = Inr (Some ts, dev')"
  shows "ts = now \<and> get (dev_state dev') sk = PInt n"
proof -
  have dist: "distinct (map (fst \<circ> snd) consumable_totals)" by code_simp
  have n: "n \<in> {30, 45}" using which(1) by (auto simp: consumable_totals_def spray_days_def deodorant_days_def desiccant_days_def)
  have known: "map_of consumable_totals which \<noteq> None"
    using reset by (cases "map_of consumable_totals which = None") (simp_all add: record_consumable_reset_def)
  define whole where "whole rec = apply_consumable_state now (set_record (AList.update which (PFloat (Fin now)) rec) dev)" for rec
  have "(case get_or (dev_config dev) consumable_record_key (PDict []) of
       PDict rec \<Rightarrow> ebind (whole rec) (\<lambda>dev'. Inr (Some now, dev')) | _ \<Rightarrow> Inl TypeError) = Inr (Some ts, dev')"
    using reset known unfolding record_consumable_reset_def whole_def by (simp only: if_False)
  then obtain rec where "ebind (whole rec) (\<lambda>dev'. Inr (Some now, dev')) = Inr (Some ts, dev')"
    by (cases "get_or (dev_config dev) consumable_record_key (PDict [])") simp_all
  then have "whole rec = Inr dev'" and ts: "ts = now" by (auto simp: ebind_Inr_iff)
  then have app: "apply_consumable_state now (set_record (AList.update which (PFloat (Fin now)) rec) dev) = Inr dev'"
    by (simp only: whole_def)
  have left: "days_left_from_reset now (get r which) n = Inr (Some n)"
    if "get r which = PFloat (Fin now)" for r
    using days_left_fresh [OF now n] that by simp
  let ?rec = "AList.update which (PFloat (Fin now)) rec" and ?dev = "set_record (AList.update which (PFloat (Fin now)) rec) dev"
  obtain r d where "fill_countdowns now r consumable_totals d = Inr dev'" "get r which = PFloat (Fin now)"
  proof (cases "live_stamp (get (dev_state ?dev) ''sprayResetTime'')")
    case None
    then show ?thesis using app that [of ?rec] by (simp add: apply_consumable_state_def Let_def get_after_update)
  next
    case (Some f)
    then show ?thesis
      using app which(2) that [of "AList.update ''n60'' f ?rec"]
      by (simp add: apply_consumable_state_def Let_def get_after_update)
  qed
  then have "get (dev_state dev') sk = PInt n" using fill_which [OF _ which(1) dist left] by blast
  then show ?thesis using ts by simp
qed

definition fresh_device :: device where
  "fresh_device = (new_device \<lparr>minted_key = ''pk'', minted_secret = ''ds'', minted_time = 0\<rparr> ''t5'' 5 [] [] [] [])
     \<lparr>dev_state := [], dev_config := []\<rparr>"

lemmas countdown_defs =
  record_consumable_reset_def apply_consumable_state_def fill_countdowns.simps days_left_from_reset_def
  live_stamp_def recorded_def set_record_def set_state_def consumable_totals_def consumable_record_key_def
  spray_days_def deodorant_days_def desiccant_days_def float_then_def get_def get_or_def Let_def

theorem reset_shows_full_countdown_witness:
  "\<exists>dev'. record_consumable_reset fresh_device ''n50'' 1785000000 1785000000 = Inr (Some 1785000000, dev')
    \<and> get (dev_state dev') ''deodorantLeftDays'' = PInt 30"
proof -
  obtain dev' where dev': "record_consumable_reset fresh_device ''n50'' 1785000000 1785000000 = Inr (Some 1785000000, dev')"
    by (simp add: countdown_defs fresh_device_def zero_float round_b64_numeral)
  have "(''n50'', ''deodorantLeftDays'', 30) \<in> set consumable_totals" by code_simp
  then have "get (dev_state dev') ''deodorantLeftDays'' = PInt 30"
    using reset_shows_full_countdown [OF _ _ _ dev', of "''deodorantLeftDays''" 30] by simp
  then show ?thesis using dev' by blast
qed

text \<open>
  The spray is the exception: while the state still holds the stamp the device reported before, the
  reset is overwritten by it at once, and the countdown stays where it was.
\<close>

definition sprayed_device :: device where
  "sprayed_device = fresh_device\<lparr>dev_state := [(''sprayResetTime'', PInt 1782408000)]\<rparr>"

theorem spray_reset_is_overwritten:
  "\<exists>dev'. record_consumable_reset sprayed_device ''n60'' 1785000000 1785000000 = Inr (Some 1785000000, dev')
    \<and> get (recorded dev') ''n60'' = PFloat (Fin 1782408000) \<and> get (dev_state dev') ''sprayLeftDays'' = PInt 15"
  by (simp add: countdown_defs fresh_device_def sprayed_device_def zero_float round_b64_numeral)

end
