(* ===== verification/Signup.thy ===== *)
theory Signup
  imports Device_Registry Payloads
begin

text \<open>
  First contact (\<open>http/handlers/signup.py\<close>, \<open>http/handlers/_common.py\<close> and the resolution of
  \<open>http/handlers/iot_device_info.py\<close>): which device a request comes from, the id of a device that has
  none, what a sign-up stores besides the registration itself, and its answer. A request is its three
  sources of fields. SHA-256 is an argument. The callback that publishes the device to Home Assistant is
  not modelled.
\<close>

section \<open>Which device a request comes from\<close>

record request =
  rq_header :: pydict
  rq_query :: pydict
  rq_form :: pydict

definition otherwise :: "'a option \<Rightarrow> 'a option \<Rightarrow> 'a option" where
  "otherwise x y = (case x of Some v \<Rightarrow> Some v | None \<Rightarrow> y)"

definition usable_text :: "pyval \<Rightarrow> string option" where
  "usable_text v = (case v of PStr s \<Rightarrow> if str_strip s \<noteq> [] then Some (str_strip s) else None | _ \<Rightarrow> None)"

definition device_field :: "request \<Rightarrow> string \<Rightarrow> string option" where
  "device_field req name =
     otherwise (usable_text (get (rq_header req) name))
       (otherwise (usable_text (get (rq_query req) name)) (usable_text (get (rq_form req) name)))"

text \<open>An id is an unsigned decimal, positive.\<close>

definition coerce_device_id :: "pyval \<Rightarrow> int option" where
  "coerce_device_id value =
     (let shape = (case value of
             PStr s \<Rightarrow> if str_strip s \<noteq> [] \<and> list_all is_digit (str_strip s) then Some (PStr (str_strip s)) else None
           | PInt n \<Rightarrow> Some value
           | _ \<Rightarrow> None)
      in case Option.bind shape to_int of
           Some n \<Rightarrow> if 0 < n then Some n else None
         | None \<Rightarrow> None)"

definition device_id :: "request \<Rightarrow> int option" where
  "device_id req =
     otherwise (coerce_device_id (get (rq_header req) ''id''))
       (otherwise (coerce_device_id (get (rq_query req) ''id'')) (coerce_device_id (get (rq_form req) ''id'')))"

definition text_or_empty :: "string option \<Rightarrow> string" where
  "text_or_empty x = (case x of Some s \<Rightarrow> s | None \<Rightarrow> [])"

definition device_serial :: "request \<Rightarrow> string" where
  "device_serial req = text_or_empty (device_field req ''sn'')"

definition request_device :: "request \<Rightarrow> device_registry \<Rightarrow> device option" where
  "request_device req r =
     (case Option.bind (device_id req) (\<lambda>pid. get_device pid r) of
        Some d \<Rightarrow> Some d
      | None \<Rightarrow> if device_serial req \<noteq> [] then by_serial (device_serial req) r else None)"

text \<open>\<open>_resolve_or_create_device\<close> of the credentials endpoints.\<close>

definition resolve_or_create :: "env \<Rightarrow> string \<Rightarrow> request \<Rightarrow> device_registry \<Rightarrow> device option \<times> device_registry" where
  "resolve_or_create env dtype req r =
     (case request_device req r of
        Some d \<Rightarrow> (Some d, r)
      | None \<Rightarrow>
          (case device_id req of
             None \<Rightarrow> (None, r)
           | Some pid \<Rightarrow> (let (d, r') = get_or_create env pid dtype (device_serial req) [] [] r in (Some d, r'))))"

section \<open>Signing up\<close>

definition local_id_base :: int where
  "local_id_base = 400000000"

definition big_endian :: "bytes \<Rightarrow> int" where
  "big_endian bs = foldl (\<lambda>n b. n * 256 + uint b) 0 bs"

definition local_device_id :: "(string \<Rightarrow> bytes) \<Rightarrow> string list \<Rightarrow> int option" where
  "local_device_id sha256 candidates =
     (case find (\<lambda>c. str_strip c \<noteq> []) candidates of
        None \<Rightarrow> None
      | Some c \<Rightarrow> Some (local_id_base + big_endian (take 4 (sha256 (str_lower (str_strip c)))) mod 100000000))"

text \<open>One write into the device's \<open>config\<close>, marked dirty.\<close>

definition remember :: "env \<Rightarrow> int \<Rightarrow> string \<Rightarrow> pyval \<Rightarrow> device_registry \<Rightarrow> device_registry" where
  "remember env pid k v r =
     (case map_of (reg_entries r) pid of
        None \<Rightarrow> r
      | Some d \<Rightarrow>
          mark_dirty dump_devices (env_loop env) (env_io env)
            (r\<lparr>reg_entries := AList.update pid (d\<lparr>dev_config := AList.update k v (dev_config d)\<rparr>) (reg_entries r)\<rparr>))"

definition config_at :: "int \<Rightarrow> string \<Rightarrow> device_registry \<Rightarrow> pyval" where
  "config_at pid k r = (case get_device pid r of Some d \<Rightarrow> get (dev_config d) k | None \<Rightarrow> PNone)"

definition remember_timezone :: "env \<Rightarrow> request \<Rightarrow> int \<Rightarrow> device_registry \<Rightarrow> device_registry" where
  "remember_timezone env req pid r =
     (case Option.bind (device_field req ''timezone'') (\<lambda>s. to_float (PStr s)) of
        Some (Fin tz) \<Rightarrow>
          if - 12 \<le> tz \<and> tz \<le> 14 \<and> \<not> py_eq (config_at pid ''reported_timezone'' r) (PFloat (Fin tz))
          then remember env pid ''reported_timezone'' (PFloat (Fin tz)) r else r
      | _ \<Rightarrow> r)"

definition remember_locale :: "env \<Rightarrow> request \<Rightarrow> int \<Rightarrow> device_registry \<Rightarrow> device_registry" where
  "remember_locale env req pid r =
     (case device_field req ''locale'' of
        Some l \<Rightarrow>
          if py_eq (config_at pid ''locale'' r) (PStr l) then r else remember env pid ''locale'' (PStr l) r
      | None \<Rightarrow> r)"

definition remember_where_it_thinks_it_is :: "env \<Rightarrow> request \<Rightarrow> int \<Rightarrow> device_registry \<Rightarrow> device_registry" where
  "remember_where_it_thinks_it_is env req pid r = remember_locale env req pid (remember_timezone env req pid r)"

definition remember_bt_mac :: "env \<Rightarrow> request \<Rightarrow> int \<Rightarrow> device_registry \<Rightarrow> device_registry" where
  "remember_bt_mac env req pid r =
     (case device_field req ''bt_mac'' of
        Some b \<Rightarrow> if truthy (config_at pid ''bt_mac'' r) then r else remember env pid ''bt_mac'' (PStr b) r
      | None \<Rightarrow> r)"

text \<open>The id a sign-up is for: the device's own, or one made from its MAC.\<close>

definition sign_up_id :: "(string \<Rightarrow> bytes) \<Rightarrow> request \<Rightarrow> int option" where
  "sign_up_id sha256 req =
     otherwise (device_id req)
       (local_device_id sha256
          [text_or_empty (device_field req ''mac''), text_or_empty (device_field req ''bt_mac'')])"

definition sign_up_device :: "env \<Rightarrow> string \<Rightarrow> request \<Rightarrow> int \<Rightarrow> device_registry \<Rightarrow> device_registry" where
  "sign_up_device env dtype req pid r =
     (let r1 = snd (get_or_create env pid dtype (device_serial req) (text_or_empty (device_field req ''mac''))
                      (text_or_empty (device_field req ''firmware'')) r);
          r2 = (if device_id req = None \<and> get_device pid r = None
                then remember env pid ''locally_assigned_id'' (PBool True) r1 else r1)
      in remember_where_it_thinks_it_is env req pid (remember_bt_mac env req pid r2))"

text \<open>The handler: the status and the body of its answer, and the registry.\<close>

definition handle_signup ::
    "(string \<Rightarrow> bytes) \<Rightarrow> surroundings \<Rightarrow> env \<Rightarrow> string \<Rightarrow> request \<Rightarrow> device_registry \<Rightarrow> (int \<times> pyval) \<times> device_registry" where
  "handle_signup sha256 w env dtype req r =
     (case sign_up_id sha256 req of
        None \<Rightarrow> ((400, PDict [(''error'', PStr ''missing device id'')]), r)
      | Some pid \<Rightarrow>
          (let r' = sign_up_device env dtype req pid r
           in ((200, case get_device pid r' of Some d \<Rightarrow> result_body (to_signup w d) | None \<Rightarrow> PNone), r')))"

section \<open>What first contact may change\<close>

text \<open>
  A device as the later requests find it. Beside what a registration keeps, the configuration stays,
  except for the time zone and the locale the device reports and a Bluetooth address it had not given.
\<close>

definition reported_keys :: "string list" where
  "reported_keys = [''reported_timezone'', ''locale'', ''bt_mac'']"

definition unreported :: "pydict \<Rightarrow> pydict" where
  "unreported c = filter (\<lambda>kv. fst kv \<notin> set reported_keys) c"

definition same_person :: "device \<Rightarrow> device \<Rightarrow> bool" where
  "same_person d d' \<longleftrightarrow>
     petkit_id d' = petkit_id d \<and> device_type d' = device_type d
     \<and> mqtt_product_key d' = mqtt_product_key d \<and> mqtt_device_secret d' = mqtt_device_secret d
     \<and> api_secret d' = api_secret d
     \<and> (serial_number d \<noteq> [] \<longrightarrow>
          serial_number d' = serial_number d \<and> mqtt_device_name d' = mqtt_device_name d)
     \<and> (mac d \<noteq> [] \<longrightarrow> mac d' = mac d)
     \<and> unreported (dev_config d') = unreported (dev_config d)
     \<and> (truthy (get (dev_config d) ''bt_mac'') \<longrightarrow>
          get (dev_config d') ''bt_mac'' = get (dev_config d) ''bt_mac'')"

datatype contact =
    Sign_up env string request
  | Asks_credentials env string request

fun contacts :: "(string \<Rightarrow> bytes) \<Rightarrow> surroundings \<Rightarrow> device_registry \<Rightarrow> contact \<Rightarrow> device_registry" where
  "contacts sha256 w r (Sign_up env dtype req) = snd (handle_signup sha256 w env dtype req r)"
| "contacts sha256 w r (Asks_credentials env dtype req) = snd (resolve_or_create env dtype req r)"

section \<open>Lemmas\<close>

lemma same_person_refl: "same_person d d"
  by (simp add: same_person_def)

lemma same_person_trans: "same_person d e \<Longrightarrow> same_person e f \<Longrightarrow> same_person d f"
  unfolding same_person_def by (elim conjE) (intro conjI impI; simp)

lemma identity_person: "same_identity d d' \<Longrightarrow> same_person d d'"
  by (simp add: same_identity_def same_person_def)

lemma unreported_update: "k \<in> set reported_keys \<Longrightarrow> unreported (AList.update k v c) = unreported c"
  by (induction c) (auto simp: unreported_def)

lemma remember_entries:
  "map_of (reg_entries (remember env pid k v r)) =
     (case map_of (reg_entries r) pid of
        None \<Rightarrow> map_of (reg_entries r)
      | Some d \<Rightarrow> (map_of (reg_entries r))(pid \<mapsto> d\<lparr>dev_config := AList.update k v (dev_config d)\<rparr>))"
  by (simp add: remember_def lookup_update split: option.split)

lemma remember_ok: "registry_ok r \<Longrightarrow> registry_ok (remember env pid k v r)"
proof -
  assume ok: "registry_ok r"
  then have dist: "keys_distinct (reg_entries r)" by (simp add: registry_ok_def)
  then have "keys_distinct (reg_entries (remember env pid k v r))"
    by (simp add: remember_def split: option.split del: keys_update)
  moreover have "petkit_id d = p" if "map_of (reg_entries r) p = Some d" for p d
    using ok that unfolding registry_ok_def by (auto simp: list_all_iff)
  ultimately show ?thesis
    by (auto simp: registry_ok_def keyed_lookup remember_entries simp del: map_of_eq_Some_iff split: option.splits if_splits)
qed

lemma config_at_lookup: "map_of (reg_entries r) pid = Some d \<Longrightarrow> config_at pid k r = get (dev_config d) k"
  by (simp add: config_at_def get_device_def)

text \<open>A write of a reported key keeps every device; one into a device that is new keeps the others.\<close>

lemma remember_keeps:
  assumes "registry_ok r" and "k \<in> set reported_keys" and "k = ''bt_mac'' \<longrightarrow> \<not> truthy (config_at pid ''bt_mac'' r)"
  shows "keeps_devices same_person r (remember env pid k v r)"
proof -
  have "same_person d (d\<lparr>dev_config := AList.update k v (dev_config d)\<rparr>)"
    if "map_of (reg_entries r) pid = Some d" for d
    using assms(2,3) config_at_lookup [OF that]
    by (auto simp: same_person_def unreported_update get_def lookup_update)
  then show ?thesis
    using assms(1) by (auto simp: registry_ok_def keeps_lookup remember_entries same_person_refl
        simp del: map_of_eq_Some_iff split: option.splits)
qed

lemma remember_keeps_others:
  assumes "registry_ok r" and "keeps_devices rel r s" and "map_of (reg_entries r) pid = None"
  shows "keeps_devices rel r (remember env pid k v s)"
  using assms by (auto simp: registry_ok_def keeps_lookup remember_entries simp del: map_of_eq_Some_iff split: option.splits)

lemma keeps_person_trans:
  "keeps_devices same_person r s \<Longrightarrow> keeps_devices same_person s t \<Longrightarrow> keeps_devices same_person r t"
  by (rule keeps_trans [where rel = same_person, OF same_person_trans])

text \<open>What the handler does after the registration.\<close>

definition keeps_well :: "device_registry \<Rightarrow> device_registry \<Rightarrow> bool" where
  "keeps_well r s \<longleftrightarrow> registry_ok s \<and> keeps_devices same_person r s"

lemma keeps_well_step:
  "keeps_well r s \<Longrightarrow> k \<in> set reported_keys \<Longrightarrow> k = ''bt_mac'' \<longrightarrow> \<not> truthy (config_at pid ''bt_mac'' s) \<Longrightarrow>
   keeps_well r (remember env pid k v s)"
  unfolding keeps_well_def by (blast intro: remember_ok keeps_person_trans remember_keeps)

lemma keeps_well_notes:
  "keeps_well r s \<Longrightarrow> keeps_well r (remember_where_it_thinks_it_is env req pid (remember_bt_mac env req pid s))"
proof -
  assume "keeps_well r s"
  then have "keeps_well r (remember_bt_mac env req pid s)"
    by (simp add: remember_bt_mac_def keeps_well_step reported_keys_def split: option.split)
  then have "keeps_well r (remember_timezone env req pid (remember_bt_mac env req pid s))"
    by (simp add: remember_timezone_def keeps_well_step reported_keys_def split: option.split pyfloat.split)
  then show ?thesis
    by (simp add: remember_where_it_thinks_it_is_def remember_locale_def keeps_well_step reported_keys_def split: option.split)
qed

lemma registration_well: "registry_ok r \<Longrightarrow> keeps_well r (snd (get_or_create env pid dtype sn hw fw r))"
  by (simp add: keeps_well_def get_or_create_ok registration_keeps same_person_refl identity_person)

lemma sign_up_well: "registry_ok r \<Longrightarrow> keeps_well r (sign_up_device env dtype req pid r)"
proof -
  assume ok: "registry_ok r"
  let ?r1 = "snd (get_or_create env pid dtype (device_serial req) (text_or_empty (device_field req ''mac''))
                      (text_or_empty (device_field req ''firmware'')) r)"
  have r1: "keeps_well r ?r1" by (rule registration_well [OF ok])
  have "keeps_well r (remember env pid ''locally_assigned_id'' (PBool True) ?r1)" if "get_device pid r = None"
    using r1 ok that by (simp add: keeps_well_def remember_ok remember_keeps_others get_device_def)
  then show ?thesis using r1 by (simp add: sign_up_device_def Let_def keeps_well_notes)
qed

lemma contact_well: "registry_ok r \<Longrightarrow> keeps_well r (contacts sha256 w r e)"
proof (cases e)
  case (Sign_up env dtype req)
  assume ok: "registry_ok r"
  have "keeps_well r r" using ok by (auto simp: keeps_well_def registry_ok_def keeps_lookup same_person_refl simp del: map_of_eq_Some_iff)
  then show ?thesis using sign_up_well [OF ok] by (simp add: Sign_up handle_signup_def Let_def split: option.split)
next
  case (Asks_credentials env dtype req)
  assume ok: "registry_ok r"
  have "keeps_well r r" using ok by (auto simp: keeps_well_def registry_ok_def keeps_lookup same_person_refl simp del: map_of_eq_Some_iff)
  then show ?thesis
    using registration_well [OF ok] by (simp add: Asks_credentials resolve_or_create_def split_beta split: option.split)
qed

interpretation first_contacts: growing_machine "contacts sha256 w" registry_ok "keeps_devices same_person" for sha256 w
proof (unfold_locales, goal_cases)
  case (1 r e)
  then show ?case using contact_well [of r sha256 w e] by (simp add: keeps_well_def)
next
  case (2 r)
  then show ?case by (auto simp: registry_ok_def keeps_lookup same_person_refl simp del: map_of_eq_Some_iff)
next
  case (3 r s t)
  then show ?case by (rule keeps_person_trans)
next
  case (4 r e)
  then show ?case using contact_well [of r sha256 w e] by (simp add: keeps_well_def)
qed

section \<open>Properties\<close>

text \<open>
  C23: no sequence of sign-ups and requests for credentials, whatever they claim, makes a well-formed registry
  forget a device or changes its id, type, broker credentials or API secret; a serial number, the broker name
  that goes with it, and a MAC stay once they are known. Of its configuration only the time zone and the locale
  it reports can change, and a Bluetooth address that was missing; one that is known stays.
\<close>

theorem sign_ups_keep_identity:
  assumes "registry_ok r" and "map_of (reg_entries r) pid = Some d"
  shows "\<exists>d'. map_of (reg_entries (foldl (contacts sha256 w) r es)) pid = Some d' \<and> same_person d d'"
proof -
  have "keeps_devices same_person r (foldl (contacts sha256 w) r es)" using assms(1) by (rule first_contacts.run_le)
  with assms show ?thesis by (auto simp: registry_ok_def keeps_lookup simp del: map_of_eq_Some_iff)
qed

definition sample_request :: "pydict \<Rightarrow> request" where
  "sample_request form = \<lparr>rq_header = [], rq_query = [], rq_form = form\<rparr>"

definition sample_contacts :: "contact list" where
  "sample_contacts =
     [Sign_up sample_env ''t6'' (sample_request [(''id'', PStr ''9''), (''sn'', PStr ''SN1''), (''locale'', PStr ''en'')]),
      Asks_credentials sample_env ''t6'' (sample_request [(''id'', PStr ''9'')]),
      Sign_up sample_env ''t6'' (sample_request [(''id'', PStr ''9''), (''sn'', PStr ''SN2''), (''timezone'', PStr ''2.0'')])]"

theorem sign_ups_keep_identity_witness:
  "\<exists>d'. map_of (reg_entries (foldl (contacts (\<lambda>_. []) sample_surroundings) sample_registry sample_contacts)) 9 = Some d'
     \<and> mqtt_device_secret d' = ''s3cret''"
  using sign_ups_keep_identity [OF sample_registry_ok sample_registry_device, of "\<lambda>_. []" sample_surroundings sample_contacts]
  by (auto simp: same_person_def new_device_def device_post_init_def sample_env_def)

text \<open>
  A device that has no id gets one from its MAC: it lies in the range set aside for such ids, and a
  repeated sign-up finds the entry the first one made.
\<close>

lemma present_key: "map_of es k = Some d \<Longrightarrow> has_key es k"
  by (force dest: map_of_SomeD)

lemma keys_after_update: "map fst (AList.update k v es) = (if has_key es k then map fst es else map fst es @ [k])"
  by (induction es) auto

lemma remember_keys: "map fst (reg_entries (remember env pid k v r)) = map fst (reg_entries r)"
  by (simp add: remember_def keys_after_update present_key del: set_map split: option.split)

lemma notes_keys:
  "map fst (reg_entries (remember_where_it_thinks_it_is env req pid r)) = map fst (reg_entries r)"
  "map fst (reg_entries (remember_bt_mac env req pid r)) = map fst (reg_entries r)"
proof -
  have "map fst (reg_entries (remember_timezone env req pid s)) = map fst (reg_entries s)" for s
    by (simp add: remember_timezone_def remember_keys split: option.split pyfloat.split)
  moreover have "map fst (reg_entries (remember_locale env req pid s)) = map fst (reg_entries s)" for s
    by (simp add: remember_locale_def remember_keys split: option.split)
  ultimately show "map fst (reg_entries (remember_where_it_thinks_it_is env req pid r)) = map fst (reg_entries r)"
    by (simp only: remember_where_it_thinks_it_is_def)
  show "map fst (reg_entries (remember_bt_mac env req pid r)) = map fst (reg_entries r)"
    by (simp add: remember_bt_mac_def remember_keys split: option.split)
qed

lemma registration_keys:
  "map fst (reg_entries (snd (get_or_create env pid dtype sn hw fw r))) =
     (if has_key (reg_entries r) pid then map fst (reg_entries r) else map fst (reg_entries r) @ [pid])"
proof (cases "map_of (reg_entries r) pid")
  case None
  then have "\<not> has_key (reg_entries r) pid" by (simp add: map_of_eq_None_iff)
  then show ?thesis using None by (simp add: get_or_create_def Let_def keys_after_update del: set_map)
next
  case (Some d)
  then show ?thesis
    by (simp add: get_or_create_def split_beta keys_after_update present_key del: set_map)
qed

lemma sign_up_keys:
  "map fst (reg_entries (sign_up_device env dtype req pid r)) =
     (if has_key (reg_entries r) pid then map fst (reg_entries r) else map fst (reg_entries r) @ [pid])"
  unfolding sign_up_device_def Let_def notes_keys by (simp only: if_distrib [of reg_entries] if_distrib [of "map fst"]
      remember_keys registration_keys if_cancel)

lemma minted_id_is_stable:
  assumes "device_id req = None" and "sign_up_id sha256 req = Some pid"
  shows "local_id_base \<le> pid \<and> pid < local_id_base + 100000000
    \<and> (let r' = snd (handle_signup sha256 w env dtype req r)
       in has_key (reg_entries r') pid
          \<and> map fst (reg_entries (snd (handle_signup sha256 w' env' dtype' req r'))) = map fst (reg_entries r'))"
proof -
  have "\<exists>n. pid = local_id_base + n mod 100000000"
    using assms by (auto simp: sign_up_id_def otherwise_def local_device_id_def split: option.splits)
  moreover have "has_key (reg_entries (sign_up_device env dtype req pid r)) pid"
    using sign_up_keys [of env dtype req pid r] by (metis list.set_map in_set_conv_decomp)
  ultimately show ?thesis
    using sign_up_keys [of env' dtype' req pid "sign_up_device env dtype req pid r"]
    by (auto simp: handle_signup_def assms(2) Let_def)
qed

end
