(* ===== verification/Spec2Isabelle.thy ===== *)
theory Spec2Isabelle
  imports Coerce Dicts Framing Ble_Device Ctw3 W5 Ble_Command Device Persist Device_Registry
    Ble_Registry Topics Mqtt_Auth Heartbeat Retention
    Codes Json Normalize Sessions Timeline
    Json_Values Payloads Redact Redact_Guard Redact_Ends
    Event_Db Event_Store Event_Tasks Event_Invariants Event_Growth Event_Map Event_History
    Ble_Relay Paths Consumables Signup
begin

text \<open>
  A model of the core of the \<open>petkit-local-dev\<close> add-on: a local stand-in for the
  PetKit cloud, written in Python, that litter boxes, feeders and fountains talk to over HTTP and
  MQTT. All paths below are relative to
  \<open>src/apps/petkit-local-dev/addon/petkit_local/\<close>. The other directories of the
  repository hold container images (Nix and Go build files) with no program logic of their own.

  \<^bold>\<open>The program.\<close> A device signs up over HTTP and is entered in the device
  registry, a JSON file (\<open>devices/registry.py\<close>). It polls a heartbeat
  (\<open>http/handlers/heartbeat.py\<close>) that drains its command queue, logs in to the MQTT
  broker with a signed user name (\<open>mqtt/auth.py\<close>), and reports telemetry on topics
  (\<open>mqtt/topics.py\<close>). Bluetooth accessories hang off a parent device and are driven by
  frames relayed through it (\<open>devices/ble/\<close>). Events come in over either transport,
  are normalised into rows (\<open>events/normalize.py\<close>) by means of the code tables
  (\<open>events/codes.py\<close>), stored (\<open>events/store.py\<close>), and folded into the cards of a timeline
  (\<open>events/sessions.py\<close>). Media files are swept by age and size
  (\<open>media/retention.py\<close>).

  \<^bold>\<open>Conventions.\<close> A Python value is a \<open>pyval\<close> of \<open>Prelude\<close>,
  a dict an association list without repeated keys in insertion order, a text a list of
  characters. Python integers are \<open>int\<close>; the bytes of a BLE frame are \<open>8 word\<close>s.
  A float is a \<open>pyfloat\<close>: a rational rounded to binary64, or an infinity, or not a
  number. A function that can raise returns a sum whose left side names the exception.
  What is not under \<open>src/\<close> (the clock, a keyed hash, the text Python's
  \<open>repr\<close> gives, the file system) is an argument of the definitions that use it.

  \<^bold>\<open>The theories, with what they model and show.\<close>
  \<^item> \<open>Prelude\<close>: error monad, dicts, text scanning; the lemmas the rest shares.
  \<^item> \<open>Coerce\<close> (\<open>utils/coerce.py\<close>), \<open>Dicts\<close>
    (\<open>utils/dicts.py\<close>): lenient conversions and nested lookups; a round trip through
    text.
  \<^item> \<open>Py_Codec\<close>, \<open>Json\<close>: the parts of Python's standard library the
    code leans on: base64, hexadecimal, percent quoting; \<open>json.loads\<close> and
    \<open>json.dumps\<close>. \<open>Json.loads_fuel\<close> shows that the fuel the reader is given
    (twice the length of the text, plus one) always suffices; \<open>Json.json_roundtrip\<close> that
    a written value is read back.
  \<^item> \<open>Framing\<close>, \<open>Ble_Device\<close>, \<open>Ctw3\<close>, \<open>W5\<close>,
    \<open>Ble_Command\<close>, \<open>Ble_Registry\<close> (\<open>devices/ble/\<close>): frames and their
    round trip, the two fountain protocols with their configuration round trips, the routing of
    a write, the accessory registry with its document, the import of a cloud account and the
    uniqueness of addresses it keeps.
  \<^item> \<open>Device\<close> (\<open>devices/base.py\<close>, \<open>utils/const.py\<close>,
    \<open>devices/defaults.py\<close>), \<open>Persist\<close> and \<open>Device_Registry\<close>
    (\<open>devices/registry.py\<close>, \<open>utils/jsonio.py\<close>): the record, the atomic write as
    a sequence of system calls that may be cut off anywhere, the dirty flag and the flusher as a
    step relation with an invariant, registration, restart.
  \<^item> \<open>Signup\<close> (\<open>http/handlers/signup.py\<close>, \<open>_common.py\<close>,
    \<open>iot_device_info.py\<close>): which device a request comes from, the whole sign-up with what it writes into
    the configuration, and what no sequence of first contacts changes.
  \<^item> \<open>Topics\<close>, \<open>Mqtt_Auth\<close> (\<open>mqtt/\<close>): parsing and
    re-addressing of topics, admission, sessions and take-over as a step relation.
  \<^item> \<open>Heartbeat\<close> (\<open>http/handlers/heartbeat.py\<close>): translation of queued
    commands, the drain, and the rules the module's header gives for the entries of an answer.
  \<^item> \<open>Retention\<close> (\<open>media/retention.py\<close> and four queries of
    \<open>events/store.py\<close>): caps, selection, the sweeps of rows and of bare directories.
  \<^item> \<open>Codes\<close> (\<open>events/codes.py\<close>): the tables, row by row, and the two
    lookups.
  \<^item> \<open>Normalize\<close> (\<open>events/normalize.py\<close>): repair of the bare tokens the
    firmware writes, classification, the recognised pet, rows of both transports, derived state,
    file metadata.
  \<^item> \<open>Sessions\<close> and \<open>Timeline\<close> (\<open>events/sessions.py\<close>): the passes
    that turn rows into cards, and their proofs. The passes share two contracts, the locales
    \<open>placing\<close> (which card an event goes under) and \<open>carding\<close> (which card a
    group of events makes), each interpreted on every pass of the code.

  \<^item> \<open>Json_Values\<close>: the size and depth of what the reader returns
    (\<open>Json_Values.loads_valid\<close>), on which the bound of the redaction walk rests.
  \<^item> \<open>Payloads\<close> (\<open>devices/payloads.py\<close> and the schedules of
    \<open>devices/defaults.py\<close>): the answers to the device's polls, settings, upload
    addresses, multi-configuration.
  \<^item> \<open>Redact\<close>, \<open>Redact_Guard\<close>, \<open>Redact_Ends\<close>
    (\<open>http/redact/\<close>): the rules, the walk over a body that may hold further documents
    as texts, and what leaves the proxy. The locale \<open>guard\<close> states what the walk keeps
    of a class of harmless values; it is interpreted twice, for fields and texts that must not be
    sent and for server addresses that must stay ours.

  \<^item> \<open>Event_Db\<close>, \<open>Event_Store\<close> (\<open>events/models.py\<close>,
    \<open>events/store.py\<close>, the lookups of \<open>ai/pets.py\<close>): the tables and every query and
    write on them. SQL has the meaning its documentation gives: comparisons with null are not true,
    values of different kinds are ordered by kind; what a column keeps of a value is the argument
    \<open>fit\<close>. \<open>Event_Tasks\<close>: the tasks of the event loop, the write lock, sessions that
    commit, roll back or are cut off; the runs of several tasks refine whole writes run one after the
    other (\<open>Event_Tasks.tasks_run_serially\<close>). \<open>Event_Invariants\<close> and
    \<open>Event_Growth\<close>: what each write keeps; the writes interpret the locale
    \<open>growing_machine\<close>. \<open>Event_Map\<close>: an upsert as the update of a map.
  \<^item> \<open>Event_History\<close> (\<open>events/migrations.py\<close> and \<open>pet_visit_stats\<close>): the
    repair of stored rows, which settles after one run, and the figures of a pet's visits.

  \<^item> \<open>Ble_Relay\<close> (\<open>mqtt/ble_relay.py\<close>): sessions, frames with their
    sequence byte, the throttled poll, the readings that come back; what goes out is the list the
    state keeps. \<open>Consumables\<close> (\<open>devices/consumables.py\<close>): the countdowns only this
    server can date. \<open>Paths\<close> (\<open>utils/paths.py\<close>): file names and joined paths made
    from untrusted text.

  \<^bold>\<open>Bounds and fuel.\<close> Two functions are fuelled. The JSON reader is given twice
  the length of the text, plus one, which \<open>Json.loads_fuel\<close> proves enough. The redaction
  walk opens texts that hold documents; its level number is the depth it may go, and
  \<open>Redact_Ends.walk_ends\<close> proves that the size of the body and of our own values is
  enough when no text among our own values encodes an object. Python has no such number: a stored locale
  that encodes one about the device makes the walk endless
  (\<open>Redact_Ends.nested_locale_never_ends\<close>). Every other recursion is structural or has a measure.

  \<^bold>\<open>Not modelled.\<close> Logging. The creation and alteration of the
  event store's schema and the settings of its connections. The field
  decoder of \<open>events/decode.py\<close>, the state parsers of \<open>devices/\<close>, the bridge of
  \<open>mqtt/\<close>. Network and process glue (HTTP server and proxy,
  DNS, broker, media pipeline, shell patchers, web panel, start-up), whose behaviour is that of
  the libraries they call.
\<close>

end
